theory Spec2Isabelle
  imports Main "HOL-Library.Sublist"
begin

section \<open>Token patterns\<close>

text \<open>
  The grammar of \<^verbatim>\<open>grammar.js\<close> names its terminals by string literals and by regular
  expression literals. A regular expression is embedded as a value of \<open>regex\<close>; characters
  are Unicode code points (natural numbers), so that the code points above 255 that the
  grammar mentions can be written down.

  \<^item> \<open>Chars\<close> is a character class \<^verbatim>\<open>[...]\<close>, given by its inclusive code point ranges;
    \<open>NotChars\<close> is a negated class \<^verbatim>\<open>[^...]\<close>.
  \<^item> \<open>AnyChar\<close> is the dot, which matches every character except the line feed.
  \<^item> \<open>Cat\<close>, \<open>Or\<close>, \<open>Star\<close>, \<open>Plus\<close>, \<open>Maybe\<close> are juxtaposition, \<^verbatim>\<open>|\<close>, \<^verbatim>\<open>*\<close>,
    \<^verbatim>\<open>+\<close> and \<^verbatim>\<open>?\<close>; \<open>Times lo hi\<close> is the counted repetition \<^verbatim>\<open>{lo,hi}\<close>.
  \<^item> \<open>Never\<close> and \<open>Eps\<close> (no string, the empty string) are what derivatives reduce to.
\<close>

datatype regex =
    Never
  | Eps
  | Chars "(nat \<times> nat) list"
  | NotChars "(nat \<times> nat) list"
  | AnyChar
  | Cat regex regex
  | Or regex regex
  | Star regex
  | Plus regex
  | Maybe regex
  | Times nat nat regex

fun in_ranges :: "nat \<Rightarrow> (nat \<times> nat) list \<Rightarrow> bool" where
  "in_ranges c [] = False"
| "in_ranges c ((lo, hi) # rs) = ((lo \<le> c \<and> c \<le> hi) \<or> in_ranges c rs)"

fun nullable :: "regex \<Rightarrow> bool" where
  "nullable Never = False"
| "nullable Eps = True"
| "nullable (Chars rs) = False"
| "nullable (NotChars rs) = False"
| "nullable AnyChar = False"
| "nullable (Cat r s) = (nullable r \<and> nullable s)"
| "nullable (Or r s) = (nullable r \<or> nullable s)"
| "nullable (Star r) = True"
| "nullable (Plus r) = nullable r"
| "nullable (Maybe r) = True"
| "nullable (Times lo hi r) = (lo = 0 \<or> nullable r)"

text \<open>The derivative of a pattern by one character: what may follow that character.\<close>

fun deriv :: "nat \<Rightarrow> regex \<Rightarrow> regex" where
  "deriv c Never = Never"
| "deriv c Eps = Never"
| "deriv c (Chars rs) = (if in_ranges c rs then Eps else Never)"
| "deriv c (NotChars rs) = (if in_ranges c rs then Never else Eps)"
| "deriv c AnyChar = (if c = 10 then Never else Eps)"
| "deriv c (Cat r s) =
     (if nullable r then Or (Cat (deriv c r) s) (deriv c s) else Cat (deriv c r) s)"
| "deriv c (Or r s) = Or (deriv c r) (deriv c s)"
| "deriv c (Star r) = Cat (deriv c r) (Star r)"
| "deriv c (Plus r) = Cat (deriv c r) (Star r)"
| "deriv c (Maybe r) = deriv c r"
| "deriv c (Times lo hi r) =
     (if hi = 0 then Never else Cat (deriv c r) (Times (lo - 1) (hi - 1) r))"

fun matches :: "regex \<Rightarrow> nat list \<Rightarrow> bool" where
  "matches r [] = nullable r"
| "matches r (c # cs) = matches (deriv c r) cs"

text \<open>A lexeme is the text of one token. \<open>re_match r w\<close>: the whole lexeme matches \<open>r\<close>.\<close>

type_synonym lexeme = string

definition re_match :: "regex \<Rightarrow> lexeme \<Rightarrow> bool" where
  "re_match r w = matches r (map of_char w)"

definition rng :: "char \<Rightarrow> char \<Rightarrow> nat \<times> nat" where
  "rng a b = (of_char a, of_char b)"

definition just :: "char \<Rightarrow> nat \<times> nat" where
  "just a = (of_char a, of_char a)"

definition cat :: "regex list \<Rightarrow> regex" where
  "cat rs = foldr Cat rs Eps"

definition lit :: "string \<Rightarrow> regex" where
  "lit s = cat (map (\<lambda>c. Chars [just c]) s)"

text \<open>
  The escapes \<^verbatim>\<open>\d\<close> and \<^verbatim>\<open>\s\<close>, as the lexer that tree-sitter generates from the
  grammar reads them: \<^verbatim>\<open>\d\<close> is the ASCII digits; \<^verbatim>\<open>\s\<close> is space, tab, line feed and
  carriage return.
\<close>

definition esc_d :: "(nat \<times> nat) list" where
  "esc_d = [(48, 57)]"

definition esc_s :: "(nat \<times> nat) list" where
  "esc_s = [(9, 10), (13, 13), (32, 32)]"

text \<open>The characters that cannot be written inside an Isabelle string literal.\<close>

definition dquote :: char where "dquote = CHR 0x22"
definition squote :: char where "squote = CHR 0x27"
definition backslash :: char where "backslash = CHR 0x5C"

section \<open>The grammar DSL\<close>

text \<open>
  \<^verbatim>\<open>grammar.js\<close> is written in the rule combinators of tree-sitter. Each combinator is a
  constructor of \<open>rule\<close>: \<^verbatim>\<open>$.name\<close> is \<open>SYMBOL\<close>, a string literal is \<open>STRING\<close>, a regular
  expression literal is \<open>PATTERN\<close>, and \<^verbatim>\<open>seq\<close>, \<^verbatim>\<open>choice\<close>, \<^verbatim>\<open>repeat\<close>, \<^verbatim>\<open>repeat1\<close>,
  \<^verbatim>\<open>optional\<close>, \<^verbatim>\<open>prec\<close>, \<^verbatim>\<open>prec.left\<close>, \<^verbatim>\<open>prec.right\<close>, \<^verbatim>\<open>field\<close>, \<^verbatim>\<open>alias\<close>, \<^verbatim>\<open>token\<close>
  and \<^verbatim>\<open>token.immediate\<close> are the constructors of the same name in capitals. A \<^verbatim>\<open>prec\<close>
  combinator called without a number has precedence 0.
\<close>

datatype rule =
    SYMBOL string
  | STRING string
  | PATTERN regex
  | SEQ "rule list"
  | CHOICE "rule list"
  | REPEAT rule
  | REPEAT1 rule
  | OPTIONAL rule
  | PREC int rule
  | PREC_LEFT int rule
  | PREC_RIGHT int rule
  | FIELD string rule
  | ALIAS rule string
  | TOKEN rule
  | IMMEDIATE_TOKEN rule

text \<open>The three helper functions at the end of \<^verbatim>\<open>grammar.js\<close>.\<close>

definition commaSep1 :: "rule \<Rightarrow> rule" where
  "commaSep1 rule = SEQ [rule, REPEAT (SEQ [STRING '','', rule]), OPTIONAL (STRING '','')]"

definition commaSep :: "rule \<Rightarrow> rule" where
  "commaSep rule = OPTIONAL (commaSep1 rule)"

definition optionalDashSeparation :: "rule \<Rightarrow> rule" where
  "optionalDashSeparation rule = SEQ [rule, REPEAT (SEQ [OPTIONAL (STRING ''_''), rule])]"

section \<open>The precedence table\<close>

definition PREC_COMMENT :: int where "PREC_COMMENT = 1"
definition PREC_STRING :: int where "PREC_STRING = 2"
definition PREC_COMMA :: int where "PREC_COMMA = -1"
definition PREC_OBJECT :: int where "PREC_OBJECT = -1"
definition PREC_USER_TYPE :: int where "PREC_USER_TYPE = 1"
definition PREC_DECLARATION :: int where "PREC_DECLARATION = 1"
definition PREC_ASSIGN :: int where "PREC_ASSIGN = 0"
definition PREC_TERNARY :: int where "PREC_TERNARY = 1"
definition PREC_OR :: int where "PREC_OR = 2"
definition PREC_AND :: int where "PREC_AND = 3"
definition PREC_REL :: int where "PREC_REL = 4"
definition PREC_PLUS :: int where "PREC_PLUS = 5"
definition PREC_TIMES :: int where "PREC_TIMES = 6"
definition PREC_EXP :: int where "PREC_EXP = 7"
definition PREC_TYPEOF :: int where "PREC_TYPEOF = 8"
definition PREC_DELETE :: int where "PREC_DELETE = 8"
definition PREC_VOID :: int where "PREC_VOID = 8"
definition PREC_NOT :: int where "PREC_NOT = 9"
definition PREC_NEG :: int where "PREC_NEG = 10"
definition PREC_INC :: int where "PREC_INC = 11"
definition PREC_CALL :: int where "PREC_CALL = 12"
definition PREC_NEW :: int where "PREC_NEW = 13"
definition PREC_MEMBER :: int where "PREC_MEMBER = 14"

section \<open>The rules of the grammar\<close>

text \<open>
  One definition for each entry of \<^verbatim>\<open>rules\<close>, in the order of the source and under the
  name of the source. A rule whose name starts with an underscore (a rule tree-sitter
  hides from the tree) has the prefix \<open>u_\<close> here, since an Isabelle name cannot start with
  an underscore. The rules \<^verbatim>\<open>constant\<close>, \<^verbatim>\<open>identifier\<close> and \<^verbatim>\<open>string\<close>, whose names Isabelle
  reserves, are \<open>constant_rule\<close>, \<open>identifier_rule\<close> and \<open>string_rule\<close>. Inside \<open>SYMBOL\<close> the
  name is always the one of the source.
\<close>

subsection \<open>Program, directives\<close>

definition source_file :: rule where
  "source_file = SEQ [REPEAT (SYMBOL ''_source_unit'')]"

definition u_source_unit :: rule where
  "u_source_unit = CHOICE [SYMBOL ''_directive'', SYMBOL ''_declaration'']"

definition u_directive :: rule where
  "u_directive = CHOICE [SYMBOL ''pragma_directive'', SYMBOL ''import_directive'']"

definition pragma_directive :: rule where
  "pragma_directive = SEQ [
     STRING ''pragma'',
     STRING ''solidity'',
     REPEAT (FIELD ''version_constraint'' (SYMBOL ''_pragma_version_constraint'')),
     SYMBOL ''_semicolon'']"

definition u_pragma_version_constraint :: rule where
  "u_pragma_version_constraint = SEQ [
     OPTIONAL (SYMBOL ''_solidity_version_comparison_operator''),
     SYMBOL ''_solidity_version'']"

text \<open>\<^verbatim>\<open>/\d+(.\d+(.\d+)?)?/\<close>\<close>

definition u_solidity_version :: rule where
  "u_solidity_version = PATTERN (cat [Plus (Chars esc_d),
     Maybe (cat [AnyChar, Plus (Chars esc_d), Maybe (cat [AnyChar, Plus (Chars esc_d)])])])"

definition u_solidity_version_comparison_operator :: rule where
  "u_solidity_version_comparison_operator = CHOICE [STRING ''<='', STRING ''<'',
     STRING ''^'', STRING ''>'', STRING ''>='', STRING ''~'', STRING ''='']"

definition import_directive :: rule where
  "import_directive = SEQ [
     STRING ''import'',
     CHOICE [
       SYMBOL ''_source_import'',
       SEQ [SYMBOL ''_import_clause'', SYMBOL ''_from_clause'']],
     SYMBOL ''_semicolon'']"

definition u_source_import :: rule where
  "u_source_import = SEQ [
     FIELD ''source'' (SYMBOL ''string''),
     OPTIONAL (SEQ [STRING ''as'', SYMBOL ''identifier''])]"

definition u_import_clause :: rule where
  "u_import_clause = CHOICE [SYMBOL ''_single_import'', SYMBOL ''_multiple_import'']"

definition u_from_clause :: rule where
  "u_from_clause = SEQ [STRING ''from'', FIELD ''source'' (SYMBOL ''string'')]"

definition u_single_import :: rule where
  "u_single_import = SEQ [
     STRING ''*'',
     OPTIONAL (SEQ [STRING ''as'', FIELD ''import_alias'' (SYMBOL ''identifier'')])]"

definition u_multiple_import :: rule where
  "u_multiple_import = SEQ [
     STRING ''{'',
     commaSep (SYMBOL ''_import_declaration''),
     STRING ''}'']"

definition u_import_declaration :: rule where
  "u_import_declaration = SEQ [
     FIELD ''import_origin'' (SYMBOL ''identifier''),
     OPTIONAL (SEQ [STRING ''as'', FIELD ''import_alias'' (SYMBOL ''identifier'')])]"

subsection \<open>Declarations\<close>

definition u_declaration :: rule where
  "u_declaration = CHOICE [
     SYMBOL ''contract_declaration'',
     SYMBOL ''interface_declaration'',
     SYMBOL ''library_declaration'',
     SYMBOL ''struct_declaration'',
     SYMBOL ''enum_declaration'',
     SYMBOL ''function_definition'']"

definition contract_declaration :: rule where
  "contract_declaration = SEQ [
     OPTIONAL (STRING ''abstract''),
     STRING ''contract'',
     FIELD ''name'' (SYMBOL ''identifier''),
     OPTIONAL (SYMBOL ''class_heritage''),
     FIELD ''body'' (SYMBOL ''contract_body'')]"

definition interface_declaration :: rule where
  "interface_declaration = SEQ [
     STRING ''interface'',
     FIELD ''name'' (SYMBOL ''identifier''),
     OPTIONAL (SYMBOL ''class_heritage''),
     FIELD ''body'' (SYMBOL ''contract_body'')]"

definition library_declaration :: rule where
  "library_declaration = SEQ [
     STRING ''library'',
     FIELD ''name'' (SYMBOL ''identifier''),
     FIELD ''body'' (SYMBOL ''contract_body'')]"

definition class_heritage :: rule where
  "class_heritage = SEQ [STRING ''is'', commaSep1 (SYMBOL ''_inheritance_specifier'')]"

definition u_inheritance_specifier :: rule where
  "u_inheritance_specifier = SEQ [
     FIELD ''ancestor'' (SYMBOL ''_user_defined_type''),
     OPTIONAL (FIELD ''ancestor_arguments'' (SYMBOL ''_call_arguments''))]"

definition contract_body :: rule where
  "contract_body = SEQ [
     STRING ''{'',
     REPEAT (CHOICE [
       SYMBOL ''function_definition'',
       SYMBOL ''modifier_definition'',
       SYMBOL ''state_variable_declaration'',
       SYMBOL ''struct_declaration'',
       SYMBOL ''enum_declaration'',
       SYMBOL ''event_definition'',
       SYMBOL ''using_directive'',
       SYMBOL ''constructor_definition'',
       SYMBOL ''fallback_receive_definition'']),
     STRING ''}'']"

definition struct_declaration :: rule where
  "struct_declaration = SEQ [
     STRING ''struct'',
     SYMBOL ''identifier'',
     STRING ''{'',
     REPEAT1 (SYMBOL ''struct_member''),
     STRING ''}'']"

definition struct_member :: rule where
  "struct_member = SEQ [SYMBOL ''type_name'', SYMBOL ''identifier'', SYMBOL ''_semicolon'']"

definition enum_declaration :: rule where
  "enum_declaration = SEQ [
     STRING ''enum'',
     FIELD ''enum_type_name'' (SYMBOL ''identifier''),
     STRING ''{'',
     commaSep (FIELD ''enum_value'' (SYMBOL ''identifier'')),
     STRING ''}'']"

definition event_definition :: rule where
  "event_definition = SEQ [
     STRING ''event'', FIELD ''name'' (SYMBOL ''identifier''), SYMBOL ''_event_parameter_list'',
     OPTIONAL (STRING ''anonymous''), SYMBOL ''_semicolon'']"

definition u_event_parameter_list :: rule where
  "u_event_parameter_list = SEQ [
     STRING ''('',
     commaSep (SEQ [
       FIELD ''type'' (SYMBOL ''type_name''),
       OPTIONAL (STRING ''indexed''),
       OPTIONAL (FIELD ''name'' (SYMBOL ''identifier''))]),
     STRING '')'']"

definition using_directive :: rule where
  "using_directive = SEQ [
     STRING ''using'',
     FIELD ''alias'' (SYMBOL ''_user_defined_type''),
     STRING ''for'',
     FIELD ''source'' (CHOICE [STRING ''*'', SYMBOL ''type_name'']),
     SYMBOL ''_semicolon'']"

subsection \<open>Statements\<close>

definition u_statement :: rule where
  "u_statement = CHOICE [
     SYMBOL ''block_statement'',
     SYMBOL ''expression_statement'',
     SYMBOL ''variable_declaration_statement'',
     SYMBOL ''if_statement'',
     SYMBOL ''for_statement'',
     SYMBOL ''while_statement'',
     SYMBOL ''do_while_statement'',
     SYMBOL ''continue_statement'',
     SYMBOL ''break_statement'',
     SYMBOL ''try_statement'',
     SYMBOL ''return_statement'',
     SYMBOL ''emit_statement'']"

definition assembly_statement :: rule where
  "assembly_statement = SEQ [
     STRING ''assembly'',
     OPTIONAL (STRING (dquote # ''evmasm'' @ [dquote])),
     STRING ''{'',
     STRING ''}'']"

definition block_statement :: rule where
  "block_statement = SEQ [STRING ''{'', REPEAT (SYMBOL ''_statement''), STRING ''}'']"

definition variable_declaration_statement :: rule where
  "variable_declaration_statement = SEQ [
     CHOICE [
       SEQ [SYMBOL ''variable_declaration'',
            OPTIONAL (SEQ [STRING ''='', SYMBOL ''_expression''])],
       SEQ [SYMBOL ''variable_declaration_tuple'', STRING ''='', SYMBOL ''_expression'']],
     SYMBOL ''_semicolon'']"

definition variable_declaration :: rule where
  "variable_declaration = SEQ [
     SYMBOL ''type_name'',
     OPTIONAL (CHOICE [STRING ''memory'', STRING ''storage'', STRING ''calldata'']),
     FIELD ''name'' (SYMBOL ''identifier'')]"

definition variable_declaration_tuple :: rule where
  "variable_declaration_tuple = SEQ [
     STRING ''('',
     commaSep (SYMBOL ''variable_declaration''),
     STRING '')'']"

definition expression_statement :: rule where
  "expression_statement = SEQ [SYMBOL ''_expression'', SYMBOL ''_semicolon'']"

definition if_statement :: rule where
  "if_statement = PREC_LEFT 0 (SEQ [
     STRING ''if'', STRING ''('', SYMBOL ''_expression'', STRING '')'', SYMBOL ''_statement'',
     OPTIONAL (SEQ [STRING ''else'', SYMBOL ''_statement''])])"

definition for_statement :: rule where
  "for_statement = SEQ [
     STRING ''for'', STRING ''('',
     CHOICE [SYMBOL ''variable_declaration_statement'', SYMBOL ''expression_statement'',
             SYMBOL ''_semicolon''],
     CHOICE [SYMBOL ''expression_statement'', SYMBOL ''_semicolon''],
     OPTIONAL (SYMBOL ''_expression''),
     STRING '')'', SYMBOL ''_statement'']"

definition while_statement :: rule where
  "while_statement = SEQ [
     STRING ''while'', STRING ''('', SYMBOL ''_expression'', STRING '')'', SYMBOL ''_statement'']"

definition do_while_statement :: rule where
  "do_while_statement = SEQ [
     STRING ''do'', SYMBOL ''_statement'', STRING ''while'', STRING ''('',
     SYMBOL ''_expression'', STRING '')'']"

definition continue_statement :: rule where
  "continue_statement = SEQ [STRING ''continue'', SYMBOL ''_semicolon'']"

definition break_statement :: rule where
  "break_statement = SEQ [STRING ''break'', SYMBOL ''_semicolon'']"

definition try_statement :: rule where
  "try_statement = SEQ [
     STRING ''try'', SYMBOL ''_expression'',
     OPTIONAL (SEQ [STRING ''returns'', SYMBOL ''_parameter_list'']),
     SYMBOL ''block_statement'', REPEAT1 (SYMBOL ''catch_clause'')]"

definition catch_clause :: rule where
  "catch_clause = SEQ [
     STRING ''catch'',
     OPTIONAL (SEQ [OPTIONAL (SYMBOL ''identifier''), SYMBOL ''_parameter_list'']),
     SYMBOL ''block_statement'']"

definition return_statement :: rule where
  "return_statement = SEQ [
     STRING ''return'', OPTIONAL (SYMBOL ''_expression''), SYMBOL ''_semicolon'']"

definition emit_statement :: rule where
  "emit_statement = SEQ [
     STRING ''emit'', SYMBOL ''_expression'', SYMBOL ''_call_arguments'', SYMBOL ''_semicolon'']"

subsection \<open>Definitions\<close>

definition state_variable_declaration :: rule where
  "state_variable_declaration = SEQ [
     FIELD ''type'' (SYMBOL ''type_name''),
     REPEAT (CHOICE [
       FIELD ''visibility'' (SYMBOL ''visibility''),
       SYMBOL ''constant'',
       SYMBOL ''override_specifier'',
       SYMBOL ''immutable'']),
     FIELD ''name'' (SYMBOL ''identifier''),
     OPTIONAL (SEQ [STRING ''='', FIELD ''value'' (SYMBOL ''_expression'')]),
     SYMBOL ''_semicolon'']"

definition constant_rule :: rule where
  "constant_rule = STRING ''constant''"

definition visibility :: rule where
  "visibility = CHOICE [STRING ''public'', STRING ''internal'', STRING ''private'',
     STRING ''external'']"

definition state_mutability :: rule where
  "state_mutability = CHOICE [STRING ''pure'', STRING ''view'', STRING ''payable'']"

definition immutable :: rule where
  "immutable = STRING ''immutable''"

definition u_override :: rule where
  "u_override = STRING ''override''"

definition override_specifier :: rule where
  "override_specifier = SEQ [
     STRING ''override'',
     OPTIONAL (SEQ [
       STRING ''('',
       commaSep1 (SYMBOL ''_user_defined_type''),
       STRING '')''])]"

definition modifier_definition :: rule where
  "modifier_definition = SEQ [
     STRING ''modifier'',
     FIELD ''name'' (SYMBOL ''identifier''),
     OPTIONAL (SYMBOL ''_parameter_list''),
     REPEAT (CHOICE [SYMBOL ''virtual'', SYMBOL ''override_specifier'']),
     CHOICE [SYMBOL ''_semicolon'', FIELD ''body'' (SYMBOL ''function_body'')]]"

definition constructor_definition :: rule where
  "constructor_definition = SEQ [
     STRING ''constructor'',
     SYMBOL ''_parameter_list'',
     REPEAT (CHOICE [
       SYMBOL ''modifier_invocation'',
       STRING ''payable'',
       CHOICE [STRING ''internal'', STRING ''public'']]),
     FIELD ''body'' (SYMBOL ''function_body'')]"

definition fallback_receive_definition :: rule where
  "fallback_receive_definition = SEQ [
     CHOICE [
       SEQ [OPTIONAL (STRING ''function''), CHOICE [STRING ''fallback'', STRING ''receive'']],
       STRING ''function''],
     STRING ''('', STRING '')'',
     REPEAT (CHOICE [
       SYMBOL ''visibility'',
       SYMBOL ''modifier_invocation'',
       SYMBOL ''state_mutability'',
       SYMBOL ''virtual'',
       SYMBOL ''override_specifier'']),
     CHOICE [SYMBOL ''_semicolon'', FIELD ''body'' (SYMBOL ''function_body'')]]"

definition function_definition :: rule where
  "function_definition = SEQ [
     STRING ''function'',
     FIELD ''function_name'' (SYMBOL ''identifier''),
     SYMBOL ''_parameter_list'',
     REPEAT (CHOICE [
       SYMBOL ''modifier_invocation'',
       SYMBOL ''visibility'',
       SYMBOL ''state_mutability'',
       SYMBOL ''virtual'',
       SYMBOL ''override_specifier'']),
     OPTIONAL (SEQ [STRING ''returns'', SYMBOL ''_parameter_list'']),
     CHOICE [SYMBOL ''_semicolon'', FIELD ''body'' (SYMBOL ''function_body'')]]"

definition virtual :: rule where
  "virtual = STRING ''virtual''"

definition modifier_invocation :: rule where
  "modifier_invocation = SEQ [SYMBOL ''identifier'', OPTIONAL (SYMBOL ''_call_arguments'')]"

text \<open>
  The inner \<^verbatim>\<open>commaSep($.identifier, ":", $._expression)\<close> passes three arguments to a
  function of one parameter; JavaScript drops the other two.
\<close>

definition u_call_arguments :: rule where
  "u_call_arguments = CHOICE [
     SEQ [
       STRING ''('',
       commaSep (CHOICE [
         SYMBOL ''_expression'',
         SEQ [STRING ''{'', commaSep (SYMBOL ''identifier''), STRING ''}'']]),
       STRING '')'']]"

definition function_body :: rule where
  "function_body = SEQ [STRING ''{'', REPEAT (SYMBOL ''_statement''), STRING ''}'']"

subsection \<open>Expressions\<close>

definition u_expression :: rule where
  "u_expression = CHOICE [
     SYMBOL ''binary_expression'',
     SYMBOL ''unary_expression'',
     SYMBOL ''update_expression'',
     SYMBOL ''call_expresion'',
     SYMBOL ''payable_conversion_expression'',
     SYMBOL ''meta_type_expression'',
     SYMBOL ''primary_expression'',
     SYMBOL ''struct_expression'',
     SYMBOL ''ternary_expression'',
     SYMBOL ''type_cast_expression'']"

definition primary_expression :: rule where
  "primary_expression = CHOICE [
     SYMBOL ''parenthesized_expression'',
     SYMBOL ''member_expression'',
     SYMBOL ''array_access'',
     SYMBOL ''slice_access'',
     SYMBOL ''_primitive_type'',
     SYMBOL ''assignment_expression'',
     SYMBOL ''augmented_assignment_expression'',
     SYMBOL ''_user_defined_type'',
     SYMBOL ''tuple_expression'',
     SYMBOL ''inline_array_expression'',
     SYMBOL ''identifier'',
     SYMBOL ''literal'',
     SYMBOL ''new_expression'']"

definition type_cast_expression :: rule where
  "type_cast_expression = PREC_LEFT 0 (SEQ [
     SYMBOL ''_primitive_type'', STRING ''('', SYMBOL ''_expression'', STRING '')''])"

definition ternary_expression :: rule where
  "ternary_expression = PREC_LEFT 0 (SEQ [
     SYMBOL ''_expression'', STRING ''?'', SYMBOL ''_expression'', STRING '':'',
     SYMBOL ''_expression''])"

definition new_expression :: rule where
  "new_expression = PREC_LEFT 0 (SEQ [STRING ''new'', SYMBOL ''type_name''])"

definition tuple_expression :: rule where
  "tuple_expression = PREC 1 (SEQ [
     STRING ''('',
     commaSep (SYMBOL ''_expression''),
     STRING '')''])"

definition inline_array_expression :: rule where
  "inline_array_expression = SEQ [
     STRING ''['',
     commaSep (SYMBOL ''_expression''),
     STRING '']'']"

text \<open>
  \<^verbatim>\<open>binary_expression\<close> maps a table of operators and precedences to the alternatives of
  a choice; the function it maps is \<open>binary_alternative\<close>.
\<close>

definition binary_operators :: "(string \<times> int) list" where
  "binary_operators = [
     (''&&'', PREC_AND),
     (''||'', PREC_OR),
     (''>>'', PREC_TIMES),
     (''>>>'', PREC_TIMES),
     (''<<'', PREC_TIMES),
     (''&'', PREC_AND),
     (''^'', PREC_OR),
     (''|'', PREC_OR),
     (''+'', PREC_PLUS),
     (''-'', PREC_PLUS),
     (''*'', PREC_TIMES),
     (''/'', PREC_TIMES),
     (''%'', PREC_TIMES),
     (''**'', PREC_EXP),
     (''<'', PREC_REL),
     (''<='', PREC_REL),
     (''=='', PREC_REL),
     (''!='', PREC_REL),
     (''!=='', PREC_REL),
     (''>='', PREC_REL),
     (''>'', PREC_REL)]"

definition binary_alternative :: "string \<times> int \<Rightarrow> rule" where
  "binary_alternative = (\<lambda>(operator, precedence).
     PREC_LEFT precedence (SEQ [
       FIELD ''left'' (SYMBOL ''_expression''),
       FIELD ''operator'' (STRING operator),
       FIELD ''right'' (SYMBOL ''_expression'')]))"

definition binary_expression :: rule where
  "binary_expression = CHOICE (map binary_alternative binary_operators)"

definition unary_operators :: "(string \<times> int) list" where
  "unary_operators = [
     (''!'', PREC_NOT),
     (''~'', PREC_NOT),
     (''-'', PREC_NEG),
     (''+'', PREC_NEG),
     (''delete'', PREC_DELETE)]"

definition unary_alternative :: "string \<times> int \<Rightarrow> rule" where
  "unary_alternative = (\<lambda>(operator, precedence).
     PREC_LEFT precedence (SEQ [
       FIELD ''operator'' (STRING operator),
       FIELD ''argument'' (SYMBOL ''_expression'')]))"

definition unary_expression :: rule where
  "unary_expression = CHOICE (map unary_alternative unary_operators)"

definition update_expression :: rule where
  "update_expression = PREC_LEFT PREC_INC (CHOICE [
     SEQ [
       FIELD ''argument'' (SYMBOL ''_expression''),
       FIELD ''operator'' (CHOICE [STRING ''++'', STRING ''--''])],
     SEQ [
       FIELD ''operator'' (CHOICE [STRING ''++'', STRING ''--'']),
       FIELD ''argument'' (SYMBOL ''_expression'')]])"

definition member_expression :: rule where
  "member_expression = PREC PREC_MEMBER (SEQ [
     FIELD ''object'' (CHOICE [SYMBOL ''_expression'', SYMBOL ''identifier'']),
     STRING ''.'',
     FIELD ''property'' (ALIAS (SYMBOL ''identifier'') ''property_identifier'')])"

definition array_access :: rule where
  "array_access = PREC_RIGHT 14 (SEQ [
     FIELD ''base'' (SYMBOL ''_expression''),
     STRING ''['',
     FIELD ''index'' (SYMBOL ''_expression''),
     STRING '']''])"

definition slice_access :: rule where
  "slice_access = PREC PREC_MEMBER (SEQ [
     FIELD ''base'' (SYMBOL ''_expression''),
     STRING ''['',
     FIELD ''from'' (SYMBOL ''_expression''),
     STRING '':'',
     FIELD ''to'' (SYMBOL ''_expression''),
     STRING '']''])"

definition struct_expression :: rule where
  "struct_expression = SEQ [
     SYMBOL ''_expression'',
     STRING ''{'',
     commaSep (SEQ [SYMBOL ''identifier'', STRING '':'', SYMBOL ''_expression'']),
     STRING ''}'']"

definition u_lhs_expression :: rule where
  "u_lhs_expression = CHOICE [
     SYMBOL ''member_expression'',
     SYMBOL ''tuple_expression'',
     SYMBOL ''array_access'',
     SYMBOL ''identifier'']"

definition parenthesized_expression :: rule where
  "parenthesized_expression = PREC 2 (SEQ [STRING ''('', SYMBOL ''_expression'', STRING '')''])"

definition assignment_expression :: rule where
  "assignment_expression = PREC_RIGHT PREC_ASSIGN (SEQ [
     FIELD ''left'' (CHOICE [SYMBOL ''parenthesized_expression'', SYMBOL ''_lhs_expression'']),
     STRING ''='',
     FIELD ''right'' (SYMBOL ''_expression'')])"

definition augmented_assignment_expression :: rule where
  "augmented_assignment_expression = PREC_RIGHT PREC_ASSIGN (SEQ [
     FIELD ''left'' (SYMBOL ''_lhs_expression''),
     CHOICE [STRING ''+='', STRING ''-='', STRING ''*='', STRING ''/='', STRING ''%='',
             STRING ''^='', STRING ''&='', STRING ''|='', STRING ''>>='', STRING ''>>>='',
             STRING ''<<=''],
     FIELD ''right'' (SYMBOL ''_expression'')])"

definition call_expresion :: rule where
  "call_expresion = CHOICE [SEQ [SYMBOL ''identifier'', SYMBOL ''_call_arguments'']]"

definition payable_conversion_expression :: rule where
  "payable_conversion_expression = SEQ [STRING ''payable'', SYMBOL ''_call_arguments'']"

definition meta_type_expression :: rule where
  "meta_type_expression = SEQ [
     STRING ''type'', STRING ''('', SYMBOL ''type_name'', STRING '')'']"

subsection \<open>Type names\<close>

definition type_name :: rule where
  "type_name = PREC 0 (CHOICE [
     SYMBOL ''_primitive_type'',
     SYMBOL ''_user_defined_type'',
     SYMBOL ''_mapping'',
     SYMBOL ''_array_type'',
     SYMBOL ''_function_type''])"

definition u_array_type :: rule where
  "u_array_type = SEQ [
     SYMBOL ''type_name'', STRING ''['', OPTIONAL (SYMBOL ''_expression''), STRING '']'']"

definition u_function_type :: rule where
  "u_function_type = PREC_RIGHT 0 (SEQ [
     STRING ''function'', SYMBOL ''_parameter_list'', OPTIONAL (SYMBOL ''_return_parameters'')])"

definition u_parameter_list :: rule where
  "u_parameter_list = SEQ [STRING ''('', commaSep (SYMBOL ''_parameter''), STRING '')'']"

definition u_return_parameters :: rule where
  "u_return_parameters = SEQ [
     STRING ''('', commaSep1 (SYMBOL ''_nameless_parameter''), STRING '')'']"

definition u_nameless_parameter :: rule where
  "u_nameless_parameter = SEQ [
     SYMBOL ''type_name'',
     OPTIONAL (SYMBOL ''_storage_location'')]"

definition u_parameter :: rule where
  "u_parameter = SEQ [
     FIELD ''type'' (SYMBOL ''type_name''),
     OPTIONAL (FIELD ''storage_location'' (SYMBOL ''_storage_location'')),
     OPTIONAL (FIELD ''name'' (SYMBOL ''identifier''))]"

definition u_storage_location :: rule where
  "u_storage_location = CHOICE [STRING ''memory'', STRING ''storage'', STRING ''calldata'']"

definition u_user_defined_type :: rule where
  "u_user_defined_type = PREC_LEFT PREC_USER_TYPE (SEQ [
     SYMBOL ''identifier'',
     REPEAT (SEQ [STRING ''.'', SYMBOL ''identifier''])])"

definition u_mapping :: rule where
  "u_mapping = SEQ [
     STRING ''mapping'', STRING ''('', SYMBOL ''_mapping_key'', STRING ''=>'',
     SYMBOL ''type_name'', STRING '')'']"

definition u_mapping_key :: rule where
  "u_mapping_key = CHOICE [SYMBOL ''_primitive_type'', SYMBOL ''_user_defined_type'']"

definition u_primitive_type :: rule where
  "u_primitive_type = PREC_LEFT 0 (CHOICE [
     SEQ [STRING ''address'', OPTIONAL (STRING ''payable'')],
     STRING ''bool'',
     STRING ''string'',
     STRING ''var'',
     SYMBOL ''_int'',
     SYMBOL ''_uint'',
     SYMBOL ''_bytes'',
     SYMBOL ''_fixed'',
     SYMBOL ''_ufixed''])"

definition u_int :: rule where
  "u_int = CHOICE (map STRING
    [''int'', ''int8'', ''int16'', ''int24'', ''int32'', ''int40'', ''int48'', ''int56'',
     ''int64'', ''int72'', ''int80'', ''int88'', ''int96'', ''int104'', ''int112'',
     ''int120'', ''int128'', ''int136'', ''int144'', ''int152'', ''int160'', ''int168'',
     ''int176'', ''int184'', ''int192'', ''int200'', ''int208'', ''int216'', ''int224'',
     ''int232'', ''int240'', ''int248'', ''int256''])"

definition u_uint :: rule where
  "u_uint = CHOICE (map STRING
    [''uint'', ''uint8'', ''uint16'', ''uint24'', ''uint32'', ''uint40'', ''uint48'',
     ''uint56'', ''uint64'', ''uint72'', ''uint80'', ''uint88'', ''uint96'', ''uint104'',
     ''uint112'', ''uint120'', ''uint128'', ''uint136'', ''uint144'', ''uint152'',
     ''uint160'', ''uint168'', ''uint176'', ''uint184'', ''uint192'', ''uint200'',
     ''uint208'', ''uint216'', ''uint224'', ''uint232'', ''uint240'', ''uint248'',
     ''uint256''])"

definition u_bytes :: rule where
  "u_bytes = CHOICE (map STRING
    [''byte'', ''bytes'', ''bytes1'', ''bytes2'', ''bytes3'', ''bytes4'', ''bytes5'',
     ''bytes6'', ''bytes7'', ''bytes8'', ''bytes9'', ''bytes10'', ''bytes11'', ''bytes12'',
     ''bytes13'', ''bytes14'', ''bytes15'', ''bytes16'', ''bytes17'', ''bytes18'',
     ''bytes19'', ''bytes20'', ''bytes21'', ''bytes22'', ''bytes23'', ''bytes24'',
     ''bytes25'', ''bytes26'', ''bytes27'', ''bytes28'', ''bytes29'', ''bytes30'',
     ''bytes31'', ''bytes32''])"

text \<open>\<^verbatim>\<open>/fixed([0-9]+)x([0-9]+)/\<close> and \<^verbatim>\<open>/ufixed([0-9]+)x([0-9]+)/\<close>\<close>

definition u_fixed :: rule where
  "u_fixed = CHOICE [
     STRING ''fixed'',
     PATTERN (cat [lit ''fixed'', Plus (Chars [rng CHR ''0'' CHR ''9'']), lit ''x'',
                   Plus (Chars [rng CHR ''0'' CHR ''9''])])]"

definition u_ufixed :: rule where
  "u_ufixed = CHOICE [
     STRING ''ufixed'',
     PATTERN (cat [lit ''ufixed'', Plus (Chars [rng CHR ''0'' CHR ''9'']), lit ''x'',
                   Plus (Chars [rng CHR ''0'' CHR ''9''])])]"

subsection \<open>Tokens and literals\<close>

definition u_semicolon :: rule where
  "u_semicolon = STRING '';''"

text \<open>\<^verbatim>\<open>/[a-zA-Z$_][a-zA-Z0-9$_]*/\<close>\<close>

definition identifier_rule :: rule where
  "identifier_rule = PATTERN (cat [
     Chars [rng CHR ''a'' CHR ''z'', rng CHR ''A'' CHR ''Z'', just CHR ''$'', just CHR ''_''],
     Star (Chars [rng CHR ''a'' CHR ''z'', rng CHR ''A'' CHR ''Z'', rng CHR ''0'' CHR ''9'',
                  just CHR ''$'', just CHR ''_''])])"

text \<open>\<^verbatim>\<open>/\d+/\<close>\<close>

definition number :: rule where
  "number = PATTERN (Plus (Chars esc_d))"

definition literal :: rule where
  "literal = CHOICE [
     SYMBOL ''string_literal'',
     SYMBOL ''number_literal'',
     SYMBOL ''boolean_literal'',
     SYMBOL ''hex_string_literal'',
     SYMBOL ''unicode_string_literal'']"

definition string_literal :: rule where
  "string_literal = PREC_LEFT 0 (REPEAT1 (SYMBOL ''string''))"

definition number_literal :: rule where
  "number_literal = SEQ [
     CHOICE [SYMBOL ''decimal_number'', SYMBOL ''hex_number''],
     OPTIONAL (SYMBOL ''number_unit'')]"

text \<open>\<^verbatim>\<open>/\d+(.\d+)?/\<close> and \<^verbatim>\<open>/[eE](-)?d+/\<close>\<close>

definition decimal_number :: rule where
  "decimal_number = SEQ [
     PATTERN (cat [Plus (Chars esc_d), Maybe (cat [AnyChar, Plus (Chars esc_d)])]),
     OPTIONAL (PATTERN (cat [Chars [just CHR ''e'', just CHR ''E''], Maybe (lit ''-''),
                             Plus (lit ''d'')]))]"

definition hex_number :: rule where
  "hex_number = SEQ [
     STRING ''0x'', OPTIONAL (optionalDashSeparation (SYMBOL ''_hex_digit''))]"

text \<open>\<^verbatim>\<open>/([a-fA-F0-9][a-fA-F0-9])/\<close>\<close>

definition u_hex_digit :: rule where
  "u_hex_digit = PATTERN (cat [
     Chars [rng CHR ''a'' CHR ''f'', rng CHR ''A'' CHR ''F'', rng CHR ''0'' CHR ''9''],
     Chars [rng CHR ''a'' CHR ''f'', rng CHR ''A'' CHR ''F'', rng CHR ''0'' CHR ''9'']])"

definition number_unit :: rule where
  "number_unit = CHOICE (map STRING
    [''wei'', ''szabo'', ''finney'', ''gwei'', ''ether'', ''seconds'', ''minutes'', ''hours'',
     ''days'', ''weeks'', ''years''])"

definition boolean_literal :: rule where
  "boolean_literal = CHOICE [STRING ''true'', STRING ''false'']"

definition hex_string_literal :: rule where
  "hex_string_literal = PREC_LEFT 0 (REPEAT1 (SEQ [
     STRING ''hex'',
     CHOICE [
       SEQ [STRING [dquote], OPTIONAL (optionalDashSeparation (SYMBOL ''_hex_digit'')),
            STRING [dquote]],
       SEQ [STRING [squote], OPTIONAL (optionalDashSeparation (SYMBOL ''_hex_digit'')),
            STRING [squote]]]]))"

text \<open>
  \<^verbatim>\<open>/"'\\bfnrtv\n\r/\<close> (a sequence of eleven characters, not a class),
  \<^verbatim>\<open>/u([a-fA-F0-9]{4})/\<close> and \<^verbatim>\<open>/x([a-fA-F0-9]{2})/\<close>
\<close>

definition u_escape_sequence :: rule where
  "u_escape_sequence = SEQ [STRING [backslash], CHOICE [
     PATTERN (cat [lit [dquote], lit [squote], lit [backslash], lit ''bfnrtv'',
                   Chars [(10, 10)], Chars [(13, 13)]]),
     PATTERN (cat [lit ''u'', Times 4 4 (Chars [rng CHR ''a'' CHR ''f'', rng CHR ''A'' CHR ''F'',
                                                rng CHR ''0'' CHR ''9''])]),
     PATTERN (cat [lit ''x'', Times 2 2 (Chars [rng CHR ''a'' CHR ''f'', rng CHR ''A'' CHR ''F'',
                                                rng CHR ''0'' CHR ''9''])])]]"

text \<open>\<^verbatim>\<open>/[^'\r\n\\]/\<close> and \<^verbatim>\<open>/[^"\r\n\\]/\<close>\<close>

definition u_single_quoted_unicode_char :: rule where
  "u_single_quoted_unicode_char = CHOICE [
     PATTERN (NotChars [just squote, (13, 13), (10, 10), just backslash]),
     SYMBOL ''_escape_sequence'']"

definition u_double_quoted_unicode_char :: rule where
  "u_double_quoted_unicode_char = CHOICE [
     PATTERN (NotChars [just dquote, (13, 13), (10, 10), just backslash]),
     SYMBOL ''_escape_sequence'']"

definition unicode_string_literal :: rule where
  "unicode_string_literal = PREC_LEFT 0 (REPEAT1 (SEQ [
     STRING ''unicode'',
     CHOICE [
       SEQ [STRING [dquote], REPEAT (SYMBOL ''_double_quoted_unicode_char''), STRING [dquote]],
       SEQ [STRING [squote], REPEAT (SYMBOL ''_single_quoted_unicode_char''),
            STRING [squote]]]]))"

text \<open>\<^verbatim>\<open>/[^"\\\n]+|\\\r?\n/\<close> and \<^verbatim>\<open>/[^'\\\n]+|\\\r?\n/\<close>\<close>

definition string_rule :: rule where
  "string_rule = CHOICE [
     SEQ [
       STRING [dquote],
       REPEAT (CHOICE [
         IMMEDIATE_TOKEN (PREC PREC_STRING (PATTERN (Or
           (Plus (NotChars [just dquote, just backslash, (10, 10)]))
           (cat [lit [backslash], Maybe (Chars [(13, 13)]), Chars [(10, 10)]])))),
         SYMBOL ''escape_sequence'']),
       STRING [dquote]],
     SEQ [
       STRING [squote],
       REPEAT (CHOICE [
         IMMEDIATE_TOKEN (PREC PREC_STRING (PATTERN (Or
           (Plus (NotChars [just squote, just backslash, (10, 10)]))
           (cat [lit [backslash], Maybe (Chars [(13, 13)]), Chars [(10, 10)]])))),
         SYMBOL ''escape_sequence'']),
       STRING [squote]]]"

text \<open>
  \<^verbatim>\<open>/[^xu0-7]/\<close>, \<^verbatim>\<open>/[0-7]{1,3}/\<close>, \<^verbatim>\<open>/x[0-9a-fA-F]{2}/\<close>, \<^verbatim>\<open>/u[0-9a-fA-F]{4}/\<close> and
  \<^verbatim>\<open>/u{[0-9a-fA-F]+}/\<close>
\<close>

definition escape_sequence :: rule where
  "escape_sequence = IMMEDIATE_TOKEN (SEQ [
     STRING [backslash],
     CHOICE [
       PATTERN (NotChars [just CHR ''x'', just CHR ''u'', rng CHR ''0'' CHR ''7'']),
       PATTERN (Times 1 3 (Chars [rng CHR ''0'' CHR ''7''])),
       PATTERN (cat [lit ''x'', Times 2 2 (Chars [rng CHR ''0'' CHR ''9'', rng CHR ''a'' CHR ''f'',
                                                  rng CHR ''A'' CHR ''F''])]),
       PATTERN (cat [lit ''u'', Times 4 4 (Chars [rng CHR ''0'' CHR ''9'', rng CHR ''a'' CHR ''f'',
                                                  rng CHR ''A'' CHR ''F''])]),
       PATTERN (cat [lit ''u{'', Plus (Chars [rng CHR ''0'' CHR ''9'', rng CHR ''a'' CHR ''f'',
                                              rng CHR ''A'' CHR ''F'']), lit ''}''])]])"

text \<open>Both forms of comment end in \<^verbatim>\<open>/.*/\<close>, the second followed by \<^verbatim>\<open>'*/'\<close>.\<close>

definition comment :: rule where
  "comment = TOKEN (PREC PREC_COMMENT (CHOICE [
     SEQ [STRING ''//'', PATTERN (Star AnyChar)],
     SEQ [STRING ''/*'', PATTERN (Star AnyChar), STRING ''*/'']]))"

section \<open>The grammar\<close>

text \<open>
  The entries \<^verbatim>\<open>extras\<close>, \<^verbatim>\<open>word\<close>, \<^verbatim>\<open>conflicts\<close> and \<^verbatim>\<open>rules\<close> of the grammar. The
  pattern of the second extra is \<^verbatim>\<open>/[\s\uFEFF\u2060\u200B\u00A0]/\<close>; \<open>rules\<close> is the object
  of the source as an association list, in the order of the source.
\<close>

definition extras :: "rule list" where
  "extras = [
     SYMBOL ''comment'',
     PATTERN (Chars (esc_s @ [(0xFEFF, 0xFEFF), (0x2060, 0x2060), (0x200B, 0x200B),
                              (0x00A0, 0x00A0)]))]"

definition word :: rule where
  "word = SYMBOL ''identifier''"

definition conflicts :: "string list list" where
  "conflicts = [
     [''primary_expression'', ''type_name''],
     [''_parameter_list'', ''fallback_receive_definition''],
     [''primary_expression'', ''type_cast_expression'']]"

definition rules :: "(string \<times> rule) list" where
  "rules = [
     (''source_file'', source_file),
     (''_source_unit'', u_source_unit),
     (''_directive'', u_directive),
     (''pragma_directive'', pragma_directive),
     (''_pragma_version_constraint'', u_pragma_version_constraint),
     (''_solidity_version'', u_solidity_version),
     (''_solidity_version_comparison_operator'', u_solidity_version_comparison_operator),
     (''import_directive'', import_directive),
     (''_source_import'', u_source_import),
     (''_import_clause'', u_import_clause),
     (''_from_clause'', u_from_clause),
     (''_single_import'', u_single_import),
     (''_multiple_import'', u_multiple_import),
     (''_import_declaration'', u_import_declaration),
     (''_declaration'', u_declaration),
     (''contract_declaration'', contract_declaration),
     (''interface_declaration'', interface_declaration),
     (''library_declaration'', library_declaration),
     (''class_heritage'', class_heritage),
     (''_inheritance_specifier'', u_inheritance_specifier),
     (''contract_body'', contract_body),
     (''struct_declaration'', struct_declaration),
     (''struct_member'', struct_member),
     (''enum_declaration'', enum_declaration),
     (''event_definition'', event_definition),
     (''_event_parameter_list'', u_event_parameter_list),
     (''using_directive'', using_directive),
     (''_statement'', u_statement),
     (''assembly_statement'', assembly_statement),
     (''block_statement'', block_statement),
     (''variable_declaration_statement'', variable_declaration_statement),
     (''variable_declaration'', variable_declaration),
     (''variable_declaration_tuple'', variable_declaration_tuple),
     (''expression_statement'', expression_statement),
     (''if_statement'', if_statement),
     (''for_statement'', for_statement),
     (''while_statement'', while_statement),
     (''do_while_statement'', do_while_statement),
     (''continue_statement'', continue_statement),
     (''break_statement'', break_statement),
     (''try_statement'', try_statement),
     (''catch_clause'', catch_clause),
     (''return_statement'', return_statement),
     (''emit_statement'', emit_statement),
     (''state_variable_declaration'', state_variable_declaration),
     (''constant'', constant_rule),
     (''visibility'', visibility),
     (''state_mutability'', state_mutability),
     (''immutable'', immutable),
     (''_override'', u_override),
     (''override_specifier'', override_specifier),
     (''modifier_definition'', modifier_definition),
     (''constructor_definition'', constructor_definition),
     (''fallback_receive_definition'', fallback_receive_definition),
     (''function_definition'', function_definition),
     (''virtual'', virtual),
     (''modifier_invocation'', modifier_invocation),
     (''_call_arguments'', u_call_arguments),
     (''function_body'', function_body),
     (''_expression'', u_expression),
     (''primary_expression'', primary_expression),
     (''type_cast_expression'', type_cast_expression),
     (''ternary_expression'', ternary_expression),
     (''new_expression'', new_expression),
     (''tuple_expression'', tuple_expression),
     (''inline_array_expression'', inline_array_expression),
     (''binary_expression'', binary_expression),
     (''unary_expression'', unary_expression),
     (''update_expression'', update_expression),
     (''member_expression'', member_expression),
     (''array_access'', array_access),
     (''slice_access'', slice_access),
     (''struct_expression'', struct_expression),
     (''_lhs_expression'', u_lhs_expression),
     (''parenthesized_expression'', parenthesized_expression),
     (''assignment_expression'', assignment_expression),
     (''augmented_assignment_expression'', augmented_assignment_expression),
     (''call_expresion'', call_expresion),
     (''payable_conversion_expression'', payable_conversion_expression),
     (''meta_type_expression'', meta_type_expression),
     (''type_name'', type_name),
     (''_array_type'', u_array_type),
     (''_function_type'', u_function_type),
     (''_parameter_list'', u_parameter_list),
     (''_return_parameters'', u_return_parameters),
     (''_nameless_parameter'', u_nameless_parameter),
     (''_parameter'', u_parameter),
     (''_storage_location'', u_storage_location),
     (''_user_defined_type'', u_user_defined_type),
     (''_mapping'', u_mapping),
     (''_mapping_key'', u_mapping_key),
     (''_primitive_type'', u_primitive_type),
     (''_int'', u_int),
     (''_uint'', u_uint),
     (''_bytes'', u_bytes),
     (''_fixed'', u_fixed),
     (''_ufixed'', u_ufixed),
     (''_semicolon'', u_semicolon),
     (''identifier'', identifier_rule),
     (''number'', number),
     (''literal'', literal),
     (''string_literal'', string_literal),
     (''number_literal'', number_literal),
     (''decimal_number'', decimal_number),
     (''hex_number'', hex_number),
     (''_hex_digit'', u_hex_digit),
     (''number_unit'', number_unit),
     (''boolean_literal'', boolean_literal),
     (''hex_string_literal'', hex_string_literal),
     (''_escape_sequence'', u_escape_sequence),
     (''_single_quoted_unicode_char'', u_single_quoted_unicode_char),
     (''_double_quoted_unicode_char'', u_double_quoted_unicode_char),
     (''unicode_string_literal'', unicode_string_literal),
     (''string'', string_rule),
     (''escape_sequence'', escape_sequence),
     (''comment'', comment)]"

section \<open>Derivation trees\<close>

text \<open>
  The meaning of the grammar is the set of its derivation trees. A derivation tree records
  how a rule was matched, one constructor for each way a rule can match:
  \<^item> \<open>Tok w\<close>: a terminal (a string, a pattern or a token rule) matched the lexeme \<open>w\<close>;
  \<^item> \<open>Items ts\<close>: a \<open>SEQ\<close> matched its members in order;
  \<^item> \<open>Alt i t\<close>: a \<open>CHOICE\<close> took its member number \<open>i\<close> (from 0);
  \<^item> \<open>Rep ts\<close>: a \<open>REPEAT\<close> or \<open>REPEAT1\<close> matched its body once for each element;
  \<^item> \<open>Opt None\<close>, \<open>Opt (Some t)\<close>: an \<open>OPTIONAL\<close> was skipped, or taken;
  \<^item> \<open>Sym n t\<close>: the rule named \<open>n\<close> matched, by \<open>t\<close>: a node of the syntax tree when the
    name is visible;
  \<^item> \<open>Prec p a t\<close>, \<open>Fld f t\<close>, \<open>Als n t\<close>: the precedence and associativity, the field name
    and the alias that the rule attaches to \<open>t\<close>.

  The input of a derivation is the list of the lexemes of the tokens, in order, without
  the extras between them. Since tree-sitter lexes by context, a word that is a keyword in
  one place is an identifier wherever the grammar asks for one.
\<close>

datatype assoc = LeftAssoc | RightAssoc | NoAssoc

datatype dtree =
    Tok lexeme
  | Items "dtree list"
  | Alt nat dtree
  | Rep "dtree list"
  | Opt "dtree option"
  | Sym string dtree
  | Prec int assoc dtree
  | Fld string dtree
  | Als string dtree

text \<open>
  A token rule (the argument of \<^verbatim>\<open>token\<close> or \<^verbatim>\<open>token.immediate\<close>) matches one lexeme,
  character by character: it is read as a regular expression.
\<close>

fun token_regex :: "rule \<Rightarrow> regex" where
  "token_regex (SYMBOL n) = Never"
| "token_regex (STRING s) = lit s"
| "token_regex (PATTERN p) = p"
| "token_regex (SEQ rs) = cat (map token_regex rs)"
| "token_regex (CHOICE rs) = foldr Or (map token_regex rs) Never"
| "token_regex (REPEAT r) = Star (token_regex r)"
| "token_regex (REPEAT1 r) = Plus (token_regex r)"
| "token_regex (OPTIONAL r) = Maybe (token_regex r)"
| "token_regex (PREC p r) = token_regex r"
| "token_regex (PREC_LEFT p r) = token_regex r"
| "token_regex (PREC_RIGHT p r) = token_regex r"
| "token_regex (FIELD f r) = token_regex r"
| "token_regex (ALIAS r n) = token_regex r"
| "token_regex (TOKEN r) = token_regex r"
| "token_regex (IMMEDIATE_TOKEN r) = token_regex r"

text \<open>\<^verbatim>\<open>$.name\<close> is the rule that the object \<^verbatim>\<open>rules\<close> holds under that name.\<close>

fun lookup :: "(string \<times> rule) list \<Rightarrow> string \<Rightarrow> rule option" where
  "lookup [] k = None"
| "lookup ((k', v) # ps) k = (if k' = k then Some v else lookup ps k)"

text \<open>\<open>conforms r t\<close>: the tree \<open>t\<close> is a derivation of the rule \<open>r\<close>.\<close>

fun conforms :: "rule \<Rightarrow> dtree \<Rightarrow> bool"
  and conforms_seq :: "rule list \<Rightarrow> dtree list \<Rightarrow> bool"
  and conforms_rep :: "rule \<Rightarrow> dtree list \<Rightarrow> bool" where
  "conforms r (Tok w) = (case r of
       STRING s \<Rightarrow> w = s
     | PATTERN p \<Rightarrow> re_match p w
     | TOKEN r' \<Rightarrow> re_match (token_regex r') w
     | IMMEDIATE_TOKEN r' \<Rightarrow> re_match (token_regex r') w
     | _ \<Rightarrow> False)"
| "conforms r (Items ts) = (case r of SEQ rs \<Rightarrow> conforms_seq rs ts | _ \<Rightarrow> False)"
| "conforms r (Alt i t) =
     (case r of CHOICE rs \<Rightarrow> i < length rs \<and> conforms (rs ! i) t | _ \<Rightarrow> False)"
| "conforms r (Rep ts) = (case r of
       REPEAT r' \<Rightarrow> conforms_rep r' ts
     | REPEAT1 r' \<Rightarrow> ts \<noteq> [] \<and> conforms_rep r' ts
     | _ \<Rightarrow> False)"
| "conforms r (Opt None) = (case r of OPTIONAL r' \<Rightarrow> True | _ \<Rightarrow> False)"
| "conforms r (Opt (Some t)) = (case r of OPTIONAL r' \<Rightarrow> conforms r' t | _ \<Rightarrow> False)"
| "conforms r (Sym m t) = (case r of
       SYMBOL n \<Rightarrow>
         m = n \<and> (case lookup rules n of Some r' \<Rightarrow> conforms r' t | None \<Rightarrow> False)
     | _ \<Rightarrow> False)"
| "conforms r (Prec q a t) = (case r of
       PREC p r' \<Rightarrow> q = p \<and> a = NoAssoc \<and> conforms r' t
     | PREC_LEFT p r' \<Rightarrow> q = p \<and> a = LeftAssoc \<and> conforms r' t
     | PREC_RIGHT p r' \<Rightarrow> q = p \<and> a = RightAssoc \<and> conforms r' t
     | _ \<Rightarrow> False)"
| "conforms r (Fld g t) = (case r of FIELD f r' \<Rightarrow> g = f \<and> conforms r' t | _ \<Rightarrow> False)"
| "conforms r (Als m t) = (case r of ALIAS r' n \<Rightarrow> m = n \<and> conforms r' t | _ \<Rightarrow> False)"
| "conforms_seq rs [] = (rs = [])"
| "conforms_seq rs (t # ts) =
     (case rs of [] \<Rightarrow> False | r # rs' \<Rightarrow> conforms r t \<and> conforms_seq rs' ts)"
| "conforms_rep r [] = True"
| "conforms_rep r (t # ts) = (conforms r t \<and> conforms_rep r ts)"

text \<open>The lexemes at the leaves of a tree, from left to right.\<close>

fun yield :: "dtree \<Rightarrow> lexeme list" where
  "yield (Tok w) = [w]"
| "yield (Items ts) = concat (map yield ts)"
| "yield (Alt i t) = yield t"
| "yield (Rep ts) = concat (map yield ts)"
| "yield (Opt None) = []"
| "yield (Opt (Some t)) = yield t"
| "yield (Sym n t) = yield t"
| "yield (Prec p a t) = yield t"
| "yield (Fld f t) = yield t"
| "yield (Als n t) = yield t"

subsection \<open>Precedence and associativity\<close>

text \<open>
  The grammar is ambiguous, and its \<^verbatim>\<open>prec\<close> annotations say which derivations the
  generated parser builds. The case that matters for operators: the parser has read an
  operand that completes a rule \<open>Q\<close> (such as \<^verbatim>\<open>a ** b\<close>), and the next token continues the
  operand by a rule \<open>P\<close> that begins with an operand (such as \<^verbatim>\<open>b ** c\<close>). It can finish
  \<open>Q\<close> first, which makes \<open>Q\<close> the first operand of \<open>P\<close>, or go on with \<open>P\<close>, which makes \<open>P\<close>
  the last operand of \<open>Q\<close>. Tree-sitter compares the precedences of the two rules and takes
  the one with the higher precedence; when they are equal it looks at the associativity of
  the rule it could finish: \<^verbatim>\<open>prec.left\<close> finishes it (the rule that ends earlier wins),
  \<^verbatim>\<open>prec.right\<close> goes on.

  \<open>steps t\<close> are the terminals and the named parts a rule was matched by (its right-hand
  side once choices, options and repetitions are resolved); \<open>prec_of t\<close> is the precedence
  and the associativity of the alternative taken; \<open>core t\<close> skips the rules that only
  stand for another rule (\<^verbatim>\<open>_expression\<close>, \<^verbatim>\<open>primary_expression\<close>).
\<close>

fun steps :: "dtree \<Rightarrow> dtree list" where
  "steps (Tok w) = [Tok w]"
| "steps (Items ts) = concat (map steps ts)"
| "steps (Alt i t) = steps t"
| "steps (Rep ts) = concat (map steps ts)"
| "steps (Opt None) = []"
| "steps (Opt (Some t)) = steps t"
| "steps (Sym n t) = [Sym n t]"
| "steps (Prec p a t) = steps t"
| "steps (Fld f t) = steps t"
| "steps (Als n t) = steps t"

fun prec_of :: "dtree \<Rightarrow> int \<times> assoc" where
  "prec_of (Prec p a t) = (p, a)"
| "prec_of (Alt i t) = prec_of t"
| "prec_of (Fld f t) = prec_of t"
| "prec_of (Als n t) = prec_of t"
| "prec_of t = (0, NoAssoc)"

fun core :: "dtree \<Rightarrow> dtree" where
  "core (Sym n t) = (case core t of Sym m u \<Rightarrow> Sym m u | _ \<Rightarrow> Sym n t)"
| "core (Alt i t) = core t"
| "core (Prec p a t) = core t"
| "core (Fld f t) = core t"
| "core (Als n t) = core t"
| "core t = t"

fun body :: "dtree \<Rightarrow> dtree" where
  "body (Sym n t) = t"
| "body t = t"

fun named :: "string \<Rightarrow> dtree \<Rightarrow> bool" where
  "named n (Sym m t) = (m = n)"
| "named n t = False"

text \<open>
  A node begins (ends) with an operand \<open>n\<close>: its first (last) step is the rule \<open>n\<close>, and
  is not its only step.
\<close>

definition left_open :: "string \<Rightarrow> dtree \<Rightarrow> bool" where
  "left_open n t = (case steps (body t) of s # s' # ss \<Rightarrow> named n s | _ \<Rightarrow> False)"

definition right_open :: "string \<Rightarrow> dtree \<Rightarrow> bool" where
  "right_open n t = (case rev (steps (body t)) of s # s' # ss \<Rightarrow> named n s | _ \<Rightarrow> False)"

definition last_operand :: "dtree \<Rightarrow> dtree" where
  "last_operand t = core (last (steps (body t)))"

definition first_operand :: "dtree \<Rightarrow> dtree" where
  "first_operand t = core (hd (steps (body t)))"

text \<open>
  The decision, given the precedence and associativity of the rule that could be finished
  and the precedence of the rule that could go on.
\<close>

definition shift_wins :: "int \<times> assoc \<Rightarrow> int \<Rightarrow> bool" where
  "shift_wins finished continuing =
     (fst finished < continuing \<or> (fst finished = continuing \<and> snd finished = RightAssoc))"

definition reduce_wins :: "int \<times> assoc \<Rightarrow> int \<Rightarrow> bool" where
  "reduce_wins finished continuing =
     (continuing < fst finished \<or> (fst finished = continuing \<and> snd finished = LeftAssoc))"

text \<open>
  \<open>resolved t\<close>, for a node \<open>t\<close> of the rule \<open>n\<close> that stands for the node \<open>core t\<close>: where
  \<open>core t\<close> ends with an operand \<open>n\<close> that stands for a node beginning with an operand \<open>n\<close>,
  going on has won over finishing \<open>core t\<close>; where \<open>core t\<close> begins with an operand \<open>n\<close>
  that stands for a node ending with an operand \<open>n\<close>, finishing that node has won over
  going on with \<open>core t\<close>. In both cases the other nesting derives the same token list
  from \<open>n\<close>, and the decision keeps one of the two. \<open>admitted t\<close>: every node of \<open>t\<close> is
  resolved.
\<close>

fun resolved :: "dtree \<Rightarrow> bool" where
  "resolved (Sym n t) =
     ((if right_open n (core (Sym n t)) \<and> left_open n (last_operand (core (Sym n t)))
       then shift_wins (prec_of (body (core (Sym n t))))
              (fst (prec_of (body (last_operand (core (Sym n t))))))
       else True) \<and>
      (if left_open n (core (Sym n t)) \<and> right_open n (first_operand (core (Sym n t)))
       then reduce_wins (prec_of (body (first_operand (core (Sym n t)))))
              (fst (prec_of (body (core (Sym n t)))))
       else True))"
| "resolved t = True"

fun admitted :: "dtree \<Rightarrow> bool" where
  "admitted (Tok w) = True"
| "admitted (Items ts) = list_all admitted ts"
| "admitted (Alt i t) = admitted t"
| "admitted (Rep ts) = list_all admitted ts"
| "admitted (Opt None) = True"
| "admitted (Opt (Some t)) = admitted t"
| "admitted (Sym n t) = (resolved (Sym n t) \<and> admitted t)"
| "admitted (Prec p a t) = admitted t"
| "admitted (Fld f t) = admitted t"
| "admitted (Als n t) = admitted t"

text \<open>
  \<open>parses n ws t\<close>: \<open>t\<close> is a parse of the token list \<open>ws\<close> as the rule named \<open>n\<close>.
  \<open>derives n ws\<close>: the rule named \<open>n\<close> accepts \<open>ws\<close>.
\<close>

definition parses :: "string \<Rightarrow> lexeme list \<Rightarrow> dtree \<Rightarrow> bool" where
  "parses n ws t = (conforms (SYMBOL n) t \<and> admitted t \<and> yield t = ws)"

definition derives :: "string \<Rightarrow> lexeme list \<Rightarrow> bool" where
  "derives n ws = (\<exists>t. parses n ws t)"

section \<open>Trees of the examples\<close>

text \<open>The derivation trees that the statements below name, built from their parts.\<close>

definition is_identifier :: "lexeme \<Rightarrow> bool" where
  "is_identifier x = conforms identifier_rule (Tok x)"

definition ident_node :: "lexeme \<Rightarrow> dtree" where
  "ident_node x = Sym ''identifier'' (Tok x)"

definition semicolon :: dtree where
  "semicolon = Sym ''_semicolon'' (Tok '';'')"

text \<open>The tree of \<open>commaSep\<close> over the trees of the elements, without a trailing comma.\<close>

fun comma_tree :: "dtree list \<Rightarrow> dtree" where
  "comma_tree [] = Opt None"
| "comma_tree (x # xs) = Opt (Some (Items [x, Rep (map (\<lambda>y. Items [Tok '','', y]) xs), Opt None]))"

definition pragma_tree :: "dtree list \<Rightarrow> dtree" where
  "pragma_tree vs = Sym ''pragma_directive''
     (Items [Tok ''pragma'', Tok ''solidity'', Rep vs, semicolon])"

definition block_tree :: "dtree list \<Rightarrow> dtree" where
  "block_tree ss = Sym ''block_statement'' (Items [Tok ''{'', Rep ss, Tok ''}''])"

definition type_tree :: "nat \<Rightarrow> dtree \<Rightarrow> dtree" where
  "type_tree i t = Sym ''type_name'' (Prec 0 NoAssoc (Alt i t))"

definition primitive :: "nat \<Rightarrow> dtree \<Rightarrow> dtree" where
  "primitive i t = Sym ''_primitive_type'' (Prec 0 LeftAssoc (Alt i t))"

definition string_type :: dtree where
  "string_type = type_tree 0 (primitive 2 (Tok ''string''))"

definition uint_type :: dtree where
  "uint_type = type_tree 0 (primitive 5 (Sym ''_uint'' (Alt 0 (Tok ''uint''))))"

definition parameter_list :: "dtree list \<Rightarrow> dtree" where
  "parameter_list ps = Sym ''_parameter_list'' (Items [Tok ''('', comma_tree ps, Tok '')''])"

definition reason_parameter :: dtree where
  "reason_parameter = Sym ''_parameter'' (Items [
     Fld ''type'' string_type,
     Opt (Some (Fld ''storage_location'' (Sym ''_storage_location'' (Alt 0 (Tok ''memory''))))),
     Opt (Some (Fld ''name'' (ident_node ''reason'')))])"

definition catch_tree :: "dtree option \<Rightarrow> dtree \<Rightarrow> dtree" where
  "catch_tree handler b = Sym ''catch_clause'' (Items [Tok ''catch'', Opt handler, b])"

definition struct_tree :: "dtree \<Rightarrow> dtree list \<Rightarrow> dtree" where
  "struct_tree x ms = Sym ''struct_declaration''
     (Items [Tok ''struct'', x, Tok ''{'', Rep ms, Tok ''}''])"

definition struct_member_tree :: "dtree \<Rightarrow> lexeme \<Rightarrow> dtree" where
  "struct_member_tree ty x = Sym ''struct_member'' (Items [ty, ident_node x, semicolon])"

definition enum_tree :: "lexeme \<Rightarrow> lexeme list \<Rightarrow> dtree" where
  "enum_tree x vs = Sym ''enum_declaration'' (Items [
     Tok ''enum'', Fld ''enum_type_name'' (ident_node x), Tok ''{'',
     comma_tree (map (\<lambda>v. Fld ''enum_value'' (ident_node v)) vs), Tok ''}''])"

definition ident_expr :: "lexeme \<Rightarrow> dtree" where
  "ident_expr x =
     Sym ''_expression'' (Alt 6 (Sym ''primary_expression'' (Alt 10 (ident_node x))))"

definition variable_declaration_tree :: "dtree \<Rightarrow> dtree option \<Rightarrow> lexeme \<Rightarrow> dtree" where
  "variable_declaration_tree ty loc x =
     Sym ''variable_declaration'' (Items [ty, Opt loc, Fld ''name'' (ident_node x)])"

definition declaration_statement :: "dtree \<Rightarrow> dtree option \<Rightarrow> dtree" where
  "declaration_statement d init =
     Sym ''variable_declaration_statement'' (Items [Alt 0 (Items [d, Opt init]), semicolon])"

definition tuple_declaration_statement :: "dtree \<Rightarrow> dtree \<Rightarrow> dtree" where
  "tuple_declaration_statement c e =
     Sym ''variable_declaration_statement'' (Items [
       Alt 1 (Items [
         Sym ''variable_declaration_tuple'' (Items [Tok ''('', c, Tok '')'']),
         Tok ''='', e]),
       semicolon])"

definition address_primitive :: dtree where
  "address_primitive = primitive 0 (Items [Tok ''address'', Opt None])"

definition uint_primitive :: dtree where
  "uint_primitive = primitive 5 (Sym ''_uint'' (Alt 0 (Tok ''uint'')))"

definition uint256_type :: dtree where
  "uint256_type = type_tree 0 (primitive 5 (Sym ''_uint'' (Alt 32 (Tok ''uint256''))))"

definition bool_type :: dtree where
  "bool_type = type_tree 0 (primitive 1 (Tok ''bool''))"

definition mapping_tree :: "dtree \<Rightarrow> dtree \<Rightarrow> dtree" where
  "mapping_tree k v = Sym ''_mapping'' (Items [
     Tok ''mapping'', Tok ''('', Sym ''_mapping_key'' k, Tok ''=>'', v, Tok '')''])"

text \<open>\<open>kind t\<close>: the name of the node that \<open>t\<close> stands for.\<close>

definition kind :: "dtree \<Rightarrow> string" where
  "kind t = (case core t of Sym n u \<Rightarrow> n | _ \<Rightarrow> [])"


definition tuple_node :: "dtree \<Rightarrow> dtree" where
  "tuple_node c = Sym ''tuple_expression'' (Prec 1 NoAssoc (Items [Tok ''('', c, Tok '')'']))"




text \<open>
  The node of the binary operator number \<open>i\<close> of the table (\<^verbatim>\<open>**\<close> is number 13), and
  the node of a conditional expression, each as an \<^verbatim>\<open>_expression\<close>.
\<close>

definition binary_expr :: "nat \<Rightarrow> dtree \<Rightarrow> dtree \<Rightarrow> dtree" where
  "binary_expr i l r = Sym ''_expression'' (Alt 0 (Sym ''binary_expression'' (Alt i
     (Prec (snd (binary_operators ! i)) LeftAssoc (Items [
        Fld ''left'' l,
        Fld ''operator'' (Tok (fst (binary_operators ! i))),
        Fld ''right'' r])))))"

definition ternary_expr :: "dtree \<Rightarrow> dtree \<Rightarrow> dtree \<Rightarrow> dtree" where
  "ternary_expr c a b = Sym ''_expression'' (Alt 8 (Sym ''ternary_expression''
     (Prec 0 LeftAssoc (Items [c, Tok ''?'', a, Tok '':'', b]))))"

section \<open>Extras and the text of a token list\<close>

text \<open>
  The two extras of the grammar: a lexeme is a comment when it matches the token rule
  \<^verbatim>\<open>comment\<close>; a character, given by its code point, is white space when it matches the
  pattern of the second extra.
\<close>

definition is_comment :: "lexeme \<Rightarrow> bool" where
  "is_comment w = conforms comment (Tok w)"

definition whitespace_code :: "nat \<Rightarrow> bool" where
  "whitespace_code c = (case extras ! 1 of PATTERN p \<Rightarrow> matches p [c] | _ \<Rightarrow> False)"

text \<open>
  A run of extras is a text made of white space and comments. The token list \<open>ws\<close> spells
  the text \<open>s\<close> when \<open>s\<close> is the lexemes of \<open>ws\<close> in order, with a run of extras (possibly
  empty) before each of them and after the last.
\<close>

inductive extras_run :: "string \<Rightarrow> bool" where
  extras_none: "extras_run []"
| extras_space: "whitespace_code (of_char c) \<Longrightarrow> extras_run s \<Longrightarrow> extras_run (c # s)"
| extras_comment: "is_comment w \<Longrightarrow> extras_run s \<Longrightarrow> extras_run (w @ s)"

inductive spells :: "lexeme list \<Rightarrow> string \<Rightarrow> bool" where
  spells_end: "extras_run e \<Longrightarrow> spells [] e"
| spells_token: "extras_run e \<Longrightarrow> spells ws r \<Longrightarrow> spells (w # ws) (e @ w @ r)"

text \<open>
  \<open>reads n s\<close>: the text \<open>s\<close> is derived from the rule named \<open>n\<close> under some division into
  tokens. The generated lexer settles on one division (at each position the longest match
  among the tokens the parser can take there, the keywords being read through the pattern
  of \<^verbatim>\<open>word\<close>), and a tree that the parser returns without an error node is a derivation
  of the token list it was built from. So a text that is not read under any division is
  not accepted by the parser; a text that is read under some division may still be divided
  in another way by the lexer and end in an error. \<open>reads\<close> is used for rejection only.
\<close>

definition reads :: "string \<Rightarrow> string \<Rightarrow> bool" where
  "reads n s = (\<exists>ws. spells ws s \<and> derives n ws)"

text \<open>A character that begins no extra: neither white space nor a slash.\<close>

definition solid :: "char \<Rightarrow> bool" where
  "solid c = (\<not> whitespace_code (of_char c) \<and> c \<noteq> CHR ''/'')"

definition number_literal_tree :: "nat \<Rightarrow> dtree \<Rightarrow> dtree option \<Rightarrow> dtree" where
  "number_literal_tree i n u = Sym ''number_literal'' (Items [Alt i n, Opt u])"

definition decimal_tree :: "lexeme \<Rightarrow> dtree option \<Rightarrow> dtree" where
  "decimal_tree d e = Sym ''decimal_number'' (Items [Tok d, Opt e])"

definition unit_tree :: "nat \<Rightarrow> lexeme \<Rightarrow> dtree" where
  "unit_tree i w = Sym ''number_unit'' (Alt i (Tok w))"

text \<open>The patterns of \<^verbatim>\<open>decimal_number\<close> and \<^verbatim>\<open>_hex_digit\<close> and the strings of \<^verbatim>\<open>number_unit\<close>, as
  predicates on a lexeme.\<close>

definition is_mantissa :: "lexeme \<Rightarrow> bool" where
  "is_mantissa d = conforms decimal_number (Items [Tok d, Opt None])"

definition is_exponent :: "lexeme \<Rightarrow> bool" where
  "is_exponent w = conforms decimal_number (Items [Tok ''0'', Opt (Some (Tok w))])"

definition is_hex_group :: "lexeme \<Rightarrow> bool" where
  "is_hex_group w = conforms u_hex_digit (Tok w)"

definition is_unit :: "lexeme \<Rightarrow> bool" where
  "is_unit w = (STRING w \<in> set (case number_unit of CHOICE rs \<Rightarrow> rs | _ \<Rightarrow> []))"

section \<open>Tokens that mark an expression\<close>

text \<open>
  Every form of expression other than a binary operation, a conditional and a single
  token contains one of the tokens below, or begins with a decimal number. \<open>marked t\<close>:
  the yield of \<open>t\<close> contains one of them.
\<close>

definition markers :: "lexeme list" where
  "markers = [''('', ''['', ''{'', ''.'', ''='', ''!'', ''~'', ''-'', ''+'', ''delete'',
     ''++'', ''--'', ''payable'', ''type'', ''new'', ''hex'', ''unicode'', ''0x'',
     [dquote], [squote],
     ''+='', ''-='', ''*='', ''/='', ''%='', ''^='', ''&='', ''|='', ''>>='', ''>>>='',
     ''<<='']"

definition marked :: "dtree \<Rightarrow> bool" where
  "marked t = list_ex (\<lambda>k. k \<in> set (yield t)) markers"

text \<open>
  A plain token: not a marker, not a binary operator, not \<^verbatim>\<open>?\<close> or \<^verbatim>\<open>:\<close>, and not a decimal
  number.
\<close>

definition plain :: "lexeme \<Rightarrow> bool" where
  "plain x = (x \<notin> set markers \<and> x \<notin> set (map fst binary_operators) \<and> x \<noteq> ''?'' \<and>
     x \<noteq> '':'' \<and> \<not> is_mantissa x)"

section \<open>What a pattern matches\<close>

lemma matches_Never: "matches Never cs = False"
  by (induction cs) simp_all

lemma matches_Eps: "matches Eps cs \<longleftrightarrow> cs = []"
  by (cases cs) (simp_all add: matches_Never)

lemma matches_Chars: "matches (Chars rs) cs \<longleftrightarrow> (\<exists>c. cs = [c] \<and> in_ranges c rs)"
  by (cases cs) (auto simp add: matches_Never matches_Eps)

lemma matches_NotChars: "matches (NotChars rs) cs \<longleftrightarrow> (\<exists>c. cs = [c] \<and> \<not> in_ranges c rs)"
  by (cases cs) (auto simp add: matches_Never matches_Eps)

lemma matches_AnyChar: "matches AnyChar cs \<longleftrightarrow> (\<exists>c. cs = [c] \<and> c \<noteq> 10)"
  by (cases cs) (auto simp add: matches_Never matches_Eps)

lemma matches_Or: "matches (Or r s) cs \<longleftrightarrow> matches r cs \<or> matches s cs"
  by (induction cs arbitrary: r s) simp_all

lemma matches_Cat:
  "matches (Cat r s) cs \<longleftrightarrow> (\<exists>u v. cs = u @ v \<and> matches r u \<and> matches s v)"
proof (induction cs arbitrary: r)
  case Nil
  then show ?case by simp
next
  case (Cons c cs)
  have split: "(\<exists>u v. c # cs = u @ v \<and> matches r u \<and> matches s v) \<longleftrightarrow>
      (nullable r \<and> matches s (c # cs)) \<or>
      (\<exists>u v. cs = u @ v \<and> matches (deriv c r) u \<and> matches s v)" (is "?L \<longleftrightarrow> ?R")
  proof
    assume ?L
    then obtain u v where uv: "c # cs = u @ v" "matches r u" "matches s v" by blast
    show ?R
    proof (cases u)
      case Nil
      with uv show ?thesis by simp
    next
      case (Cons c' u')
      with uv have "cs = u' @ v" "matches (deriv c r) u'" by simp_all
      with uv(3) show ?thesis by blast
    qed
  next
    assume ?R
    then show ?L
    proof (elim disjE exE conjE)
      assume "nullable r" "matches s (c # cs)"
      then have "c # cs = [] @ (c # cs) \<and> matches r [] \<and> matches s (c # cs)" by simp
      then show ?L by blast
    next
      fix u v assume "cs = u @ v" "matches (deriv c r) u" "matches s v"
      then have "c # cs = (c # u) @ v \<and> matches r (c # u) \<and> matches s v" by simp
      then show ?L by blast
    qed
  qed
  show ?case
    by (auto simp add: split matches_Or Cons.IH)
qed

lemma matches_Maybe: "matches (Maybe r) cs \<longleftrightarrow> cs = [] \<or> matches r cs"
  by (cases cs) simp_all

lemma matches_Star_Cons:
  "matches (Star r) (c # cs) \<longleftrightarrow>
     (\<exists>u v. cs = u @ v \<and> matches r (c # u) \<and> matches (Star r) v)"
  by (simp add: matches_Cat)

lemma matches_Plus_Cons:
  "matches (Plus r) (c # cs) \<longleftrightarrow>
     (\<exists>u v. cs = u @ v \<and> matches r (c # u) \<and> matches (Star r) v)"
  by (simp add: matches_Cat)

lemma matches_Plus_Nil: "matches (Plus r) [] \<longleftrightarrow> nullable r"
  by simp

text \<open>A property of every text that \<open>r\<close> matches holds of every text that \<open>r*\<close> matches.\<close>

lemma matches_Star_all:
  assumes r: "\<And>u. matches r u \<Longrightarrow> \<forall>c \<in> set u. P c"
  shows "matches (Star r) cs \<Longrightarrow> \<forall>c \<in> set cs. P c"
proof (induction "length cs" arbitrary: cs rule: less_induct)
  case less
  show ?case
  proof (cases cs)
    case Nil
    then show ?thesis by simp
  next
    case (Cons c cs')
    with less.prems have "matches (Star r) (c # cs')" by simp
    then obtain u v where uv: "cs' = u @ v" "matches r (c # u)" "matches (Star r) v"
      unfolding matches_Star_Cons by blast
    from uv(1) Cons have "length v < length cs" by simp
    from less.hyps [OF this uv(3)] r [OF uv(2)] uv(1) Cons show ?thesis by auto
  qed
qed

lemma lit_Cons: "lit (a # s) = Cat (Chars [just a]) (lit s)"
  by (simp add: lit_def cat_def)

lemma matches_lit_Cons:
  "matches (lit (a # s)) cs \<longleftrightarrow> (\<exists>v. cs = of_char a # v \<and> matches (lit s) v)"
proof
  assume "matches (lit (a # s)) cs"
  then obtain u v where "cs = u @ v" "matches (Chars [just a]) u" "matches (lit s) v"
    unfolding lit_Cons matches_Cat by blast
  then show "\<exists>v. cs = of_char a # v \<and> matches (lit s) v"
    by (auto simp add: matches_Chars just_def)
next
  assume "\<exists>v. cs = of_char a # v \<and> matches (lit s) v"
  then obtain v where v: "cs = of_char a # v" "matches (lit s) v" by blast
  have "matches (Chars [just a]) [of_char a]"
    by (simp add: just_def)
  with v have "cs = [of_char a] @ v \<and> matches (Chars [just a]) [of_char a] \<and> matches (lit s) v"
    by simp
  then show "matches (lit (a # s)) cs"
    unfolding lit_Cons matches_Cat by blast
qed

lemma matches_lit_Nil: "matches (lit []) cs \<longleftrightarrow> cs = []"
  by (simp add: lit_def cat_def matches_Eps)

lemma matches_lit: "matches (lit s) cs \<longleftrightarrow> cs = map of_char s"
  by (induction s arbitrary: cs) (auto simp add: matches_lit_Nil matches_lit_Cons)

section \<open>Reading a rule off a tree\<close>

lemma lookup_hit: "lookup ((k, v) # ps) k = Some v"
  by simp

lemma lookup_skip: "k' \<noteq> k \<Longrightarrow> lookup ps k = r \<Longrightarrow> lookup ((k', v) # ps) k = r"
  by simp

lemma conforms_STRING: "conforms (STRING s) t \<longleftrightarrow> t = Tok s"
proof (cases t)
  case (Opt x) then show ?thesis by (cases x) auto
qed auto

lemma conforms_PATTERN: "conforms (PATTERN p) t \<longleftrightarrow> (\<exists>w. t = Tok w \<and> re_match p w)"
proof (cases t)
  case (Opt x) then show ?thesis by (cases x) auto
qed auto

lemma conforms_SEQ: "conforms (SEQ rs) t \<longleftrightarrow> (\<exists>ts. t = Items ts \<and> conforms_seq rs ts)"
proof (cases t)
  case (Opt x) then show ?thesis by (cases x) auto
qed auto

lemma conforms_seq_Nil: "conforms_seq [] ts \<longleftrightarrow> ts = []"
  by (cases ts) auto

lemma conforms_seq_Cons:
  "conforms_seq (r # rs) ts \<longleftrightarrow> (\<exists>u us. ts = u # us \<and> conforms r u \<and> conforms_seq rs us)"
  by (cases ts) auto

lemma conforms_CHOICE:
  "conforms (CHOICE rs) t \<longleftrightarrow>
     (\<exists>i u. t = Alt i u \<and> i < length rs \<and> conforms (rs ! i) u)"
proof (cases t)
  case (Opt x) then show ?thesis by (cases x) auto
qed auto

lemma conforms_OPTIONAL:
  "conforms (OPTIONAL r) t \<longleftrightarrow> t = Opt None \<or> (\<exists>u. t = Opt (Some u) \<and> conforms r u)"
proof (cases t)
  case (Opt x) then show ?thesis by (cases x) auto
qed auto

lemma conforms_REPEAT: "conforms (REPEAT r) t \<longleftrightarrow> (\<exists>ts. t = Rep ts \<and> conforms_rep r ts)"
proof (cases t)
  case (Opt x) then show ?thesis by (cases x) auto
qed auto

lemma conforms_REPEAT1:
  "conforms (REPEAT1 r) t \<longleftrightarrow> (\<exists>ts. t = Rep ts \<and> ts \<noteq> [] \<and> conforms_rep r ts)"
proof (cases t)
  case (Opt x) then show ?thesis by (cases x) auto
qed auto

lemma conforms_SYMBOL:
  "conforms (SYMBOL n) t \<longleftrightarrow>
     (\<exists>u. t = Sym n u \<and> (case lookup rules n of Some r \<Rightarrow> conforms r u | None \<Rightarrow> False))"
proof (cases t)
  case (Opt x) then show ?thesis by (cases x) auto
qed auto

lemma conforms_sym:
  assumes "lookup rules n = Some r"
  shows "conforms (SYMBOL n) t \<longleftrightarrow> (\<exists>u. t = Sym n u \<and> conforms r u)"
  using assms by (simp add: conforms_SYMBOL)

lemma conforms_PREC: "conforms (PREC p r) t \<longleftrightarrow> (\<exists>u. t = Prec p NoAssoc u \<and> conforms r u)"
proof (cases t)
  case (Opt x) then show ?thesis by (cases x) auto
qed auto

lemma conforms_PREC_LEFT:
  "conforms (PREC_LEFT p r) t \<longleftrightarrow> (\<exists>u. t = Prec p LeftAssoc u \<and> conforms r u)"
proof (cases t)
  case (Opt x) then show ?thesis by (cases x) auto
qed auto

lemma conforms_PREC_RIGHT:
  "conforms (PREC_RIGHT p r) t \<longleftrightarrow> (\<exists>u. t = Prec p RightAssoc u \<and> conforms r u)"
proof (cases t)
  case (Opt x) then show ?thesis by (cases x) auto
qed auto

lemma conforms_FIELD: "conforms (FIELD f r) t \<longleftrightarrow> (\<exists>u. t = Fld f u \<and> conforms r u)"
proof (cases t)
  case (Opt x) then show ?thesis by (cases x) auto
qed auto

lemma conforms_ALIAS: "conforms (ALIAS r n) t \<longleftrightarrow> (\<exists>u. t = Als n u \<and> conforms r u)"
proof (cases t)
  case (Opt x) then show ?thesis by (cases x) auto
qed auto

lemmas inv = conforms_STRING conforms_PATTERN conforms_SEQ conforms_seq_Nil
  conforms_seq_Cons conforms_CHOICE conforms_OPTIONAL conforms_REPEAT
  conforms_REPEAT1 conforms_PREC conforms_PREC_LEFT conforms_PREC_RIGHT conforms_FIELD
  conforms_ALIAS

lemma choice_strings:
  assumes "conforms (CHOICE (map STRING ss)) t"
  shows "\<exists>w \<in> set ss. yield t = [w]"
proof -
  from assms obtain i u where "t = Alt i u" "i < length ss" "conforms (STRING (ss ! i)) u"
    by (auto simp add: conforms_CHOICE)
  then show ?thesis by (auto simp add: conforms_STRING)
qed

lemma choice_strings_member:
  assumes "conforms (CHOICE (map STRING ss)) t"
  shows "\<exists>w. yield t = [w] \<and> STRING w \<in> set (map STRING ss)"
  using choice_strings [OF assms] by auto

lemmas choose = less_Suc_eq_0_disj

lemmas chars = rng_def just_def cat_def lit_def esc_d_def re_match_def

lemmas nesting = left_open_def right_open_def last_operand_def first_operand_def
  shift_wins_def reduce_wins_def

section \<open>The rules by name\<close>

lemma rules_pragma_directive: "lookup rules ''pragma_directive'' = Some pragma_directive"
  unfolding rules_def by (rule lookup_hit | (rule lookup_skip, simp))+

lemma rules_struct_declaration: "lookup rules ''struct_declaration'' = Some struct_declaration"
  unfolding rules_def by (rule lookup_hit | (rule lookup_skip, simp))+

lemma rules_struct_member: "lookup rules ''struct_member'' = Some struct_member"
  unfolding rules_def by (rule lookup_hit | (rule lookup_skip, simp))+

lemma rules_enum_declaration: "lookup rules ''enum_declaration'' = Some enum_declaration"
  unfolding rules_def by (rule lookup_hit | (rule lookup_skip, simp))+

lemma rules_block_statement: "lookup rules ''block_statement'' = Some block_statement"
  unfolding rules_def by (rule lookup_hit | (rule lookup_skip, simp))+

lemma rules_variable_declaration_statement: "lookup rules ''variable_declaration_statement'' = Some variable_declaration_statement"
  unfolding rules_def by (rule lookup_hit | (rule lookup_skip, simp))+

lemma rules_variable_declaration: "lookup rules ''variable_declaration'' = Some variable_declaration"
  unfolding rules_def by (rule lookup_hit | (rule lookup_skip, simp))+

lemma rules_variable_declaration_tuple: "lookup rules ''variable_declaration_tuple'' = Some variable_declaration_tuple"
  unfolding rules_def by (rule lookup_hit | (rule lookup_skip, simp))+

lemma rules_catch_clause: "lookup rules ''catch_clause'' = Some catch_clause"
  unfolding rules_def by (rule lookup_hit | (rule lookup_skip, simp))+

lemma rules_u_call_arguments: "lookup rules ''_call_arguments'' = Some u_call_arguments"
  unfolding rules_def by (rule lookup_hit | (rule lookup_skip, simp))+

lemma rules_u_expression: "lookup rules ''_expression'' = Some u_expression"
  unfolding rules_def by (rule lookup_hit | (rule lookup_skip, simp))+

lemma rules_primary_expression: "lookup rules ''primary_expression'' = Some primary_expression"
  unfolding rules_def by (rule lookup_hit | (rule lookup_skip, simp))+

lemma rules_type_cast_expression: "lookup rules ''type_cast_expression'' = Some type_cast_expression"
  unfolding rules_def by (rule lookup_hit | (rule lookup_skip, simp))+

lemma rules_ternary_expression: "lookup rules ''ternary_expression'' = Some ternary_expression"
  unfolding rules_def by (rule lookup_hit | (rule lookup_skip, simp))+

lemma rules_new_expression: "lookup rules ''new_expression'' = Some new_expression"
  unfolding rules_def by (rule lookup_hit | (rule lookup_skip, simp))+

lemma rules_tuple_expression: "lookup rules ''tuple_expression'' = Some tuple_expression"
  unfolding rules_def by (rule lookup_hit | (rule lookup_skip, simp))+

lemma rules_inline_array_expression: "lookup rules ''inline_array_expression'' = Some inline_array_expression"
  unfolding rules_def by (rule lookup_hit | (rule lookup_skip, simp))+

lemma rules_binary_expression: "lookup rules ''binary_expression'' = Some binary_expression"
  unfolding rules_def by (rule lookup_hit | (rule lookup_skip, simp))+

lemma rules_unary_expression: "lookup rules ''unary_expression'' = Some unary_expression"
  unfolding rules_def by (rule lookup_hit | (rule lookup_skip, simp))+

lemma rules_update_expression: "lookup rules ''update_expression'' = Some update_expression"
  unfolding rules_def by (rule lookup_hit | (rule lookup_skip, simp))+

lemma rules_member_expression: "lookup rules ''member_expression'' = Some member_expression"
  unfolding rules_def by (rule lookup_hit | (rule lookup_skip, simp))+

lemma rules_array_access: "lookup rules ''array_access'' = Some array_access"
  unfolding rules_def by (rule lookup_hit | (rule lookup_skip, simp))+

lemma rules_slice_access: "lookup rules ''slice_access'' = Some slice_access"
  unfolding rules_def by (rule lookup_hit | (rule lookup_skip, simp))+

lemma rules_struct_expression: "lookup rules ''struct_expression'' = Some struct_expression"
  unfolding rules_def by (rule lookup_hit | (rule lookup_skip, simp))+


lemma rules_parenthesized_expression: "lookup rules ''parenthesized_expression'' = Some parenthesized_expression"
  unfolding rules_def by (rule lookup_hit | (rule lookup_skip, simp))+

lemma rules_assignment_expression: "lookup rules ''assignment_expression'' = Some assignment_expression"
  unfolding rules_def by (rule lookup_hit | (rule lookup_skip, simp))+

lemma rules_augmented_assignment_expression: "lookup rules ''augmented_assignment_expression'' = Some augmented_assignment_expression"
  unfolding rules_def by (rule lookup_hit | (rule lookup_skip, simp))+

lemma rules_call_expresion: "lookup rules ''call_expresion'' = Some call_expresion"
  unfolding rules_def by (rule lookup_hit | (rule lookup_skip, simp))+

lemma rules_payable_conversion_expression: "lookup rules ''payable_conversion_expression'' = Some payable_conversion_expression"
  unfolding rules_def by (rule lookup_hit | (rule lookup_skip, simp))+

lemma rules_meta_type_expression: "lookup rules ''meta_type_expression'' = Some meta_type_expression"
  unfolding rules_def by (rule lookup_hit | (rule lookup_skip, simp))+

lemma rules_type_name: "lookup rules ''type_name'' = Some type_name"
  unfolding rules_def by (rule lookup_hit | (rule lookup_skip, simp))+

lemma rules_u_array_type: "lookup rules ''_array_type'' = Some u_array_type"
  unfolding rules_def by (rule lookup_hit | (rule lookup_skip, simp))+

lemma rules_u_function_type: "lookup rules ''_function_type'' = Some u_function_type"
  unfolding rules_def by (rule lookup_hit | (rule lookup_skip, simp))+

lemma rules_u_parameter_list: "lookup rules ''_parameter_list'' = Some u_parameter_list"
  unfolding rules_def by (rule lookup_hit | (rule lookup_skip, simp))+

lemma rules_u_parameter: "lookup rules ''_parameter'' = Some u_parameter"
  unfolding rules_def by (rule lookup_hit | (rule lookup_skip, simp))+

lemma rules_u_storage_location: "lookup rules ''_storage_location'' = Some u_storage_location"
  unfolding rules_def by (rule lookup_hit | (rule lookup_skip, simp))+

lemma rules_u_user_defined_type: "lookup rules ''_user_defined_type'' = Some u_user_defined_type"
  unfolding rules_def by (rule lookup_hit | (rule lookup_skip, simp))+

lemma rules_u_mapping: "lookup rules ''_mapping'' = Some u_mapping"
  unfolding rules_def by (rule lookup_hit | (rule lookup_skip, simp))+

lemma rules_u_mapping_key: "lookup rules ''_mapping_key'' = Some u_mapping_key"
  unfolding rules_def by (rule lookup_hit | (rule lookup_skip, simp))+

lemma rules_u_primitive_type: "lookup rules ''_primitive_type'' = Some u_primitive_type"
  unfolding rules_def by (rule lookup_hit | (rule lookup_skip, simp))+

lemma rules_u_int: "lookup rules ''_int'' = Some u_int"
  unfolding rules_def by (rule lookup_hit | (rule lookup_skip, simp))+

lemma rules_u_uint: "lookup rules ''_uint'' = Some u_uint"
  unfolding rules_def by (rule lookup_hit | (rule lookup_skip, simp))+

lemma rules_u_bytes: "lookup rules ''_bytes'' = Some u_bytes"
  unfolding rules_def by (rule lookup_hit | (rule lookup_skip, simp))+

lemma rules_u_fixed: "lookup rules ''_fixed'' = Some u_fixed"
  unfolding rules_def by (rule lookup_hit | (rule lookup_skip, simp))+

lemma rules_u_ufixed: "lookup rules ''_ufixed'' = Some u_ufixed"
  unfolding rules_def by (rule lookup_hit | (rule lookup_skip, simp))+

lemma rules_u_semicolon: "lookup rules ''_semicolon'' = Some u_semicolon"
  unfolding rules_def by (rule lookup_hit | (rule lookup_skip, simp))+

lemma rules_identifier: "lookup rules ''identifier'' = Some identifier_rule"
  unfolding rules_def by (rule lookup_hit | (rule lookup_skip, simp))+

lemma rules_literal: "lookup rules ''literal'' = Some literal"
  unfolding rules_def by (rule lookup_hit | (rule lookup_skip, simp))+

lemma rules_string_literal: "lookup rules ''string_literal'' = Some string_literal"
  unfolding rules_def by (rule lookup_hit | (rule lookup_skip, simp))+

lemma rules_number_literal: "lookup rules ''number_literal'' = Some number_literal"
  unfolding rules_def by (rule lookup_hit | (rule lookup_skip, simp))+

lemma rules_decimal_number: "lookup rules ''decimal_number'' = Some decimal_number"
  unfolding rules_def by (rule lookup_hit | (rule lookup_skip, simp))+

lemma rules_hex_number: "lookup rules ''hex_number'' = Some hex_number"
  unfolding rules_def by (rule lookup_hit | (rule lookup_skip, simp))+

lemma rules_u_hex_digit: "lookup rules ''_hex_digit'' = Some u_hex_digit"
  unfolding rules_def by (rule lookup_hit | (rule lookup_skip, simp))+

lemma rules_number_unit: "lookup rules ''number_unit'' = Some number_unit"
  unfolding rules_def by (rule lookup_hit | (rule lookup_skip, simp))+

lemma rules_boolean_literal: "lookup rules ''boolean_literal'' = Some boolean_literal"
  unfolding rules_def by (rule lookup_hit | (rule lookup_skip, simp))+

lemma rules_hex_string_literal: "lookup rules ''hex_string_literal'' = Some hex_string_literal"
  unfolding rules_def by (rule lookup_hit | (rule lookup_skip, simp))+

lemma rules_unicode_string_literal: "lookup rules ''unicode_string_literal'' = Some unicode_string_literal"
  unfolding rules_def by (rule lookup_hit | (rule lookup_skip, simp))+

lemma rules_string: "lookup rules ''string'' = Some string_rule"
  unfolding rules_def by (rule lookup_hit | (rule lookup_skip, simp))+

section \<open>The shape of a number literal\<close>

lemma number_unit_shape:
  assumes "conforms (SYMBOL ''number_unit'') v"
  shows "\<exists>w. yield v = [w] \<and> is_unit w"
proof -
  from assms obtain u where v: "v = Sym ''number_unit'' u" and u: "conforms number_unit u"
    by (auto simp add: conforms_sym [OF rules_number_unit])
  from u obtain w where w: "yield u = [w]"
    and "STRING w \<in> set (case number_unit of CHOICE rs \<Rightarrow> rs | _ \<Rightarrow> [])"
    unfolding number_unit_def rule.case by (blast dest: choice_strings_member)
  then have "is_unit w" by (simp only: is_unit_def)
  with v w show ?thesis by simp
qed

lemma decimal_number_shape:
  assumes "conforms (SYMBOL ''decimal_number'') n"
  shows "\<exists>d. is_mantissa d \<and> (yield n = [d] \<or> (\<exists>w. yield n = [d, w] \<and> is_exponent w))"
  using assms
  by (auto simp add: conforms_sym [OF rules_decimal_number] decimal_number_def inv
      is_mantissa_def is_exponent_def chars)

lemma hex_number_shape:
  assumes "conforms (SYMBOL ''hex_number'') n"
  shows "yield n = [''0x''] \<or> (\<exists>w rest. yield n = ''0x'' # w # rest \<and> is_hex_group w)"
  using assms
  by (auto simp add: conforms_sym [OF rules_hex_number] conforms_sym [OF rules_u_hex_digit]
      hex_number_def optionalDashSeparation_def conforms_SEQ conforms_seq_Cons
      conforms_seq_Nil conforms_STRING conforms_OPTIONAL conforms_PATTERN is_hex_group_def
      u_hex_digit_def)

lemma number_literal_shape:
  assumes "conforms (SYMBOL ''number_literal'') t"
  shows "\<exists>i n u. t = number_literal_tree i n u \<and>
     (i = 0 \<and> conforms (SYMBOL ''decimal_number'') n \<or>
      i = 1 \<and> conforms (SYMBOL ''hex_number'') n) \<and>
     (u = None \<or> (\<exists>v. u = Some v \<and> conforms (SYMBOL ''number_unit'') v))"
  using assms
  by (auto simp add: conforms_sym [OF rules_number_literal] number_literal_def conforms_SEQ
      conforms_seq_Cons conforms_seq_Nil conforms_CHOICE conforms_OPTIONAL choose
      number_literal_tree_def)

lemma number_literal_yield:
  assumes "conforms (SYMBOL ''number_literal'') t"
  shows "(\<exists>d rest. yield t = d # rest \<and> is_mantissa d \<and>
            (rest = [] \<or> (\<exists>w rest'. rest = w # rest' \<and> (is_exponent w \<or> is_unit w)))) \<or>
         (\<exists>rest. yield t = ''0x'' # rest \<and>
            (rest = [] \<or> (\<exists>w rest'. rest = w # rest' \<and> (is_hex_group w \<or> is_unit w))))"
proof -
  from number_literal_shape [OF assms] obtain i n u where t: "t = number_literal_tree i n u"
    and n: "i = 0 \<and> conforms (SYMBOL ''decimal_number'') n \<or>
      i = 1 \<and> conforms (SYMBOL ''hex_number'') n"
    and u: "u = None \<or> (\<exists>v. u = Some v \<and> conforms (SYMBOL ''number_unit'') v)"
    by blast
  from u have yu: "yield (Opt u) = [] \<or> (\<exists>w. yield (Opt u) = [w] \<and> is_unit w)"
    using number_unit_shape by auto
  from n show ?thesis
  proof (elim disjE conjE)
    assume "conforms (SYMBOL ''decimal_number'') n"
    from decimal_number_shape [OF this] yu t show ?thesis
      by (auto simp add: number_literal_tree_def)
  next
    assume "conforms (SYMBOL ''hex_number'') n"
    from hex_number_shape [OF this] yu t show ?thesis
      by (auto simp add: number_literal_tree_def)
  qed
qed

section \<open>The forms of an expression\<close>

lemma markedI: "k \<in> set markers \<Longrightarrow> k \<in> set (yield t) \<Longrightarrow> marked t"
  unfolding marked_def list_ex_iff by blast

lemma marker_mem:
  "''('' \<in> set markers" "''['' \<in> set markers" "''{'' \<in> set markers"
  "''.'' \<in> set markers" "''='' \<in> set markers" "''!'' \<in> set markers"
  "''~'' \<in> set markers" "''-'' \<in> set markers" "''+'' \<in> set markers"
  "''delete'' \<in> set markers" "''++'' \<in> set markers" "''--'' \<in> set markers"
  "''payable'' \<in> set markers" "''type'' \<in> set markers" "''new'' \<in> set markers"
  "''hex'' \<in> set markers" "''unicode'' \<in> set markers" "''0x'' \<in> set markers"
  "[dquote] \<in> set markers" "[squote] \<in> set markers"
  "''+='' \<in> set markers" "''-='' \<in> set markers" "''*='' \<in> set markers"
  "''/='' \<in> set markers" "''%='' \<in> set markers" "''^='' \<in> set markers"
  "''&='' \<in> set markers" "''|='' \<in> set markers" "''>>='' \<in> set markers"
  "''>>>='' \<in> set markers" "''<<='' \<in> set markers"
  by (simp_all add: markers_def)

lemma marked_wrap:
  "marked (Sym n t) = marked t" "marked (Alt i t) = marked t" "marked (Prec p a t) = marked t"
  "marked (Fld f t) = marked t" "marked (Als n t) = marked t"
  by (simp_all add: marked_def)

lemma marked_first: "k \<in> set markers \<Longrightarrow> yield t = k # rest \<Longrightarrow> marked t"
  by (rule markedI [of k]) simp_all

lemma unary_marked:
  assumes "conforms (SYMBOL ''unary_expression'') u"
  shows "marked u"
  using assms
  by (auto simp add: conforms_sym [OF rules_unary_expression] unary_expression_def
      unary_operators_def unary_alternative_def inv choose marked_def markers_def)

lemma update_marked:
  assumes "conforms (SYMBOL ''update_expression'') u"
  shows "marked u"
proof -
  from assms have "''++'' \<in> set (yield u) \<or> ''--'' \<in> set (yield u)"
    by (auto simp add: conforms_sym [OF rules_update_expression] update_expression_def
        inv choose)
  then show ?thesis using marker_mem by (auto intro: markedI)
qed

lemma call_arguments_paren:
  assumes "conforms (SYMBOL ''_call_arguments'') u"
  shows "\<exists>rest. yield u = ''('' # rest"
  using assms
  by (auto simp add: conforms_sym [OF rules_u_call_arguments] u_call_arguments_def
      conforms_CHOICE conforms_SEQ conforms_seq_Cons conforms_seq_Nil conforms_STRING choose)

lemma call_marked:
  assumes "conforms (SYMBOL ''call_expresion'') u"
  shows "marked u"
proof -
  from assms obtain f args where "yield u = yield f @ yield args"
    and "conforms (SYMBOL ''_call_arguments'') args"
    by (auto simp add: conforms_sym [OF rules_call_expresion] call_expresion_def
        conforms_CHOICE conforms_SEQ conforms_seq_Cons conforms_seq_Nil choose)
  with call_arguments_paren [of args] have "''('' \<in> set (yield u)" by auto
  with marker_mem(1) show ?thesis by (rule markedI)
qed

lemma payable_conversion_marked:
  assumes "conforms (SYMBOL ''payable_conversion_expression'') u"
  shows "marked u"
proof -
  from assms have "''payable'' \<in> set (yield u)"
    by (auto simp add: conforms_sym [OF rules_payable_conversion_expression]
        payable_conversion_expression_def conforms_SEQ conforms_seq_Cons conforms_STRING)
  with marker_mem(13) show ?thesis by (rule markedI)
qed

lemma meta_type_marked:
  assumes "conforms (SYMBOL ''meta_type_expression'') u"
  shows "marked u"
proof -
  from assms have "''type'' \<in> set (yield u)"
    by (auto simp add: conforms_sym [OF rules_meta_type_expression]
        meta_type_expression_def conforms_SEQ conforms_seq_Cons conforms_STRING)
  with marker_mem(14) show ?thesis by (rule markedI)
qed

lemma struct_expression_marked:
  assumes "conforms (SYMBOL ''struct_expression'') u"
  shows "marked u"
proof -
  from assms have "''{'' \<in> set (yield u)"
    by (auto simp add: conforms_sym [OF rules_struct_expression] struct_expression_def
        conforms_SEQ conforms_seq_Cons conforms_STRING)
  with marker_mem(3) show ?thesis by (rule markedI)
qed

lemma type_cast_marked:
  assumes "conforms (SYMBOL ''type_cast_expression'') u"
  shows "marked u"
proof -
  from assms have "''('' \<in> set (yield u)"
    by (auto simp add: conforms_sym [OF rules_type_cast_expression] type_cast_expression_def
        conforms_PREC_LEFT conforms_SEQ conforms_seq_Cons conforms_STRING)
  with marker_mem(1) show ?thesis by (rule markedI)
qed

lemma parenthesized_marked:
  assumes "conforms (SYMBOL ''parenthesized_expression'') u"
  shows "marked u"
proof -
  from assms have "''('' \<in> set (yield u)"
    by (auto simp add: conforms_sym [OF rules_parenthesized_expression]
        parenthesized_expression_def conforms_PREC conforms_SEQ conforms_seq_Cons
        conforms_STRING)
  with marker_mem(1) show ?thesis by (rule markedI)
qed

lemma member_marked:
  assumes "conforms (SYMBOL ''member_expression'') u"
  shows "marked u"
proof -
  from assms have "''.'' \<in> set (yield u)"
    by (auto simp add: conforms_sym [OF rules_member_expression] member_expression_def
        conforms_PREC conforms_SEQ conforms_seq_Cons conforms_STRING)
  with marker_mem(4) show ?thesis by (rule markedI)
qed

lemma array_access_marked:
  assumes "conforms (SYMBOL ''array_access'') u"
  shows "marked u"
proof -
  from assms have "''['' \<in> set (yield u)"
    by (auto simp add: conforms_sym [OF rules_array_access] array_access_def
        conforms_PREC_RIGHT conforms_SEQ conforms_seq_Cons conforms_STRING)
  with marker_mem(2) show ?thesis by (rule markedI)
qed

lemma slice_access_marked:
  assumes "conforms (SYMBOL ''slice_access'') u"
  shows "marked u"
proof -
  from assms have "''['' \<in> set (yield u)"
    by (auto simp add: conforms_sym [OF rules_slice_access] slice_access_def
        conforms_PREC conforms_SEQ conforms_seq_Cons conforms_STRING)
  with marker_mem(2) show ?thesis by (rule markedI)
qed

lemma assignment_marked:
  assumes "conforms (SYMBOL ''assignment_expression'') u"
  shows "marked u"
proof -
  from assms have "''='' \<in> set (yield u)"
    by (auto simp add: conforms_sym [OF rules_assignment_expression]
        assignment_expression_def conforms_PREC_RIGHT conforms_SEQ conforms_seq_Cons
        conforms_STRING)
  with marker_mem(5) show ?thesis by (rule markedI)
qed

lemma augmented_assignment_marked:
  assumes "conforms (SYMBOL ''augmented_assignment_expression'') u"
  shows "marked u"
  using assms
  by (auto simp add: conforms_sym [OF rules_augmented_assignment_expression]
      augmented_assignment_expression_def conforms_PREC_RIGHT conforms_SEQ
      conforms_seq_Cons conforms_seq_Nil conforms_CHOICE conforms_STRING choose marked_def
      markers_def)

lemma tuple_marked:
  assumes "conforms (SYMBOL ''tuple_expression'') u"
  shows "marked u"
proof -
  from assms have "''('' \<in> set (yield u)"
    by (auto simp add: conforms_sym [OF rules_tuple_expression] tuple_expression_def
        conforms_PREC conforms_SEQ conforms_seq_Cons conforms_STRING)
  with marker_mem(1) show ?thesis by (rule markedI)
qed

lemma inline_array_marked:
  assumes "conforms (SYMBOL ''inline_array_expression'') u"
  shows "marked u"
proof -
  from assms have "''['' \<in> set (yield u)"
    by (auto simp add: conforms_sym [OF rules_inline_array_expression]
        inline_array_expression_def conforms_SEQ conforms_seq_Cons conforms_STRING)
  with marker_mem(2) show ?thesis by (rule markedI)
qed

lemma new_marked:
  assumes "conforms (SYMBOL ''new_expression'') u"
  shows "marked u"
proof -
  from assms have "''new'' \<in> set (yield u)"
    by (auto simp add: conforms_sym [OF rules_new_expression] new_expression_def
        conforms_PREC_LEFT conforms_SEQ conforms_seq_Cons conforms_STRING)
  with marker_mem(15) show ?thesis by (rule markedI)
qed

lemma choice_strings_single:
  assumes "conforms (CHOICE (map STRING ss)) t"
  shows "\<exists>x. yield t = [x]"
  using choice_strings [OF assms] by blast

lemma primitive_single:
  assumes "conforms (SYMBOL ''_primitive_type'') u"
  shows "(\<exists>x. yield u = [x]) \<or> marked u"
proof -
  from assms obtain i v where u: "u = Sym ''_primitive_type'' (Prec 0 LeftAssoc (Alt i v))"
    and i: "i < 9"
    and v: "conforms ([
     SEQ [STRING ''address'', OPTIONAL (STRING ''payable'')],
     STRING ''bool'',
     STRING ''string'',
     STRING ''var'',
     SYMBOL ''_int'',
     SYMBOL ''_uint'',
     SYMBOL ''_bytes'',
     SYMBOL ''_fixed'',
     SYMBOL ''_ufixed''] ! i) v"
    by (auto simp add: conforms_sym [OF rules_u_primitive_type] u_primitive_type_def
        conforms_PREC_LEFT conforms_CHOICE)
  from i consider (address) "i = 0" | (bool) "i = 1" | (string) "i = 2" | (var) "i = 3"
    | (int) "i = 4" | (uint) "i = 5" | (bytes) "i = 6" | (fixed) "i = 7" | (ufixed) "i = 8"
    by atomize_elim presburger
  then have "(\<exists>x. yield v = [x]) \<or> ''payable'' \<in> set (yield v)"
  proof cases
    case address
    with v show ?thesis
      by (auto simp add: conforms_SEQ conforms_seq_Cons conforms_seq_Nil conforms_STRING
          conforms_OPTIONAL)
  next
    case int
    with v obtain x where x: "v = Sym ''_int'' x" and "conforms u_int x"
      by (auto simp add: conforms_sym [OF rules_u_int])
    from this(2) have "\<exists>w. yield x = [w]"
      unfolding u_int_def by (rule choice_strings_single)
    with x show ?thesis by simp
  next
    case uint
    with v obtain x where x: "v = Sym ''_uint'' x" and "conforms u_uint x"
      by (auto simp add: conforms_sym [OF rules_u_uint])
    from this(2) have "\<exists>w. yield x = [w]"
      unfolding u_uint_def by (rule choice_strings_single)
    with x show ?thesis by simp
  next
    case bytes
    with v obtain x where x: "v = Sym ''_bytes'' x" and "conforms u_bytes x"
      by (auto simp add: conforms_sym [OF rules_u_bytes])
    from this(2) have "\<exists>w. yield x = [w]"
      unfolding u_bytes_def by (rule choice_strings_single)
    with x show ?thesis by simp
  next
    case fixed
    with v show ?thesis
      by (auto simp add: conforms_sym [OF rules_u_fixed] u_fixed_def conforms_CHOICE
          conforms_STRING conforms_PATTERN choose)
  next
    case ufixed
    with v show ?thesis
      by (auto simp add: conforms_sym [OF rules_u_ufixed] u_ufixed_def conforms_CHOICE
          conforms_STRING conforms_PATTERN choose)
  qed (use v in \<open>auto simp add: conforms_STRING\<close>)
  with u marker_mem(13) show ?thesis by (auto intro: markedI)
qed

lemma user_defined_single:
  assumes "conforms (SYMBOL ''_user_defined_type'') u"
  shows "(\<exists>x. yield u = [x]) \<or> marked u"
proof -
  from assms obtain x ts where u: "u = Sym ''_user_defined_type''
      (Prec PREC_USER_TYPE LeftAssoc (Items [Sym ''identifier'' (Tok x), Rep ts]))"
    and ts: "conforms_rep (SEQ [STRING ''.'', SYMBOL ''identifier'']) ts"
    by (auto simp add: conforms_sym [OF rules_u_user_defined_type]
        conforms_sym [OF rules_identifier] u_user_defined_type_def identifier_rule_def
        conforms_PREC_LEFT conforms_SEQ conforms_seq_Cons conforms_seq_Nil conforms_PATTERN
        conforms_REPEAT)
  show ?thesis
  proof (cases ts)
    case Nil
    with u show ?thesis by simp
  next
    case (Cons t ts')
    with ts have "conforms (SEQ [STRING ''.'', SYMBOL ''identifier'']) t" by simp
    then have "''.'' \<in> set (yield t)"
      by (auto simp add: conforms_SEQ conforms_seq_Cons conforms_STRING)
    with u Cons have "''.'' \<in> set (yield u)" by simp
    with marker_mem(4) have "marked u" by (rule markedI)
    then show ?thesis ..
  qed
qed

lemma string_marked:
  assumes "conforms (SYMBOL ''string'') u"
  shows "[dquote] \<in> set (yield u) \<or> [squote] \<in> set (yield u)"
  using assms
  by (auto simp add: conforms_sym [OF rules_string] string_rule_def conforms_CHOICE
      conforms_SEQ conforms_seq_Cons conforms_STRING choose)

lemma string_literal_marked:
  assumes "conforms (SYMBOL ''string_literal'') u"
  shows "marked u"
proof -
  from assms obtain s ss where u: "u = Sym ''string_literal'' (Prec 0 LeftAssoc (Rep (s # ss)))"
    and "conforms (SYMBOL ''string'') s"
    by (auto simp add: conforms_sym [OF rules_string_literal] string_literal_def
        conforms_PREC_LEFT conforms_REPEAT1 neq_Nil_conv)
  with string_marked [of s] have "[dquote] \<in> set (yield u) \<or> [squote] \<in> set (yield u)"
    by auto
  with marker_mem(19,20) show ?thesis by (auto intro: markedI)
qed

lemma hex_string_literal_marked:
  assumes "conforms (SYMBOL ''hex_string_literal'') u"
  shows "marked u"
proof -
  from assms obtain s ss where u: "u = Sym ''hex_string_literal''
      (Prec 0 LeftAssoc (Rep (s # ss)))"
    and "\<exists>rest. yield s = ''hex'' # rest"
    by (auto simp add: conforms_sym [OF rules_hex_string_literal] hex_string_literal_def
        conforms_PREC_LEFT conforms_REPEAT1 neq_Nil_conv conforms_SEQ conforms_seq_Cons
        conforms_STRING)
  then have "''hex'' \<in> set (yield u)" by auto
  with marker_mem(16) show ?thesis by (rule markedI)
qed

lemma unicode_string_literal_marked:
  assumes "conforms (SYMBOL ''unicode_string_literal'') u"
  shows "marked u"
proof -
  from assms obtain s ss where u: "u = Sym ''unicode_string_literal''
      (Prec 0 LeftAssoc (Rep (s # ss)))"
    and "\<exists>rest. yield s = ''unicode'' # rest"
    by (auto simp add: conforms_sym [OF rules_unicode_string_literal]
        unicode_string_literal_def conforms_PREC_LEFT conforms_REPEAT1 neq_Nil_conv
        conforms_SEQ conforms_seq_Cons conforms_STRING)
  then have "''unicode'' \<in> set (yield u)" by auto
  with marker_mem(17) show ?thesis by (rule markedI)
qed

lemma boolean_literal_single:
  assumes "conforms (SYMBOL ''boolean_literal'') u"
  shows "\<exists>x. yield u = [x]"
  using assms
  by (auto simp add: conforms_sym [OF rules_boolean_literal] boolean_literal_def
      conforms_CHOICE conforms_STRING choose)

lemma number_literal_first:
  assumes "conforms (SYMBOL ''number_literal'') u"
  shows "marked u \<or> (\<exists>d rest. yield u = d # rest \<and> is_mantissa d)"
proof -
  from number_literal_yield [OF assms] consider
    (decimal) d rest where "yield u = d # rest" "is_mantissa d"
  | (hex) rest where "yield u = ''0x'' # rest"
    by blast
  then show ?thesis
  proof cases
    case decimal
    then show ?thesis by blast
  next
    case hex
    with marker_mem(18) have "marked u" by (rule marked_first)
    then show ?thesis ..
  qed
qed

lemma literal_forms:
  assumes "conforms (SYMBOL ''literal'') u"
  shows "(\<exists>x. yield u = [x]) \<or> marked u \<or> (\<exists>d rest. yield u = d # rest \<and> is_mantissa d)"
proof -
  from assms obtain i v where u: "u = Sym ''literal'' (Alt i v)" and i: "i < 5"
    and v: "conforms ([SYMBOL ''string_literal'', SYMBOL ''number_literal'',
      SYMBOL ''boolean_literal'', SYMBOL ''hex_string_literal'',
      SYMBOL ''unicode_string_literal''] ! i) v"
    by (auto simp add: conforms_sym [OF rules_literal] literal_def conforms_CHOICE)
  from i consider "i = 0" | "i = 1" | "i = 2" | "i = 3" | "i = 4" by linarith
  then have "(\<exists>x. yield v = [x]) \<or> marked v \<or>
      (\<exists>d rest. yield v = d # rest \<and> is_mantissa d)"
  proof cases
    case 1
    with v string_literal_marked [of v] show ?thesis by simp
  next
    case 2
    with v number_literal_first [of v] show ?thesis by auto
  next
    case 3
    with v boolean_literal_single [of v] show ?thesis by simp
  next
    case 4
    with v hex_string_literal_marked [of v] show ?thesis by simp
  next
    case 5
    with v unicode_string_literal_marked [of v] show ?thesis by simp
  qed
  with u show ?thesis by (simp add: marked_wrap)
qed

lemma identifier_single:
  assumes "conforms (SYMBOL ''identifier'') u"
  shows "\<exists>x. yield u = [x]"
  using assms
  by (auto simp add: conforms_sym [OF rules_identifier] identifier_rule_def conforms_PATTERN)

lemma primary_expression_forms:
  assumes "conforms (SYMBOL ''primary_expression'') u"
  shows "(\<exists>x. yield u = [x]) \<or> marked u \<or> (\<exists>d rest. yield u = d # rest \<and> is_mantissa d)"
proof -
  from assms obtain i v where u: "u = Sym ''primary_expression'' (Alt i v)" and i: "i < 13"
    and v: "conforms ([
     SYMBOL ''parenthesized_expression'',
     SYMBOL ''member_expression'',
     SYMBOL ''array_access'',
     SYMBOL ''slice_access'',
     SYMBOL ''_primitive_type'',
     SYMBOL ''assignment_expression'',
     SYMBOL ''augmented_assignment_expression'',
     SYMBOL ''_user_defined_type'',
     SYMBOL ''tuple_expression'',
     SYMBOL ''inline_array_expression'',
     SYMBOL ''identifier'',
     SYMBOL ''literal'',
     SYMBOL ''new_expression''] ! i) v"
    by (auto simp add: conforms_sym [OF rules_primary_expression] primary_expression_def
        conforms_CHOICE)
  from i consider (parenthesized) "i = 0" | (member) "i = 1" | (array_access) "i = 2"
    | (slice_access) "i = 3" | (primitive) "i = 4" | (assignment) "i = 5" | (augmented) "i = 6"
    | (user_defined) "i = 7" | (tuple) "i = 8" | (inline_array) "i = 9" | (name) "i = 10"
    | (literal) "i = 11" | (new) "i = 12"
    by atomize_elim presburger
  then have "(\<exists>x. yield v = [x]) \<or> marked v \<or>
      (\<exists>d rest. yield v = d # rest \<and> is_mantissa d)"
  proof cases
    case parenthesized
    with v parenthesized_marked [of v] show ?thesis by simp
  next
    case member
    with v member_marked [of v] show ?thesis by simp
  next
    case array_access
    with v array_access_marked [of v] show ?thesis by simp
  next
    case slice_access
    with v slice_access_marked [of v] show ?thesis by simp
  next
    case primitive
    with v primitive_single [of v] show ?thesis by auto
  next
    case assignment
    with v assignment_marked [of v] show ?thesis by simp
  next
    case augmented
    with v augmented_assignment_marked [of v] show ?thesis by simp
  next
    case user_defined
    with v user_defined_single [of v] show ?thesis by auto
  next
    case tuple
    with v tuple_marked [of v] show ?thesis by simp
  next
    case inline_array
    with v inline_array_marked [of v] show ?thesis by simp
  next
    case name
    with v identifier_single [of v] show ?thesis by simp
  next
    case literal
    with v literal_forms [of v] show ?thesis by simp
  next
    case new
    with v new_marked [of v] show ?thesis by simp
  qed
  with u show ?thesis by (simp add: marked_wrap)
qed

lemma binary_expression_shape:
  assumes "conforms (SYMBOL ''_expression'') (Sym ''_expression'' (Alt 0 v))"
  shows "\<exists>j l r. Sym ''_expression'' (Alt 0 v) = binary_expr j l r \<and> j < 21 \<and>
           conforms (SYMBOL ''_expression'') l \<and> conforms (SYMBOL ''_expression'') r"
proof -
  from assms have "conforms (SYMBOL ''binary_expression'') v"
    by (simp add: rules_u_expression u_expression_def)
  then obtain j w where v: "v = Sym ''binary_expression'' (Alt j w)"
    and j: "j < length binary_operators"
    and w: "conforms (binary_alternative (binary_operators ! j)) w"
    by (auto simp add: conforms_sym [OF rules_binary_expression] binary_expression_def
        conforms_CHOICE)
  from w obtain l r where "w = Prec (snd (binary_operators ! j)) LeftAssoc (Items [
        Fld ''left'' l, Fld ''operator'' (Tok (fst (binary_operators ! j))), Fld ''right'' r])"
    and "conforms (SYMBOL ''_expression'') l" and "conforms (SYMBOL ''_expression'') r"
    by (auto simp add: binary_alternative_def case_prod_unfold conforms_PREC_LEFT
        conforms_SEQ conforms_seq_Cons conforms_seq_Nil conforms_FIELD conforms_STRING)
  with v j show ?thesis by (auto simp add: binary_expr_def binary_operators_def)
qed

lemma ternary_expression_shape:
  assumes "conforms (SYMBOL ''_expression'') (Sym ''_expression'' (Alt 8 v))"
  shows "\<exists>c a b. Sym ''_expression'' (Alt 8 v) = ternary_expr c a b \<and>
           conforms (SYMBOL ''_expression'') c \<and> conforms (SYMBOL ''_expression'') a \<and>
           conforms (SYMBOL ''_expression'') b"
proof -
  from assms have "conforms (SYMBOL ''ternary_expression'') v"
    by (simp add: rules_u_expression u_expression_def)
  then show ?thesis
    by (auto simp add: conforms_sym [OF rules_ternary_expression] ternary_expression_def
        conforms_PREC_LEFT conforms_SEQ conforms_seq_Cons conforms_seq_Nil conforms_STRING
        ternary_expr_def)
qed

text \<open>
  An expression is a binary operation, a conditional, a single token, an expression that
  contains a marker, or an expression that begins with a decimal number.
\<close>

lemma expression_forms:
  assumes "conforms (SYMBOL ''_expression'') t"
  shows "(\<exists>j l r. t = binary_expr j l r \<and> j < 21 \<and>
            conforms (SYMBOL ''_expression'') l \<and> conforms (SYMBOL ''_expression'') r) \<or>
         (\<exists>c a b. t = ternary_expr c a b \<and> conforms (SYMBOL ''_expression'') c \<and>
            conforms (SYMBOL ''_expression'') a \<and> conforms (SYMBOL ''_expression'') b) \<or>
         (\<exists>x. yield t = [x]) \<or> marked t \<or>
         (\<exists>d rest. yield t = d # rest \<and> is_mantissa d)"
proof -
  from assms obtain i v where t: "t = Sym ''_expression'' (Alt i v)" and i: "i < 10"
    and v: "conforms ([
     SYMBOL ''binary_expression'',
     SYMBOL ''unary_expression'',
     SYMBOL ''update_expression'',
     SYMBOL ''call_expresion'',
     SYMBOL ''payable_conversion_expression'',
     SYMBOL ''meta_type_expression'',
     SYMBOL ''primary_expression'',
     SYMBOL ''struct_expression'',
     SYMBOL ''ternary_expression'',
     SYMBOL ''type_cast_expression''] ! i) v"
    by (auto simp add: conforms_sym [OF rules_u_expression] u_expression_def conforms_CHOICE)
  from i consider (binary) "i = 0" | (unary) "i = 1" | (update) "i = 2" | (call) "i = 3"
    | (payable) "i = 4" | (meta_type) "i = 5" | (primary) "i = 6" | (struct) "i = 7"
    | (ternary) "i = 8" | (type_cast) "i = 9"
    by atomize_elim presburger
  then show ?thesis
  proof cases
    case binary
    with assms t binary_expression_shape [of v] show ?thesis by simp
  next
    case unary
    with v unary_marked [of v] t show ?thesis by (simp add: marked_wrap)
  next
    case update
    with v update_marked [of v] t show ?thesis by (simp add: marked_wrap)
  next
    case call
    with v call_marked [of v] t show ?thesis by (simp add: marked_wrap)
  next
    case payable
    with v payable_conversion_marked [of v] t show ?thesis by (simp add: marked_wrap)
  next
    case meta_type
    with v meta_type_marked [of v] t show ?thesis by (simp add: marked_wrap)
  next
    case primary
    with v primary_expression_forms [of v] t show ?thesis by (auto simp add: marked_wrap)
  next
    case struct
    with v struct_expression_marked [of v] t show ?thesis by (simp add: marked_wrap)
  next
    case ternary
    with assms t ternary_expression_shape [of v] show ?thesis by simp
  next
    case type_cast
    with v type_cast_marked [of v] t show ?thesis by (simp add: marked_wrap)
  qed
qed

section \<open>Exponentiation\<close>

lemma exponent_operator: "binary_operators ! 13 = (''**'', 7)"
  by (simp add: binary_operators_def PREC_EXP_def)

lemma conforms_binary_13:
  "conforms (SYMBOL ''_expression'') (binary_expr 13 l r) \<longleftrightarrow>
     conforms (SYMBOL ''_expression'') l \<and> conforms (SYMBOL ''_expression'') r"
  by (simp add: binary_expr_def rules_u_expression rules_binary_expression u_expression_def
      binary_expression_def binary_alternative_def binary_operators_def PREC_EXP_def)

lemma conforms_ident_expr:
  "conforms (SYMBOL ''_expression'') (ident_expr x) \<longleftrightarrow> is_identifier x"
  by (simp add: ident_expr_def ident_node_def rules_u_expression rules_primary_expression
      rules_identifier u_expression_def primary_expression_def is_identifier_def)

lemma admitted_ident_expr: "admitted (ident_expr x)"
  by (simp add: ident_expr_def ident_node_def nesting)

lemma exponent_left_nested:
  assumes "is_identifier a" and "is_identifier b" and "is_identifier c"
  shows "parses ''_expression'' [a, ''**'', b, ''**'', c]
     (binary_expr 13 (binary_expr 13 (ident_expr a) (ident_expr b)) (ident_expr c))"
proof -
  have "conforms (SYMBOL ''_expression'')
     (binary_expr 13 (binary_expr 13 (ident_expr a) (ident_expr b)) (ident_expr c))"
    using assms by (simp add: conforms_binary_13 conforms_ident_expr)
  moreover have "admitted
     (binary_expr 13 (binary_expr 13 (ident_expr a) (ident_expr b)) (ident_expr c))"
    by (simp add: binary_expr_def exponent_operator ident_expr_def ident_node_def nesting)
  moreover have "yield
     (binary_expr 13 (binary_expr 13 (ident_expr a) (ident_expr b)) (ident_expr c))
     = [a, ''**'', b, ''**'', c]"
    by (simp add: binary_expr_def exponent_operator ident_expr_def ident_node_def)
  ultimately show ?thesis by (simp add: parses_def)
qed

lemma exponent_right_nested_not_admitted:
  assumes "conforms (SYMBOL ''_expression'') r1"
  shows "\<not> admitted (binary_expr 13 l (binary_expr 13 r1 r2))"
proof -
  from assms obtain x where "r1 = Sym ''_expression'' x"
    by (auto simp add: conforms_SYMBOL)
  then show ?thesis
    by (simp add: binary_expr_def exponent_operator nesting)
qed

lemma exponent_never_right_nested:
  "\<not> parses ''_expression'' ws (binary_expr 13 l (binary_expr 13 r1 r2))"
proof
  assume p: "parses ''_expression'' ws (binary_expr 13 l (binary_expr 13 r1 r2))"
  then have "conforms (SYMBOL ''_expression'') r1"
    by (simp add: parses_def conforms_binary_13)
  from exponent_right_nested_not_admitted [OF this] p show False
    by (simp add: parses_def)
qed

lemma identifiers_abc: "is_identifier ''a''" "is_identifier ''b''" "is_identifier ''c''"
  "is_identifier ''d''" "is_identifier ''e''"
  by (simp_all add: is_identifier_def identifier_rule_def chars)

section \<open>Chains of operators over plain tokens\<close>

lemma split_token:
  assumes "xs @ k # ys = ws"
  shows "\<exists>i < length ws. ws ! i = k \<and> xs = take i ws \<and> ys = drop (Suc i) ws"
proof -
  from assms have "length xs < length ws \<and> ws ! length xs = k \<and> xs = take (length xs) ws \<and>
      ys = drop (Suc (length xs)) ws"
    by auto
  then show ?thesis by blast
qed

lemma binary_yield:
  "yield (binary_expr j l r) = yield l @ fst (binary_operators ! j) # yield r"
  by (simp add: binary_expr_def)

lemma ternary_yield:
  "yield (ternary_expr c a b) = yield c @ ''?'' # yield a @ '':'' # yield b"
  by (simp add: ternary_expr_def)

lemma ternary_question: "''?'' \<in> set (yield (ternary_expr c a b))"
  by (simp add: ternary_yield)

lemma operator_member:
  assumes "j < 21"
  shows "fst (binary_operators ! j) \<in> set (map fst binary_operators)"
proof -
  have "length binary_operators = 21" by (simp add: binary_operators_def)
  with assms have "binary_operators ! j \<in> set binary_operators" by simp
  then show ?thesis by (simp only: set_map) (rule imageI)
qed

lemma plain_not_operator: "plain x \<Longrightarrow> j < 21 \<Longrightarrow> fst (binary_operators ! j) \<noteq> x"
  using operator_member [of j] by (auto simp add: plain_def)

lemma exponent_only_13:
  assumes "j < 21" and "fst (binary_operators ! j) = ''**''"
  shows "j = 13"
proof -
  from assms(1) consider "j = 0" | "j = 1" | "j = 2" | "j = 3" | "j = 4" | "j = 5" | "j = 6"
    | "j = 7" | "j = 8" | "j = 9" | "j = 10" | "j = 11" | "j = 12" | "j = 13" | "j = 14"
    | "j = 15" | "j = 16" | "j = 17" | "j = 18" | "j = 19" | "j = 20"
    by atomize_elim presburger
  then show ?thesis using assms(2) by cases (simp_all add: binary_operators_def)
qed

lemma not_operators:
  "''?'' \<notin> set (map fst binary_operators)" "'':'' \<notin> set (map fst binary_operators)"
  by (simp_all add: binary_operators_def)

lemma not_markers:
  "''**'' \<notin> set markers" "''?'' \<notin> set markers" "'':'' \<notin> set markers"
  by (simp_all add: markers_def dquote_def squote_def)

lemma marked_yield: "marked t \<Longrightarrow> \<exists>k \<in> set markers. k \<in> set (yield t)"
  by (simp add: marked_def list_ex_iff)

lemma plain_letters: "plain ''a''" "plain ''b''" "plain ''c''" "plain ''d''" "plain ''e''"
  by (simp_all add: plain_def markers_def binary_operators_def is_mantissa_def
      decimal_number_def dquote_def squote_def chars)

text \<open>\<^verbatim>\<open>x ** y\<close> over plain tokens is one exponentiation.\<close>

lemma exponent_pair:
  assumes t: "conforms (SYMBOL ''_expression'') t" and y: "yield t = [x, ''**'', y]"
    and px: "plain x" and py: "plain y"
  shows "\<exists>l r. t = binary_expr 13 l r \<and> conforms (SYMBOL ''_expression'') l \<and>
           conforms (SYMBOL ''_expression'') r \<and> yield l = [x] \<and> yield r = [y]"
proof -
  from expression_forms [OF t] consider
    (binary) j l r where "t = binary_expr j l r" "j < 21"
      "conforms (SYMBOL ''_expression'') l" "conforms (SYMBOL ''_expression'') r"
  | (ternary) c a b where "t = ternary_expr c a b"
  | (single) z where "yield t = [z]"
  | (marked) "marked t"
  | (mantissa) d rest where "yield t = d # rest" "is_mantissa d"
    by blast
  then show ?thesis
  proof cases
    case binary
    with y have "yield l @ fst (binary_operators ! j) # yield r = [x, ''**'', y]"
      by (simp add: binary_yield)
    from split_token [OF this] obtain i where i0: "i < length [x, ''**'', y]"
      and op: "[x, ''**'', y] ! i = fst (binary_operators ! j)"
      and l: "yield l = take i [x, ''**'', y]" and r: "yield r = drop (Suc i) [x, ''**'', y]"
      by blast
    from i0 have i: "i < 3" by simp
    from i consider "i = 0" | "i = 1" | "i = 2" by atomize_elim presburger
    then show ?thesis
    proof cases
      case 1
      with op plain_not_operator [OF px binary(2)] show ?thesis by simp
    next
      case 2
      with op have "fst (binary_operators ! j) = ''**''" by simp
      from exponent_only_13 [OF binary(2) this] binary l r 2 show ?thesis by auto
    next
      case 3
      with op plain_not_operator [OF py binary(2)] show ?thesis by simp
    qed
  next
    case ternary
    with y ternary_question [of c a b] have "''?'' \<in> set [x, ''**'', y]" by simp
    with px py show ?thesis by (auto simp add: plain_def)
  next
    case single
    with y show ?thesis by simp
  next
    case marked
    from marked_yield [OF this] y obtain k where "k \<in> set markers" "k \<in> set [x, ''**'', y]"
      by auto
    with px py not_markers(1) show ?thesis by (auto simp add: plain_def)
  next
    case mantissa
    with y px show ?thesis by (auto simp add: plain_def)
  qed
qed

text \<open>Every parse of \<^verbatim>\<open>x ** y ** z\<close> over plain tokens nests to the left.\<close>

lemma exponent_chain:
  assumes p: "parses ''_expression'' [x, ''**'', y, ''**'', z] t"
    and px: "plain x" and py: "plain y" and pz: "plain z"
  shows "\<exists>l1 l2 r. t = binary_expr 13 (binary_expr 13 l1 l2) r \<and>
           yield l1 = [x] \<and> yield l2 = [y] \<and> yield r = [z]"
proof -
  from p have t: "conforms (SYMBOL ''_expression'') t" and a: "admitted t"
    and y: "yield t = [x, ''**'', y, ''**'', z]"
    by (simp_all add: parses_def)
  from expression_forms [OF t] consider
    (binary) j l r where "t = binary_expr j l r" "j < 21"
      "conforms (SYMBOL ''_expression'') l" "conforms (SYMBOL ''_expression'') r"
  | (ternary) c a b where "t = ternary_expr c a b"
  | (single) w where "yield t = [w]"
  | (marked) "marked t"
  | (mantissa) d rest where "yield t = d # rest" "is_mantissa d"
    by blast
  then show ?thesis
  proof cases
    case binary
    with y have "yield l @ fst (binary_operators ! j) # yield r = [x, ''**'', y, ''**'', z]"
      by (simp add: binary_yield)
    from split_token [OF this] obtain i where i0: "i < length [x, ''**'', y, ''**'', z]"
      and op: "[x, ''**'', y, ''**'', z] ! i = fst (binary_operators ! j)"
      and l: "yield l = take i [x, ''**'', y, ''**'', z]"
      and r: "yield r = drop (Suc i) [x, ''**'', y, ''**'', z]"
      by blast
    from i0 have i: "i < 5" by simp
    from i consider "i = 0" | "i = 1" | "i = 2" | "i = 3" | "i = 4"
      by atomize_elim presburger
    then show ?thesis
    proof cases
      case 1
      with op plain_not_operator [OF px binary(2)] show ?thesis by simp
    next
      case 2
      with op have "fst (binary_operators ! j) = ''**''" by simp
      from exponent_only_13 [OF binary(2) this] have j: "j = 13" .
      from r 2 have "yield r = [y, ''**'', z]" by simp
      from exponent_pair [OF binary(4) this py pz] obtain r1 r2
        where "r = binary_expr 13 r1 r2" and "conforms (SYMBOL ''_expression'') r1"
        by blast
      with binary(1) j a exponent_right_nested_not_admitted [of r1 l r2] show ?thesis
        by simp
    next
      case 3
      with op plain_not_operator [OF py binary(2)] show ?thesis by simp
    next
      case 4
      with op have "fst (binary_operators ! j) = ''**''" by simp
      from exponent_only_13 [OF binary(2) this] have j: "j = 13" .
      from l 4 have "yield l = [x, ''**'', y]" by (simp add: numeral_3_eq_3)
      from exponent_pair [OF binary(3) this px py] obtain l1 l2
        where "l = binary_expr 13 l1 l2" "yield l1 = [x]" "yield l2 = [y]"
        by blast
      with binary(1) j r 4 show ?thesis by auto
    next
      case 5
      with op plain_not_operator [OF pz binary(2)] show ?thesis by simp
    qed
  next
    case ternary
    with y ternary_question [of c a b] have "''?'' \<in> set [x, ''**'', y, ''**'', z]" by simp
    with px py pz show ?thesis by (auto simp add: plain_def)
  next
    case single
    with y show ?thesis by simp
  next
    case marked
    from marked_yield [OF this] y obtain k
      where "k \<in> set markers" "k \<in> set [x, ''**'', y, ''**'', z]"
      by auto
    with px py pz not_markers(1) show ?thesis by (auto simp add: plain_def)
  next
    case mantissa
    with y px show ?thesis by (auto simp add: plain_def)
  qed
qed

text \<open>
  C1, as the grammar has it. Every binary operator, \<^verbatim>\<open>**\<close> among them, is declared with
  \<^verbatim>\<open>prec.left\<close>: \<^verbatim>\<open>a ** b ** c\<close> parses as \<^verbatim>\<open>(a ** b) ** c\<close>, in no parse is the
  right operand of a \<^verbatim>\<open>**\<close> node itself a \<^verbatim>\<open>**\<close> node, and every parse of
  \<^verbatim>\<open>a ** b ** c\<close> over plain tokens is a \<^verbatim>\<open>**\<close> node whose left operand is the \<^verbatim>\<open>**\<close> node
  of \<^verbatim>\<open>a\<close> and \<^verbatim>\<open>b\<close>.
\<close>

theorem exponentiation_left_associative:
  "(\<forall>a b c. is_identifier a \<and> is_identifier b \<and> is_identifier c \<longrightarrow>
      parses ''_expression'' [a, ''**'', b, ''**'', c]
        (binary_expr 13 (binary_expr 13 (ident_expr a) (ident_expr b)) (ident_expr c)))
   \<and> (\<forall>ws l r1 r2. \<not> parses ''_expression'' ws (binary_expr 13 l (binary_expr 13 r1 r2)))
   \<and> (\<forall>a b c t. plain a \<and> plain b \<and> plain c \<and>
        parses ''_expression'' [a, ''**'', b, ''**'', c] t \<longrightarrow>
      (\<exists>x y z. t = binary_expr 13 (binary_expr 13 x y) z \<and>
         yield x = [a] \<and> yield y = [b] \<and> yield z = [c]))"
proof (intro conjI allI impI)
  fix a b c
  assume "is_identifier a \<and> is_identifier b \<and> is_identifier c"
  then show "parses ''_expression'' [a, ''**'', b, ''**'', c]
      (binary_expr 13 (binary_expr 13 (ident_expr a) (ident_expr b)) (ident_expr c))"
    by (simp add: exponent_left_nested)
next
  fix ws l r1 r2
  show "\<not> parses ''_expression'' ws (binary_expr 13 l (binary_expr 13 r1 r2))"
    by (rule exponent_never_right_nested)
next
  fix a b c t
  assume "plain a \<and> plain b \<and> plain c \<and> parses ''_expression'' [a, ''**'', b, ''**'', c] t"
  then show "\<exists>x y z. t = binary_expr 13 (binary_expr 13 x y) z \<and>
      yield x = [a] \<and> yield y = [b] \<and> yield z = [c]"
    using exponent_chain [of a b c t] by blast
qed

theorem exponentiation_left_associative_witness:
  "is_identifier ''a'' \<and> is_identifier ''b'' \<and> is_identifier ''c''
   \<and> plain ''a'' \<and> plain ''b'' \<and> plain ''c''
   \<and> parses ''_expression'' [''a'', ''**'', ''b'', ''**'', ''c'']
        (binary_expr 13 (binary_expr 13 (ident_expr ''a'') (ident_expr ''b''))
           (ident_expr ''c''))
   \<and> (\<exists>x y z. binary_expr 13 (binary_expr 13 (ident_expr ''a'') (ident_expr ''b''))
           (ident_expr ''c'') = binary_expr 13 (binary_expr 13 x y) z \<and>
         yield x = [''a''] \<and> yield y = [''b''] \<and> yield z = [''c''])"
proof -
  note ids = identifiers_abc(1-3) and pl = plain_letters(1-3)
  from exponentiation_left_associative ids
  have p: "parses ''_expression'' [''a'', ''**'', ''b'', ''**'', ''c'']
      (binary_expr 13 (binary_expr 13 (ident_expr ''a'') (ident_expr ''b'')) (ident_expr ''c''))"
    by blast
  with exponentiation_left_associative pl
  have "\<exists>x y z. binary_expr 13 (binary_expr 13 (ident_expr ''a'') (ident_expr ''b''))
           (ident_expr ''c'') = binary_expr 13 (binary_expr 13 x y) z \<and>
         yield x = [''a''] \<and> yield y = [''b''] \<and> yield z = [''c'']"
    by blast
  with p ids pl show ?thesis by blast
qed

text \<open>
  Against C1 as stated: the tree of \<^verbatim>\<open>a ** (b ** c)\<close> is a derivation of
  \<^verbatim>\<open>a ** b ** c\<close>, and the left associativity of \<^verbatim>\<open>**\<close> excludes it.
\<close>

theorem exponentiation_not_right_associative:
  "conforms (SYMBOL ''_expression'')
     (binary_expr 13 (ident_expr ''a'') (binary_expr 13 (ident_expr ''b'') (ident_expr ''c'')))
   \<and> yield (binary_expr 13 (ident_expr ''a'')
        (binary_expr 13 (ident_expr ''b'') (ident_expr ''c'')))
      = [''a'', ''**'', ''b'', ''**'', ''c'']
   \<and> \<not> parses ''_expression'' [''a'', ''**'', ''b'', ''**'', ''c'']
        (binary_expr 13 (ident_expr ''a'')
           (binary_expr 13 (ident_expr ''b'') (ident_expr ''c'')))"
proof (intro conjI)
  show "conforms (SYMBOL ''_expression'')
     (binary_expr 13 (ident_expr ''a'') (binary_expr 13 (ident_expr ''b'') (ident_expr ''c'')))"
    by (simp add: conforms_binary_13 conforms_ident_expr identifiers_abc)
  show "yield (binary_expr 13 (ident_expr ''a'')
        (binary_expr 13 (ident_expr ''b'') (ident_expr ''c'')))
      = [''a'', ''**'', ''b'', ''**'', ''c'']"
    by (simp add: binary_expr_def exponent_operator ident_expr_def ident_node_def)
  show "\<not> parses ''_expression'' [''a'', ''**'', ''b'', ''**'', ''c'']
        (binary_expr 13 (ident_expr ''a'')
           (binary_expr 13 (ident_expr ''b'') (ident_expr ''c'')))"
    by (rule exponent_never_right_nested)
qed

section \<open>Conditional expressions\<close>

lemma conforms_ternary:
  "conforms (SYMBOL ''_expression'') (ternary_expr c a b) \<longleftrightarrow>
     conforms (SYMBOL ''_expression'') c \<and> conforms (SYMBOL ''_expression'') a \<and>
     conforms (SYMBOL ''_expression'') b"
  by (simp add: ternary_expr_def rules_u_expression rules_ternary_expression u_expression_def
      ternary_expression_def)

lemma ternary_left_nested:
  assumes "is_identifier a" and "is_identifier b" and "is_identifier c"
    and "is_identifier d" and "is_identifier e"
  shows "parses ''_expression'' [a, ''?'', b, '':'', c, ''?'', d, '':'', e]
     (ternary_expr (ternary_expr (ident_expr a) (ident_expr b) (ident_expr c))
        (ident_expr d) (ident_expr e))"
proof -
  have "conforms (SYMBOL ''_expression'')
     (ternary_expr (ternary_expr (ident_expr a) (ident_expr b) (ident_expr c))
        (ident_expr d) (ident_expr e))"
    using assms by (simp add: conforms_ternary conforms_ident_expr)
  moreover have "admitted
     (ternary_expr (ternary_expr (ident_expr a) (ident_expr b) (ident_expr c))
        (ident_expr d) (ident_expr e))"
    by (simp add: ternary_expr_def ident_expr_def ident_node_def nesting)
  moreover have "yield
     (ternary_expr (ternary_expr (ident_expr a) (ident_expr b) (ident_expr c))
        (ident_expr d) (ident_expr e))
     = [a, ''?'', b, '':'', c, ''?'', d, '':'', e]"
    by (simp add: ternary_expr_def ident_expr_def ident_node_def)
  ultimately show ?thesis by (simp add: parses_def)
qed

lemma ternary_never_right_nested:
  "\<not> parses ''_expression'' ws (ternary_expr c a (ternary_expr x y z))"
proof
  assume p: "parses ''_expression'' ws (ternary_expr c a (ternary_expr x y z))"
  then have "conforms (SYMBOL ''_expression'') c" and "conforms (SYMBOL ''_expression'') x"
    by (simp_all add: parses_def conforms_ternary)
  then obtain c' x' where "c = Sym ''_expression'' c'" and "x = Sym ''_expression'' x'"
    by (auto simp add: conforms_SYMBOL)
  then have "\<not> admitted (ternary_expr c a (ternary_expr x y z))"
    by (simp add: ternary_expr_def nesting)
  with p show False by (simp add: parses_def)
qed

section \<open>Chains of conditionals over plain tokens\<close>

lemma plain_not_punct: "plain x \<Longrightarrow> x \<noteq> ''?''" "plain x \<Longrightarrow> x \<noteq> '':''"
  by (simp_all add: plain_def)

lemma binary_operator_in_yield:
  "fst (binary_operators ! j) \<in> set (yield (binary_expr j l r))"
  by (simp add: binary_yield)

text \<open>
  An expression of more than one token, all of them plain or \<^verbatim>\<open>?\<close> or \<^verbatim>\<open>:\<close>, the first one
  plain, is a conditional.
\<close>

lemma ternary_only:
  assumes t: "conforms (SYMBOL ''_expression'') t" and y: "yield t = w # w' # ws"
    and all: "\<forall>k \<in> set (w # w' # ws). plain k \<or> k = ''?'' \<or> k = '':''"
    and first: "plain w"
  shows "\<exists>c a b. t = ternary_expr c a b \<and> conforms (SYMBOL ''_expression'') c \<and>
           conforms (SYMBOL ''_expression'') a \<and> conforms (SYMBOL ''_expression'') b"
proof -
  from expression_forms [OF t] consider
    (binary) j l r where "t = binary_expr j l r" "j < 21"
  | (ternary) c a b where "t = ternary_expr c a b" "conforms (SYMBOL ''_expression'') c"
      "conforms (SYMBOL ''_expression'') a" "conforms (SYMBOL ''_expression'') b"
  | (single) z where "yield t = [z]"
  | (marked) "marked t"
  | (mantissa) d rest where "yield t = d # rest" "is_mantissa d"
    by blast
  then show ?thesis
  proof cases
    case binary
    from binary(1) y binary_operator_in_yield [of j l r]
    have "fst (binary_operators ! j) \<in> set (w # w' # ws)" by simp
    with all have "plain (fst (binary_operators ! j)) \<or> fst (binary_operators ! j) = ''?'' \<or>
        fst (binary_operators ! j) = '':''"
      by blast
    moreover from operator_member [OF binary(2)] have "\<not> plain (fst (binary_operators ! j))"
      by (simp add: plain_def)
    moreover from operator_member [OF binary(2)] not_operators(1)
    have "fst (binary_operators ! j) \<noteq> ''?''" by metis
    moreover from operator_member [OF binary(2)] not_operators(2)
    have "fst (binary_operators ! j) \<noteq> '':''" by metis
    ultimately show ?thesis by blast
  next
    case ternary
    then show ?thesis by blast
  next
    case single
    with y show ?thesis by simp
  next
    case marked
    from marked_yield [OF this] y obtain k where k: "k \<in> set markers" "k \<in> set (w # w' # ws)"
      by auto
    with all have "plain k \<or> k = ''?'' \<or> k = '':''" by blast
    with k(1) not_markers show ?thesis by (auto simp add: plain_def)
  next
    case mantissa
    with y first show ?thesis by (auto simp add: plain_def)
  qed
qed

text \<open>\<^verbatim>\<open>x ? y : z\<close> over plain tokens is one conditional.\<close>

lemma ternary_single:
  assumes t: "conforms (SYMBOL ''_expression'') t" and y: "yield t = [x, ''?'', y, '':'', z]"
    and px: "plain x" and py: "plain y" and pz: "plain z"
  shows "\<exists>c a b. t = ternary_expr c a b \<and> yield c = [x] \<and> yield a = [y] \<and> yield b = [z]"
proof -
  from px py pz have "\<forall>k \<in> set [x, ''?'', y, '':'', z]. plain k \<or> k = ''?'' \<or> k = '':''"
    by simp
  from ternary_only [OF t y this px] obtain c a b where tern: "t = ternary_expr c a b"
    by blast
  with y have "yield c @ ''?'' # (yield a @ '':'' # yield b) = [x, ''?'', y, '':'', z]"
    by (simp add: ternary_yield)
  from split_token [OF this] obtain i where i0: "i < length [x, ''?'', y, '':'', z]"
    and q: "[x, ''?'', y, '':'', z] ! i = ''?''"
    and c: "yield c = take i [x, ''?'', y, '':'', z]"
    and rest: "yield a @ '':'' # yield b = drop (Suc i) [x, ''?'', y, '':'', z]"
    by blast
  from i0 have "i < 5" by simp
  then consider "i = 0" | "i = 1" | "i = 2" | "i = 3" | "i = 4"
    by atomize_elim presburger
  then have i: "i = 1"
    using q plain_not_punct(1) [OF px] plain_not_punct(1) [OF py] plain_not_punct(1) [OF pz]
    by cases simp_all
  with rest have "yield a @ '':'' # yield b = [y, '':'', z]" by simp
  from split_token [OF this] obtain k where k0: "k < length [y, '':'', z]"
    and q': "[y, '':'', z] ! k = '':''"
    and a: "yield a = take k [y, '':'', z]" and b: "yield b = drop (Suc k) [y, '':'', z]"
    by blast
  from k0 have "k < 3" by simp
  then consider "k = 0" | "k = 1" | "k = 2" by atomize_elim presburger
  then have k: "k = 1"
    using q' plain_not_punct(2) [OF py] plain_not_punct(2) [OF pz] by cases simp_all
  from tern c a b i k show ?thesis by auto
qed

text \<open>No expression spells \<^verbatim>\<open>y : z ? u\<close> over plain tokens.\<close>

lemma no_colon_first:
  assumes t: "conforms (SYMBOL ''_expression'') t" and y: "yield t = [y, '':'', z, ''?'', u]"
    and py: "plain y" and pz: "plain z" and pu: "plain u"
  shows False
proof -
  from py pz pu have "\<forall>k \<in> set [y, '':'', z, ''?'', u]. plain k \<or> k = ''?'' \<or> k = '':''"
    by simp
  from ternary_only [OF t y this py] obtain c a b where tern: "t = ternary_expr c a b"
    by blast
  with y have "yield c @ ''?'' # (yield a @ '':'' # yield b) = [y, '':'', z, ''?'', u]"
    by (simp add: ternary_yield)
  from split_token [OF this] obtain i where i0: "i < length [y, '':'', z, ''?'', u]"
    and q: "[y, '':'', z, ''?'', u] ! i = ''?''"
    and rest: "yield a @ '':'' # yield b = drop (Suc i) [y, '':'', z, ''?'', u]"
    by blast
  from i0 have "i < 5" by simp
  then consider "i = 0" | "i = 1" | "i = 2" | "i = 3" | "i = 4"
    by atomize_elim presburger
  then have i: "i = 3"
    using q plain_not_punct(1) [OF py] plain_not_punct(1) [OF pz] plain_not_punct(1) [OF pu]
    by cases simp_all
  with rest have "yield a @ '':'' # yield b = [u]" by simp
  from split_token [OF this] obtain k where "k < length [u]" and "[u] ! k = '':''"
    by blast
  with plain_not_punct(2) [OF pu] show False by simp
qed

text \<open>Every parse of \<^verbatim>\<open>x ? y : z ? u : v\<close> over plain tokens nests in the condition.\<close>

lemma ternary_chain:
  assumes p: "parses ''_expression'' [x, ''?'', y, '':'', z, ''?'', u, '':'', v] t"
    and px: "plain x" and py: "plain y" and pz: "plain z" and pu: "plain u" and pv: "plain v"
  shows "\<exists>c1 a1 b1 a b. t = ternary_expr (ternary_expr c1 a1 b1) a b \<and>
           yield c1 = [x] \<and> yield a1 = [y] \<and> yield b1 = [z] \<and> yield a = [u] \<and> yield b = [v]"
proof -
  from p have t: "conforms (SYMBOL ''_expression'') t"
    and yt: "yield t = [x, ''?'', y, '':'', z, ''?'', u, '':'', v]"
    by (simp_all add: parses_def)
  from px py pz pu pv
  have "\<forall>k \<in> set [x, ''?'', y, '':'', z, ''?'', u, '':'', v]. plain k \<or> k = ''?'' \<or> k = '':''"
    by simp
  from ternary_only [OF t yt this px] obtain c a b where tern: "t = ternary_expr c a b"
    and cc: "conforms (SYMBOL ''_expression'') c" and ca: "conforms (SYMBOL ''_expression'') a"
    and cb: "conforms (SYMBOL ''_expression'') b"
    by blast
  with yt have "yield c @ ''?'' # (yield a @ '':'' # yield b)
      = [x, ''?'', y, '':'', z, ''?'', u, '':'', v]"
    by (simp add: ternary_yield)
  from split_token [OF this] obtain m
    where m0: "m < length [x, ''?'', y, '':'', z, ''?'', u, '':'', v]"
    and q: "[x, ''?'', y, '':'', z, ''?'', u, '':'', v] ! m = ''?''"
    and c: "yield c = take m [x, ''?'', y, '':'', z, ''?'', u, '':'', v]"
    and rest: "yield a @ '':'' # yield b
      = drop (Suc m) [x, ''?'', y, '':'', z, ''?'', u, '':'', v]"
    by blast
  from m0 have "m < 9" by simp
  then consider "m = 1" | "m = 5" | "m = 0" | "m = 2" | "m = 4" | "m = 6" | "m = 8" | "m = 3"
    | "m = 7"
    by atomize_elim presburger
  then consider (first) "m = 1" | (second) "m = 5"
    using q plain_not_punct(1) [OF px] plain_not_punct(1) [OF py] plain_not_punct(1) [OF pz]
      plain_not_punct(1) [OF pu] plain_not_punct(1) [OF pv]
    by cases simp_all
  then show ?thesis
  proof cases
    case first
    with rest have "yield a @ '':'' # yield b = [y, '':'', z, ''?'', u, '':'', v]" by simp
    from split_token [OF this] obtain k
      where k0: "k < length [y, '':'', z, ''?'', u, '':'', v]"
      and q': "[y, '':'', z, ''?'', u, '':'', v] ! k = '':''"
      and a: "yield a = take k [y, '':'', z, ''?'', u, '':'', v]"
      and b: "yield b = drop (Suc k) [y, '':'', z, ''?'', u, '':'', v]"
      by blast
    from k0 have "k < 7" by simp
    then consider "k = 0" | "k = 1" | "k = 2" | "k = 3" | "k = 4" | "k = 5" | "k = 6"
      by atomize_elim presburger
    then consider (inner) "k = 1" | (outer) "k = 5"
      using q' plain_not_punct(2) [OF py] plain_not_punct(2) [OF pz]
        plain_not_punct(2) [OF pu] plain_not_punct(2) [OF pv]
      by cases simp_all
    then show ?thesis
    proof cases
      case inner
      with b have "yield b = [z, ''?'', u, '':'', v]" by simp
      from ternary_single [OF cb this pz pu pv] obtain c' a' b'
        where "b = ternary_expr c' a' b'"
        by blast
      with tern p ternary_never_right_nested show ?thesis by blast
    next
      case outer
      with a have "yield a = [y, '':'', z, ''?'', u]" by simp
      from no_colon_first [OF ca this py pz pu] show ?thesis ..
    qed
  next
    case second
    with c have yc: "yield c = [x, ''?'', y, '':'', z]" by simp
    from second rest have "yield a @ '':'' # yield b = [u, '':'', v]" by simp
    from split_token [OF this] obtain k where k0: "k < length [u, '':'', v]"
      and q': "[u, '':'', v] ! k = '':''"
      and a: "yield a = take k [u, '':'', v]" and b: "yield b = drop (Suc k) [u, '':'', v]"
      by blast
    from k0 have "k < 3" by simp
    then consider "k = 0" | "k = 1" | "k = 2" by atomize_elim presburger
    then have k: "k = 1"
      using q' plain_not_punct(2) [OF pu] plain_not_punct(2) [OF pv] by cases simp_all
    from ternary_single [OF cc yc px py pz] obtain c1 a1 b1
      where "c = ternary_expr c1 a1 b1" "yield c1 = [x]" "yield a1 = [y]" "yield b1 = [z]"
      by blast
    moreover from a b k have "yield a = [u]" and "yield b = [v]" by simp_all
    ultimately show ?thesis using tern by blast
  qed
qed

text \<open>
  C2, as the grammar has it. The conditional expression is declared with \<^verbatim>\<open>prec.left\<close>:
  \<^verbatim>\<open>a ? b : c ? d : e\<close> parses as \<^verbatim>\<open>(a ? b : c) ? d : e\<close>, the first conditional being
  the condition of the second, in no parse is the false-branch of a conditional
  itself a conditional, and every parse of \<^verbatim>\<open>a ? b : c ? d : e\<close> over plain tokens is a
  conditional whose condition is the conditional of \<^verbatim>\<open>a\<close>, \<^verbatim>\<open>b\<close> and \<^verbatim>\<open>c\<close>.
\<close>

theorem ternary_left_associative:
  "(\<forall>a b c d e. is_identifier a \<and> is_identifier b \<and> is_identifier c \<and> is_identifier d
        \<and> is_identifier e \<longrightarrow>
      parses ''_expression'' [a, ''?'', b, '':'', c, ''?'', d, '':'', e]
        (ternary_expr (ternary_expr (ident_expr a) (ident_expr b) (ident_expr c))
           (ident_expr d) (ident_expr e)))
   \<and> (\<forall>ws c a x y z. \<not> parses ''_expression'' ws (ternary_expr c a (ternary_expr x y z)))
   \<and> (\<forall>a b c d e t. plain a \<and> plain b \<and> plain c \<and> plain d \<and> plain e \<and>
        parses ''_expression'' [a, ''?'', b, '':'', c, ''?'', d, '':'', e] t \<longrightarrow>
      (\<exists>x y z u v. t = ternary_expr (ternary_expr x y z) u v \<and> yield x = [a] \<and>
         yield y = [b] \<and> yield z = [c] \<and> yield u = [d] \<and> yield v = [e]))"
proof (intro conjI allI impI)
  fix a b c d e
  assume "is_identifier a \<and> is_identifier b \<and> is_identifier c \<and> is_identifier d
      \<and> is_identifier e"
  then show "parses ''_expression'' [a, ''?'', b, '':'', c, ''?'', d, '':'', e]
      (ternary_expr (ternary_expr (ident_expr a) (ident_expr b) (ident_expr c))
         (ident_expr d) (ident_expr e))"
    by (simp add: ternary_left_nested)
next
  fix ws c a x y z
  show "\<not> parses ''_expression'' ws (ternary_expr c a (ternary_expr x y z))"
    by (rule ternary_never_right_nested)
next
  fix a b c d e t
  assume "plain a \<and> plain b \<and> plain c \<and> plain d \<and> plain e \<and>
      parses ''_expression'' [a, ''?'', b, '':'', c, ''?'', d, '':'', e] t"
  then show "\<exists>x y z u v. t = ternary_expr (ternary_expr x y z) u v \<and> yield x = [a] \<and>
      yield y = [b] \<and> yield z = [c] \<and> yield u = [d] \<and> yield v = [e]"
    using ternary_chain [of a b c d e t] by blast
qed

theorem ternary_left_associative_witness:
  "is_identifier ''a'' \<and> is_identifier ''b'' \<and> is_identifier ''c'' \<and> is_identifier ''d''
   \<and> is_identifier ''e''
   \<and> plain ''a'' \<and> plain ''b'' \<and> plain ''c'' \<and> plain ''d'' \<and> plain ''e''
   \<and> parses ''_expression'' [''a'', ''?'', ''b'', '':'', ''c'', ''?'', ''d'', '':'', ''e'']
        (ternary_expr (ternary_expr (ident_expr ''a'') (ident_expr ''b'') (ident_expr ''c''))
           (ident_expr ''d'') (ident_expr ''e''))
   \<and> (\<exists>x y z u v.
         ternary_expr (ternary_expr (ident_expr ''a'') (ident_expr ''b'') (ident_expr ''c''))
           (ident_expr ''d'') (ident_expr ''e'') = ternary_expr (ternary_expr x y z) u v \<and>
         yield x = [''a''] \<and> yield y = [''b''] \<and> yield z = [''c''] \<and> yield u = [''d''] \<and>
         yield v = [''e''])"
proof -
  note ids = identifiers_abc and pl = plain_letters
  from ternary_left_associative ids
  have p: "parses ''_expression'' [''a'', ''?'', ''b'', '':'', ''c'', ''?'', ''d'', '':'', ''e'']
      (ternary_expr (ternary_expr (ident_expr ''a'') (ident_expr ''b'') (ident_expr ''c''))
         (ident_expr ''d'') (ident_expr ''e''))"
    by blast
  with ternary_left_associative pl
  have "\<exists>x y z u v.
         ternary_expr (ternary_expr (ident_expr ''a'') (ident_expr ''b'') (ident_expr ''c''))
           (ident_expr ''d'') (ident_expr ''e'') = ternary_expr (ternary_expr x y z) u v \<and>
         yield x = [''a''] \<and> yield y = [''b''] \<and> yield z = [''c''] \<and> yield u = [''d''] \<and>
         yield v = [''e'']"
    by blast
  with p ids pl show ?thesis by blast
qed

text \<open>
  Against C2 as stated: the right-leaning tree of \<^verbatim>\<open>a ? b : (c ? d : e)\<close> is a derivation
  of \<^verbatim>\<open>a ? b : c ? d : e\<close>, and the left associativity of the conditional excludes it.
\<close>

theorem ternary_not_right_leaning:
  "conforms (SYMBOL ''_expression'')
     (ternary_expr (ident_expr ''a'') (ident_expr ''b'')
        (ternary_expr (ident_expr ''c'') (ident_expr ''d'') (ident_expr ''e'')))
   \<and> yield (ternary_expr (ident_expr ''a'') (ident_expr ''b'')
        (ternary_expr (ident_expr ''c'') (ident_expr ''d'') (ident_expr ''e'')))
      = [''a'', ''?'', ''b'', '':'', ''c'', ''?'', ''d'', '':'', ''e'']
   \<and> \<not> parses ''_expression'' [''a'', ''?'', ''b'', '':'', ''c'', ''?'', ''d'', '':'', ''e'']
        (ternary_expr (ident_expr ''a'') (ident_expr ''b'')
           (ternary_expr (ident_expr ''c'') (ident_expr ''d'') (ident_expr ''e'')))"
proof (intro conjI)
  show "conforms (SYMBOL ''_expression'')
     (ternary_expr (ident_expr ''a'') (ident_expr ''b'')
        (ternary_expr (ident_expr ''c'') (ident_expr ''d'') (ident_expr ''e'')))"
    by (simp add: conforms_ternary conforms_ident_expr identifiers_abc)
  show "yield (ternary_expr (ident_expr ''a'') (ident_expr ''b'')
        (ternary_expr (ident_expr ''c'') (ident_expr ''d'') (ident_expr ''e'')))
      = [''a'', ''?'', ''b'', '':'', ''c'', ''?'', ''d'', '':'', ''e'']"
    by (simp add: ternary_expr_def ident_expr_def ident_node_def)
  show "\<not> parses ''_expression'' [''a'', ''?'', ''b'', '':'', ''c'', ''?'', ''d'', '':'', ''e'']
        (ternary_expr (ident_expr ''a'') (ident_expr ''b'')
           (ternary_expr (ident_expr ''c'') (ident_expr ''d'') (ident_expr ''e'')))"
    by (rule ternary_never_right_nested)
qed

section \<open>Catch clauses\<close>

lemma not_identifier_brace: "\<not> is_identifier ''{''"
  by (simp add: is_identifier_def identifier_rule_def chars)

lemma not_identifier_paren: "\<not> is_identifier ''(''"
  by (simp add: is_identifier_def identifier_rule_def chars)

lemma is_identifier_Error: "is_identifier ''Error''"
  by (simp add: is_identifier_def identifier_rule_def chars)

lemma catch_shape:
  assumes "conforms (SYMBOL ''catch_clause'') t"
  shows "\<exists>h ss. t = catch_tree h (block_tree ss) \<and>
     (h = None \<or>
      (\<exists>c. h = Some (Items [Opt None, Sym ''_parameter_list'' (Items [Tok ''('', c, Tok '')''])])) \<or>
      (\<exists>x c. h = Some (Items [Opt (Some (Sym ''identifier'' (Tok x))),
                Sym ''_parameter_list'' (Items [Tok ''('', c, Tok '')''])])))"
  using assms
  by (auto simp add: inv conforms_SYMBOL rules_catch_clause rules_block_statement rules_u_parameter_list
      rules_identifier catch_clause_def block_statement_def u_parameter_list_def
      identifier_rule_def commaSep_def catch_tree_def block_tree_def)

lemma catch_named:
  assumes "parses ''catch_clause'' (''catch'' # x # rest) t" and "is_identifier x"
  shows "\<exists>rest'. rest = ''('' # rest'"
proof -
  from assms(1) have c: "conforms (SYMBOL ''catch_clause'') t"
    and y: "yield t = ''catch'' # x # rest"
    by (simp_all add: parses_def)
  from catch_shape [OF c] obtain h ss where t: "t = catch_tree h (block_tree ss)"
    and h: "h = None \<or>
      (\<exists>c. h = Some (Items [Opt None, Sym ''_parameter_list'' (Items [Tok ''('', c, Tok '')''])])) \<or>
      (\<exists>x c. h = Some (Items [Opt (Some (Sym ''identifier'' (Tok x))),
                Sym ''_parameter_list'' (Items [Tok ''('', c, Tok '')''])]))"
    by blast
  from h show ?thesis
  proof (elim disjE exE)
    assume "h = None"
    with t y have "x = ''{''" by (simp add: catch_tree_def block_tree_def)
    with assms(2) not_identifier_brace show ?thesis by simp
  next
    fix c assume "h = Some (Items [Opt None, Sym ''_parameter_list'' (Items [Tok ''('', c, Tok '')''])])"
    with t y have "x = ''(''" by (simp add: catch_tree_def block_tree_def)
    with assms(2) not_identifier_paren show ?thesis by simp
  next
    fix x' c assume "h = Some (Items [Opt (Some (Sym ''identifier'' (Tok x'))),
                Sym ''_parameter_list'' (Items [Tok ''('', c, Tok '')''])])"
    with t y show ?thesis by (auto simp add: catch_tree_def block_tree_def)
  qed
qed

lemmas catch_rules = rules_catch_clause rules_block_statement rules_u_parameter_list
  rules_identifier rules_u_parameter rules_type_name rules_u_primitive_type
  rules_u_storage_location catch_clause_def block_statement_def u_parameter_list_def
  identifier_rule_def commaSep_def commaSep1_def u_parameter_def type_name_def
  u_primitive_type_def u_storage_location_def

lemmas catch_trees = catch_tree_def block_tree_def parameter_list_def reason_parameter_def
  string_type_def type_tree_def primitive_def ident_node_def

lemma catch_bare:
  "parses ''catch_clause'' [''catch'', ''{'', ''}''] (catch_tree None (block_tree []))"
  by (simp add: parses_def catch_rules catch_trees chars nesting)

lemma catch_parameters:
  "parses ''catch_clause''
     [''catch'', ''('', ''string'', ''memory'', ''reason'', '')'', ''{'', ''}'']
     (catch_tree (Some (Items [Opt None, parameter_list [reason_parameter]])) (block_tree []))"
  by (simp add: parses_def catch_rules catch_trees chars nesting)

lemma catch_name_parameters:
  "parses ''catch_clause''
     [''catch'', ''Error'', ''('', ''string'', ''memory'', ''reason'', '')'', ''{'', ''}'']
     (catch_tree (Some (Items [Opt (Some (ident_node ''Error'')),
        parameter_list [reason_parameter]])) (block_tree []))"
  by (simp add: parses_def catch_rules catch_trees chars nesting)

text \<open>
  C3, as the grammar has it. A catch clause is \<^verbatim>\<open>catch\<close>, an optional handler and a block;
  the handler is an optional error name followed by a parameter list. So three forms are
  accepted: \<^verbatim>\<open>catch {...}\<close>, \<^verbatim>\<open>catch (params) {...}\<close> and \<^verbatim>\<open>catch Name (params) {...}\<close>.
  An error name without a parameter list is not: after \<^verbatim>\<open>catch Name\<close> the next token is
  always the opening parenthesis of the parameter list.
\<close>

theorem catch_clause_forms:
  "derives ''catch_clause'' [''catch'', ''{'', ''}'']
   \<and> derives ''catch_clause''
        [''catch'', ''('', ''string'', ''memory'', ''reason'', '')'', ''{'', ''}'']
   \<and> derives ''catch_clause''
        [''catch'', ''Error'', ''('', ''string'', ''memory'', ''reason'', '')'', ''{'', ''}'']
   \<and> (\<forall>x rest t. parses ''catch_clause'' (''catch'' # x # rest) t \<and> is_identifier x
          \<longrightarrow> (\<exists>rest'. rest = ''('' # rest'))"
proof (intro conjI allI impI)
  show "derives ''catch_clause'' [''catch'', ''{'', ''}'']"
    unfolding derives_def using catch_bare by blast
  show "derives ''catch_clause''
        [''catch'', ''('', ''string'', ''memory'', ''reason'', '')'', ''{'', ''}'']"
    unfolding derives_def using catch_parameters by blast
  show "derives ''catch_clause''
        [''catch'', ''Error'', ''('', ''string'', ''memory'', ''reason'', '')'', ''{'', ''}'']"
    unfolding derives_def using catch_name_parameters by blast
next
  fix x rest t
  assume "parses ''catch_clause'' (''catch'' # x # rest) t \<and> is_identifier x"
  then show "\<exists>rest'. rest = ''('' # rest'" using catch_named by blast
qed

theorem catch_clause_forms_witness:
  "parses ''catch_clause''
     [''catch'', ''Error'', ''('', ''string'', ''memory'', ''reason'', '')'', ''{'', ''}'']
     (catch_tree (Some (Items [Opt (Some (ident_node ''Error'')),
        parameter_list [reason_parameter]])) (block_tree []))
   \<and> is_identifier ''Error''
   \<and> (\<exists>rest'. [''('', ''string'', ''memory'', ''reason'', '')'', ''{'', ''}''] = ''('' # rest')"
  using catch_clause_forms catch_name_parameters is_identifier_Error by blast

text \<open>
  The fourth form of C3, an error name directly followed by the block, is rejected:
  \<^verbatim>\<open>catch Error { }\<close> has no derivation.
\<close>

theorem catch_name_without_parameters_rejected:
  "\<not> derives ''catch_clause'' [''catch'', ''Error'', ''{'', ''}'']"
proof
  assume "derives ''catch_clause'' [''catch'', ''Error'', ''{'', ''}'']"
  then obtain t where "parses ''catch_clause'' (''catch'' # ''Error'' # [''{'', ''}'']) t"
    unfolding derives_def by auto
  from catch_named [OF this is_identifier_Error] show False by simp
qed

section \<open>Struct and enum bodies\<close>

lemma struct_shape:
  assumes "conforms (SYMBOL ''struct_declaration'') t"
  shows "\<exists>x ms. t = struct_tree (ident_node x) ms \<and> ms \<noteq> [] \<and>
           conforms_rep (SYMBOL ''struct_member'') ms"
  using assms
  by (auto simp add: inv conforms_SYMBOL rules_struct_declaration rules_identifier struct_declaration_def
      identifier_rule_def struct_tree_def ident_node_def)

lemma struct_member_yield:
  assumes "conforms (SYMBOL ''struct_member'') m"
  shows "yield m \<noteq> []"
  using assms
  by (auto simp add: inv conforms_SYMBOL rules_struct_member rules_u_semicolon struct_member_def
      u_semicolon_def)

lemma struct_members_yield:
  assumes "conforms_rep (SYMBOL ''struct_member'') ms" and "ms \<noteq> []"
  shows "concat (map yield ms) \<noteq> []"
proof (cases ms)
  case Nil
  with assms(2) show ?thesis by simp
next
  case (Cons m ms')
  with assms(1) have "conforms (SYMBOL ''struct_member'') m" by simp
  from struct_member_yield [OF this] Cons show ?thesis by simp
qed

lemma struct_empty_rejected: "\<not> derives ''struct_declaration'' [''struct'', x, ''{'', ''}'']"
proof
  assume "derives ''struct_declaration'' [''struct'', x, ''{'', ''}'']"
  then obtain t where c: "conforms (SYMBOL ''struct_declaration'') t"
    and y: "yield t = [''struct'', x, ''{'', ''}'']"
    unfolding derives_def parses_def by auto
  from struct_shape [OF c] obtain x' ms where t: "t = struct_tree (ident_node x') ms"
    and ms: "ms \<noteq> []" "conforms_rep (SYMBOL ''struct_member'') ms"
    by blast
  from t y have "concat (map yield ms) = []"
    by (simp add: struct_tree_def ident_node_def)
  with struct_members_yield [OF ms(2) ms(1)] show False by simp
qed

lemma struct_one_member:
  "parses ''struct_declaration'' [''struct'', ''S'', ''{'', ''uint'', ''a'', '';'', ''}'']
     (struct_tree (ident_node ''S'') [struct_member_tree uint_type ''a''])"
  by (simp add: parses_def struct_tree_def struct_member_tree_def ident_node_def uint_type_def
      type_tree_def primitive_def semicolon_def rules_struct_declaration rules_struct_member
      rules_identifier rules_u_semicolon rules_type_name rules_u_primitive_type rules_u_uint
      struct_declaration_def struct_member_def identifier_rule_def u_semicolon_def
      type_name_def u_primitive_type_def u_uint_def chars nesting)

lemma enum_empty:
  "parses ''enum_declaration'' [''enum'', ''E'', ''{'', ''}''] (enum_tree ''E'' [])"
  by (simp add: parses_def enum_tree_def ident_node_def rules_enum_declaration
      rules_identifier enum_declaration_def identifier_rule_def commaSep_def chars nesting)

text \<open>
  C4, as the grammar has it. The members of a struct are a \<^verbatim>\<open>repeat1\<close>: every struct
  declaration has at least one member, and \<^verbatim>\<open>struct S { }\<close> is rejected. The values of an
  enum are a \<^verbatim>\<open>commaSep\<close>, which is optional: \<^verbatim>\<open>enum E { }\<close> is accepted.
\<close>

theorem struct_nonempty_enum_possibly_empty:
  "(\<forall>ws t. parses ''struct_declaration'' ws t \<longrightarrow>
      (\<exists>x ms. t = struct_tree (ident_node x) ms \<and> ms \<noteq> []))
   \<and> (\<forall>x. \<not> derives ''struct_declaration'' [''struct'', x, ''{'', ''}''])
   \<and> derives ''struct_declaration'' [''struct'', ''S'', ''{'', ''uint'', ''a'', '';'', ''}'']
   \<and> derives ''enum_declaration'' [''enum'', ''E'', ''{'', ''}'']"
proof (intro conjI allI impI)
  fix ws t assume "parses ''struct_declaration'' ws t"
  then have "conforms (SYMBOL ''struct_declaration'') t" by (simp add: parses_def)
  from struct_shape [OF this]
  show "\<exists>x ms. t = struct_tree (ident_node x) ms \<and> ms \<noteq> []" by blast
next
  fix x show "\<not> derives ''struct_declaration'' [''struct'', x, ''{'', ''}'']"
    by (rule struct_empty_rejected)
next
  show "derives ''struct_declaration'' [''struct'', ''S'', ''{'', ''uint'', ''a'', '';'', ''}'']"
    unfolding derives_def using struct_one_member by blast
next
  show "derives ''enum_declaration'' [''enum'', ''E'', ''{'', ''}'']"
    unfolding derives_def using enum_empty by blast
qed

theorem struct_nonempty_enum_possibly_empty_witness:
  "parses ''struct_declaration'' [''struct'', ''S'', ''{'', ''uint'', ''a'', '';'', ''}'']
     (struct_tree (ident_node ''S'') [struct_member_tree uint_type ''a''])
   \<and> (\<exists>x ms. struct_tree (ident_node ''S'') [struct_member_tree uint_type ''a'']
          = struct_tree (ident_node x) ms \<and> ms \<noteq> [])"
  using struct_nonempty_enum_possibly_empty struct_one_member by blast

text \<open>Against C4 as stated: an enum with zero values is accepted.\<close>

theorem enum_without_values_accepted:
  "parses ''enum_declaration'' [''enum'', ''E'', ''{'', ''}''] (enum_tree ''E'' [])"
  by (rule enum_empty)

section \<open>Comments and white space\<close>

lemma of_char_line_feed: "of_char c = (10::nat) \<longleftrightarrow> c = CHR 0x0A"
proof
  assume "of_char c = (10::nat)"
  then have "of_char c = (of_char (CHR 0x0A) :: nat)" by simp
  then show "c = CHR 0x0A" by (simp only: of_char_eq_iff)
qed simp

lemma any_run_no_line_feed:
  assumes "matches (Star AnyChar) cs"
  shows "\<forall>c \<in> set cs. c \<noteq> 10"
  using _ assms by (rule matches_Star_all) (auto simp add: matches_AnyChar)

lemma comment_cases:
  assumes "is_comment w"
  shows "(\<exists>v. map of_char w = map of_char ''//'' @ v \<and> matches (Star AnyChar) v) \<or>
         (\<exists>v. map of_char w = map of_char ''/*'' @ v @ map of_char ''*/''
            \<and> matches (Star AnyChar) v)"
  using assms
  by (auto simp add: is_comment_def comment_def re_match_def cat_def matches_Or matches_Cat
      matches_lit matches_Never matches_Eps PREC_COMMENT_def)

lemma comment_no_line_feed:
  assumes "is_comment w"
  shows "CHR 0x0A \<notin> set w"
proof
  assume "CHR 0x0A \<in> set w"
  then have lf: "(10::nat) \<in> set (map of_char w)" by force
  from comment_cases [OF assms] show False
  proof (elim disjE exE conjE)
    fix v assume "map of_char w = map of_char ''//'' @ v" "matches (Star AnyChar) v"
    with lf any_run_no_line_feed [of v] show False by auto
  next
    fix v assume "map of_char w = map of_char ''/*'' @ v @ map of_char ''*/''"
      "matches (Star AnyChar) v"
    with lf any_run_no_line_feed [of v] show False by auto
  qed
qed

lemma comment_examples:
  "is_comment ''// a comment''" "is_comment ''/* a comment */''"
  by (simp_all add: is_comment_def comment_def chars PREC_COMMENT_def)

lemma whitespace_examples:
  "whitespace_code 0x20" "whitespace_code 0x0A" "whitespace_code 0xFEFF"
  "whitespace_code 0x2060" "whitespace_code 0x200B" "whitespace_code 0x00A0"
  by (simp_all add: whitespace_code_def extras_def esc_s_def)

text \<open>
  C9, where the grammar falls short of it. Line comments and block comments on one line
  are comment tokens, and the white space characters that the claim lists are extras. But
  both forms of comment end in the pattern \<^verbatim>\<open>.*\<close>, whose dot does not match a line feed:
  no comment token contains a line feed, so a block comment whose body spans several
  lines is not a comment token and is not skipped as an extra.
\<close>

theorem comment_never_spans_lines:
  "(\<forall>w. is_comment w \<longrightarrow> CHR 0x0A \<notin> set w)
   \<and> \<not> is_comment (''/* a'' @ [CHR 0x0A] @ '' comment */'')
   \<and> is_comment ''// a comment'' \<and> is_comment ''/* a comment */''
   \<and> whitespace_code 0xFEFF \<and> whitespace_code 0x2060 \<and> whitespace_code 0x200B
   \<and> whitespace_code 0x00A0"
proof -
  have "\<not> is_comment (''/* a'' @ [CHR 0x0A] @ '' comment */'')"
    using comment_no_line_feed [of "''/* a'' @ [CHR 0x0A] @ '' comment */''"] by auto
  with comment_no_line_feed comment_examples whitespace_examples show ?thesis by blast
qed

theorem comment_never_spans_lines_witness:
  "is_comment ''/* a comment */'' \<and> CHR 0x0A \<notin> set ''/* a comment */''"
  using comment_never_spans_lines by blast

section \<open>Number literals\<close>

lemma comment_starts:
  assumes "is_comment w"
  shows "\<exists>v. w = CHR ''/'' # v"
proof -
  from comment_cases [OF assms] obtain n where "map of_char w = (47::nat) # n"
    by auto
  then obtain c v where w: "w = c # v" and "of_char c = (47::nat)" by auto
  then have "of_char c = (of_char CHR ''/'' :: nat)" by simp
  then have "c = CHR ''/''" by (simp only: of_char_eq_iff)
  with w show ?thesis by simp
qed

lemma extras_run_first:
  "extras_run e \<Longrightarrow> e = [] \<or> whitespace_code (of_char (hd e)) \<or> hd e = CHR ''/''"
proof (induction rule: extras_run.induct)
  case extras_none
  then show ?case by simp
next
  case (extras_space c s)
  then show ?case by simp
next
  case (extras_comment w s)
  from comment_starts [OF extras_comment.hyps(1)] show ?case by auto
qed

lemma extras_run_solid: "solid c \<Longrightarrow> \<not> extras_run (c # s)"
  using extras_run_first [of "c # s"] by (auto simp add: solid_def)

lemma spells_nothing_solid: "solid c \<Longrightarrow> \<not> spells [] (c # s)"
  by (auto elim: spells.cases simp add: extras_run_solid)

lemma spells_solid:
  assumes "solid c" and "spells (w # ws) (c # s)"
  shows "prefix w (c # s) \<and> spells ws (drop (length w) (c # s))"
  using assms(2)
proof (cases rule: spells.cases)
  case (spells_token e r)
  have "e = []"
  proof (cases e)
    case (Cons c' e')
    with spells_token have "c' = c" by simp
    with Cons spells_token(2) extras_run_solid [OF assms(1), of e'] show ?thesis by simp
  qed simp
  with spells_token show ?thesis by simp
qed

lemma spells_intro:
  "extras_run e \<Longrightarrow> spells ws r \<Longrightarrow> s = e @ w @ r \<Longrightarrow> spells (w # ws) s"
  by (simp add: spells_token)

lemma solid_chars: "solid CHR ''0''" "solid CHR ''1''" "solid CHR ''x''" "solid CHR ''_''"
  "solid CHR ''.''" "solid CHR ''e''"
  by (simp_all add: solid_def whitespace_code_def extras_def esc_s_def)

lemma hex_group_length:
  assumes "is_hex_group w"
  shows "length w = 2"
proof -
  from assms have "length (map (of_char :: char \<Rightarrow> nat) w) = 2"
    by (auto simp add: is_hex_group_def u_hex_digit_def re_match_def cat_def matches_Cat
        matches_Chars matches_Eps)
  then show ?thesis by simp
qed

lemma mantissa_prefix:
  assumes "prefix d ''0x1_f gwei''" and "is_mantissa d"
  shows "d = ''0'' \<or> d = ''0x1''"
proof -
  from assms(1) have "d \<in> set (prefixes ''0x1_f gwei'')" by (simp only: in_set_prefixes)
  with assms(2) show ?thesis
    by (auto simp add: is_mantissa_def decimal_number_def chars)
qed

lemma no_token_after_0:
  assumes "prefix w ''x1_f gwei''" and "is_exponent w \<or> is_unit w"
  shows False
proof -
  from assms(1) have "w \<in> set (prefixes ''x1_f gwei'')" by (simp only: in_set_prefixes)
  with assms(2) show ?thesis
    by (auto simp add: is_exponent_def is_unit_def decimal_number_def number_unit_def chars)
qed

lemma no_token_after_0x1:
  assumes "prefix w ''_f gwei''" and "is_exponent w \<or> is_unit w"
  shows False
proof -
  from assms(1) have "w \<in> set (prefixes ''_f gwei'')" by (simp only: in_set_prefixes)
  with assms(2) show ?thesis
    by (auto simp add: is_exponent_def is_unit_def decimal_number_def number_unit_def chars)
qed

lemma no_token_after_0x:
  assumes "prefix w ''1_f gwei''" and "is_hex_group w \<or> is_unit w"
  shows False
proof -
  from assms(1) have "w \<in> set (prefixes ''1_f gwei'')" by (simp only: in_set_prefixes)
  with assms(2) show ?thesis
    by (auto simp add: is_hex_group_def is_unit_def u_hex_digit_def number_unit_def chars)
qed

lemma number_literal_0x1_f_gwei_rejected: "\<not> reads ''number_literal'' ''0x1_f gwei''"
proof
  assume "reads ''number_literal'' ''0x1_f gwei''"
  then obtain ws t where sp: "spells ws ''0x1_f gwei''"
    and c: "conforms (SYMBOL ''number_literal'') t" and y: "yield t = ws"
    unfolding reads_def derives_def parses_def by blast
  from number_literal_yield [OF c] y consider
    (decimal) d rest where "ws = d # rest" "is_mantissa d"
      "rest = [] \<or> (\<exists>w rest'. rest = w # rest' \<and> (is_exponent w \<or> is_unit w))"
  | (hex) rest where "ws = ''0x'' # rest"
      "rest = [] \<or> (\<exists>w rest'. rest = w # rest' \<and> (is_hex_group w \<or> is_unit w))"
    by auto
  then show False
  proof cases
    case decimal
    from spells_solid [OF solid_chars(1)] sp decimal(1)
    have p: "prefix d ''0x1_f gwei''" and r: "spells rest (drop (length d) ''0x1_f gwei'')"
      by auto
    from mantissa_prefix [OF p decimal(2)] show False
    proof
      assume "d = ''0''"
      with r have r0: "spells rest ''x1_f gwei''" by simp
      from decimal(3) show False
      proof
        assume "rest = []"
        with r0 spells_nothing_solid [OF solid_chars(3)] show False by simp
      next
        assume "\<exists>w rest'. rest = w # rest' \<and> (is_exponent w \<or> is_unit w)"
        then obtain w rest' where "rest = w # rest'" and w: "is_exponent w \<or> is_unit w"
          by blast
        with r0 spells_solid [OF solid_chars(3)] have "prefix w ''x1_f gwei''" by auto
        from no_token_after_0 [OF this w] show False .
      qed
    next
      assume "d = ''0x1''"
      with r have r0: "spells rest ''_f gwei''" by simp
      from decimal(3) show False
      proof
        assume "rest = []"
        with r0 spells_nothing_solid [OF solid_chars(4)] show False by simp
      next
        assume "\<exists>w rest'. rest = w # rest' \<and> (is_exponent w \<or> is_unit w)"
        then obtain w rest' where "rest = w # rest'" and w: "is_exponent w \<or> is_unit w"
          by blast
        with r0 spells_solid [OF solid_chars(4)] have "prefix w ''_f gwei''" by auto
        from no_token_after_0x1 [OF this w] show False .
      qed
    qed
  next
    case hex
    from sp hex(1) have "spells (''0x'' # rest) (CHR ''0'' # ''x1_f gwei'')" by simp
    from spells_solid [OF solid_chars(1) this]
    have r0: "spells rest ''1_f gwei''" by simp
    from hex(2) show False
    proof
      assume "rest = []"
      with r0 spells_nothing_solid [OF solid_chars(2)] show False by simp
    next
      assume "\<exists>w rest'. rest = w # rest' \<and> (is_hex_group w \<or> is_unit w)"
      then obtain w rest' where "rest = w # rest'" and w: "is_hex_group w \<or> is_unit w"
        by blast
      with r0 spells_solid [OF solid_chars(2)] have "prefix w ''1_f gwei''" by auto
      from no_token_after_0x [OF this w] show False .
    qed
  qed
qed

text \<open>What follows the first token of a number literal, in a text that goes on with a
  character that begins no extra.\<close>

lemma no_second_token:
  assumes sp: "spells rest (c # s)" and c: "solid c"
    and rest: "rest = [] \<or> (\<exists>w rest'. rest = w # rest' \<and> P w)"
    and none: "\<And>w. prefix w (c # s) \<Longrightarrow> P w \<Longrightarrow> False"
  shows False
  using rest
proof
  assume "rest = []"
  with sp spells_nothing_solid [OF c] show False by simp
next
  assume "\<exists>w rest'. rest = w # rest' \<and> P w"
  then obtain w rest' where "rest = w # rest'" and w: "P w" by blast
  with sp spells_solid [OF c] have "prefix w (c # s)" by auto
  from none [OF this w] show False .
qed

lemma mantissa_prefix_fraction:
  assumes "prefix d ''1.5e10''" and "is_mantissa d"
  shows "d = ''1'' \<or> d = ''1.5''"
proof -
  from assms(1) have "d \<in> set (prefixes ''1.5e10'')" by (simp only: in_set_prefixes)
  with assms(2) show ?thesis
    by (auto simp add: is_mantissa_def decimal_number_def chars)
qed

lemma no_token_after_1:
  assumes "prefix w ''.5e10''" and "is_exponent w \<or> is_unit w"
  shows False
proof -
  from assms(1) have "w \<in> set (prefixes ''.5e10'')" by (simp only: in_set_prefixes)
  with assms(2) show ?thesis
    by (auto simp add: is_exponent_def is_unit_def decimal_number_def number_unit_def chars)
qed

lemma no_token_after_fraction:
  assumes "prefix w ''e10''" and "is_exponent w \<or> is_unit w"
  shows False
proof -
  from assms(1) have "w \<in> set (prefixes ''e10'')" by (simp only: in_set_prefixes)
  with assms(2) show ?thesis
    by (auto simp add: is_exponent_def is_unit_def decimal_number_def number_unit_def chars)
qed

lemma number_literal_exponent_rejected: "\<not> reads ''number_literal'' ''1.5e10''"
proof
  assume "reads ''number_literal'' ''1.5e10''"
  then obtain ws t where sp: "spells ws ''1.5e10''"
    and c: "conforms (SYMBOL ''number_literal'') t" and y: "yield t = ws"
    unfolding reads_def derives_def parses_def by blast
  from number_literal_yield [OF c] y consider
    (decimal) d rest where "ws = d # rest" "is_mantissa d"
      "rest = [] \<or> (\<exists>w rest'. rest = w # rest' \<and> (is_exponent w \<or> is_unit w))"
  | (hex) rest where "ws = ''0x'' # rest"
    by auto
  then show False
  proof cases
    case decimal
    from spells_solid [OF solid_chars(2)] sp decimal(1)
    have p: "prefix d ''1.5e10''" and r: "spells rest (drop (length d) ''1.5e10'')"
      by auto
    from mantissa_prefix_fraction [OF p decimal(2)] show False
    proof
      assume "d = ''1''"
      with r have "spells rest (CHR ''.'' # ''5e10'')" by simp
      from this solid_chars(5) decimal(3) show False
        by (rule no_second_token) (rule no_token_after_1)
    next
      assume "d = ''1.5''"
      with r have "spells rest (CHR ''e'' # ''10'')" by simp
      from this solid_chars(6) decimal(3) show False
        by (rule no_second_token) (rule no_token_after_fraction)
    qed
  next
    case hex
    from sp hex have "spells (''0x'' # rest) (CHR ''1'' # ''.5e10'')" by simp
    from spells_solid [OF solid_chars(2) this] show False by simp
  qed
qed

text \<open>The pattern of the exponent, \<^verbatim>\<open>/[eE](-)?d+/\<close>: its last part is the letter \<^verbatim>\<open>d\<close>.\<close>

lemma matches_Plus_all:
  assumes r: "\<And>u. matches r u \<Longrightarrow> \<forall>c \<in> set u. P c"
    and m: "matches (Plus r) cs"
  shows "\<forall>c \<in> set cs. P c"
proof (cases cs)
  case Nil
  then show ?thesis by simp
next
  case (Cons c cs')
  from m have "matches (Plus r) (c # cs')" unfolding Cons .
  then have "\<exists>u v. cs' = u @ v \<and> matches r (c # u) \<and> matches (Star r) v"
    by (simp only: matches_Plus_Cons)
  then obtain u v where cs': "cs' = u @ v" and u: "matches r (c # u)"
    and v: "matches (Star r) v"
    by blast
  from r [OF u] have "\<forall>c \<in> set (c # u). P c" .
  moreover from matches_Star_all [of r P, OF r v] have "\<forall>c \<in> set v. P c" by simp
  ultimately show ?thesis using Cons cs' by auto
qed

lemma exponent_codes:
  assumes "is_exponent w"
  shows "\<forall>c \<in> set (map of_char w). c \<in> {101, 69, 45, 100 :: nat}"
proof -
  from assms have "matches (Cat (Chars [just CHR ''e'', just CHR ''E''])
      (Cat (Maybe (lit ''-'')) (Cat (Plus (lit ''d'')) Eps))) (map of_char w)"
    by (simp add: is_exponent_def decimal_number_def re_match_def cat_def)
  then obtain h m p where w: "map of_char w = h @ m @ p"
    and h: "matches (Chars [just CHR ''e'', just CHR ''E'']) h"
    and m: "matches (Maybe (lit ''-'')) m" and p: "matches (Plus (lit ''d'')) p"
    by (auto simp add: matches_Cat matches_Eps)
  from h have "\<forall>c \<in> set h. c \<in> {101, 69, 45, 100 :: nat}"
    by (auto simp add: matches_Chars just_def)
  moreover from m have "\<forall>c \<in> set m. c \<in> {101, 69, 45, 100 :: nat}"
    by (auto simp add: matches_Maybe matches_lit)
  moreover have "\<forall>c \<in> set p. c \<in> {101, 69, 45, 100 :: nat}"
  proof (rule matches_Plus_all [OF _ p])
    fix u assume "matches (lit ''d'') u"
    then show "\<forall>c \<in> set u. c \<in> {101, 69, 45, 100 :: nat}" by (simp add: matches_lit)
  qed
  ultimately show ?thesis using w by auto
qed

lemma exponent_letters:
  assumes "is_exponent w"
  shows "set w \<subseteq> set ''eE-d''"
proof
  fix c assume "c \<in> set w"
  with exponent_codes [OF assms] have "of_char c \<in> {101, 69, 45, 100 :: nat}" by simp
  then have "of_char c = (of_char CHR ''e'' :: nat) \<or> of_char c = (of_char CHR ''E'' :: nat) \<or>
      of_char c = (of_char CHR ''-'' :: nat) \<or> of_char c = (of_char CHR ''d'' :: nat)"
    by auto
  then have "c = CHR ''e'' \<or> c = CHR ''E'' \<or> c = CHR ''-'' \<or> c = CHR ''d''"
    by (simp only: of_char_eq_iff)
  then show "c \<in> set ''eE-d''" by auto
qed

lemma hex_group_example: "is_hex_group ''ff''"
  by (simp add: is_hex_group_def u_hex_digit_def chars)

lemma exponent_examples: "is_exponent ''ed''" "\<not> is_exponent ''e10''"
  by (simp_all add: is_exponent_def decimal_number_def chars)

lemma mantissa_any_character: "is_mantissa ''0x1''"
  by (simp add: is_mantissa_def decimal_number_def chars)

lemmas number_rules = rules_number_literal rules_decimal_number rules_hex_number
  rules_u_hex_digit rules_number_unit number_literal_def decimal_number_def hex_number_def
  u_hex_digit_def number_unit_def optionalDashSeparation_def

lemmas number_trees = number_literal_tree_def decimal_tree_def unit_tree_def

lemma one_ether_parse:
  "parses ''number_literal'' [''1'', ''ether'']
     (number_literal_tree 0 (decimal_tree ''1'' None) (Some (unit_tree 4 ''ether'')))"
  by (simp add: parses_def number_rules number_trees chars nesting)

lemma one_ether_text: "spells [''1'', ''ether''] ''1 ether''"
proof -
  have space: "extras_run '' ''"
    by (rule extras_space) (simp_all add: whitespace_code_def extras_def esc_s_def extras_none)
  have "spells [] []" by (rule spells_end) (rule extras_none)
  with space have "spells [''ether''] '' ether''" by (rule spells_intro) simp
  with extras_none show ?thesis by (rule spells_intro) simp
qed

lemma one_ed_parse:
  "parses ''number_literal'' [''1'', ''ed'']
     (number_literal_tree 0 (decimal_tree ''1'' (Some (Tok ''ed''))) None)"
  by (simp add: parses_def number_rules number_trees chars nesting)

text \<open>
  C5, where the grammar falls short of it. A number literal is a decimal number or a hex
  number, optionally followed by a unit, and \<^verbatim>\<open>1 ether\<close> is a number literal carrying a
  unit. But the three patterns of the numbers are not the ones the claim describes. The
  pattern of \<^verbatim>\<open>_hex_digit\<close> matches two hex digits, never one. The pattern of the exponent,
  \<^verbatim>\<open>/[eE](-)?d+/\<close>, ends in the letter \<^verbatim>\<open>d\<close> where \<^verbatim>\<open>\d\<close> was meant: an exponent has no digit,
  \<^verbatim>\<open>ed\<close> is one and \<^verbatim>\<open>e10\<close> is not. The dot of \<^verbatim>\<open>/\d+(.\d+)?/\<close> is not escaped and stands for any
  character: \<^verbatim>\<open>0x1\<close> matches the pattern of the decimal number. So the claim's example
  \<^verbatim>\<open>0x1_f gwei\<close> is not a number literal, however it is divided into tokens, nor is the
  decimal number with an exponent \<^verbatim>\<open>1.5e10\<close>, while \<^verbatim>\<open>1 ed\<close> is a number literal.
\<close>

theorem number_literal_patterns:
  "(\<forall>t. conforms (SYMBOL ''number_literal'') t \<longrightarrow>
      (\<exists>i n u. t = number_literal_tree i n u \<and>
         (i = 0 \<and> conforms (SYMBOL ''decimal_number'') n \<or>
          i = 1 \<and> conforms (SYMBOL ''hex_number'') n) \<and>
         (u = None \<or> (\<exists>v. u = Some v \<and> conforms (SYMBOL ''number_unit'') v))))
   \<and> (\<forall>w. is_hex_group w \<longrightarrow> length w = 2)
   \<and> (\<forall>w. is_exponent w \<longrightarrow> set w \<subseteq> set ''eE-d'')
   \<and> is_exponent ''ed'' \<and> \<not> is_exponent ''e10''
   \<and> is_mantissa ''0x1''
   \<and> parses ''number_literal'' [''1'', ''ether'']
        (number_literal_tree 0 (decimal_tree ''1'' None) (Some (unit_tree 4 ''ether'')))
   \<and> spells [''1'', ''ether''] ''1 ether''
   \<and> parses ''number_literal'' [''1'', ''ed'']
        (number_literal_tree 0 (decimal_tree ''1'' (Some (Tok ''ed''))) None)
   \<and> \<not> reads ''number_literal'' ''0x1_f gwei''
   \<and> \<not> reads ''number_literal'' ''1.5e10''"
proof (intro conjI allI impI)
  fix t assume "conforms (SYMBOL ''number_literal'') t"
  then show "\<exists>i n u. t = number_literal_tree i n u \<and>
         (i = 0 \<and> conforms (SYMBOL ''decimal_number'') n \<or>
          i = 1 \<and> conforms (SYMBOL ''hex_number'') n) \<and>
         (u = None \<or> (\<exists>v. u = Some v \<and> conforms (SYMBOL ''number_unit'') v))"
    by (rule number_literal_shape)
next
  fix w assume "is_hex_group w"
  then show "length w = 2" by (rule hex_group_length)
next
  fix w assume "is_exponent w"
  then show "set w \<subseteq> set ''eE-d''" by (rule exponent_letters)
qed (rule exponent_examples, rule exponent_examples, rule mantissa_any_character,
    rule one_ether_parse, rule one_ether_text, rule one_ed_parse,
    rule number_literal_0x1_f_gwei_rejected, rule number_literal_exponent_rejected)

theorem number_literal_patterns_witness:
  "conforms (SYMBOL ''number_literal'')
     (number_literal_tree 0 (decimal_tree ''1'' None) (Some (unit_tree 4 ''ether'')))
   \<and> (\<exists>i n u. number_literal_tree 0 (decimal_tree ''1'' None) (Some (unit_tree 4 ''ether''))
          = number_literal_tree i n u \<and>
        (i = 0 \<and> conforms (SYMBOL ''decimal_number'') n \<or>
         i = 1 \<and> conforms (SYMBOL ''hex_number'') n) \<and>
        (u = None \<or> (\<exists>v. u = Some v \<and> conforms (SYMBOL ''number_unit'') v)))
   \<and> is_hex_group ''ff'' \<and> length ''ff'' = 2
   \<and> is_exponent ''ed'' \<and> set ''ed'' \<subseteq> set ''eE-d''"
proof -
  have c: "conforms (SYMBOL ''number_literal'')
     (number_literal_tree 0 (decimal_tree ''1'' None) (Some (unit_tree 4 ''ether'')))"
    using one_ether_parse by (simp only: parses_def)
  with number_literal_patterns
  have "\<exists>i n u. number_literal_tree 0 (decimal_tree ''1'' None) (Some (unit_tree 4 ''ether''))
          = number_literal_tree i n u \<and>
        (i = 0 \<and> conforms (SYMBOL ''decimal_number'') n \<or>
         i = 1 \<and> conforms (SYMBOL ''hex_number'') n) \<and>
        (u = None \<or> (\<exists>v. u = Some v \<and> conforms (SYMBOL ''number_unit'') v))"
    by blast
  moreover from number_literal_patterns hex_group_example have "length ''ff'' = 2" by blast
  moreover from number_literal_patterns have "is_exponent ''ed''" by blast
  moreover from number_literal_patterns this have "set ''ed'' \<subseteq> set ''eE-d''" by blast
  ultimately show ?thesis using c hex_group_example by blast
qed

section \<open>Left-hand sides of assignments\<close>










lemma augmented_assignment_tuple_kind:
  "kind (Sym ''_lhs_expression'' (Alt 1 (tuple_node (comma_tree [ident_expr ''a''])))) =
     ''tuple_expression''"
  by (simp add: kind_def tuple_node_def)












section \<open>Variable declaration statements\<close>

lemma not_fixed_paren:
  "\<not> re_match (cat [lit ''fixed'', Plus (Chars [rng CHR ''0'' CHR ''9'']), lit ''x'',
                   Plus (Chars [rng CHR ''0'' CHR ''9''])]) ''(''"
  "\<not> re_match (cat [lit ''ufixed'', Plus (Chars [rng CHR ''0'' CHR ''9'']), lit ''x'',
                   Plus (Chars [rng CHR ''0'' CHR ''9''])]) ''(''"
  by (simp_all add: chars)

lemma primitive_first:
  assumes "conforms (SYMBOL ''_primitive_type'') u"
  shows "\<exists>w ws. yield u = w # ws \<and> w \<noteq> ''(''"
proof -
  from assms obtain v where u: "u = Sym ''_primitive_type'' (Prec 0 LeftAssoc v)"
    and v: "conforms (CHOICE [
     SEQ [STRING ''address'', OPTIONAL (STRING ''payable'')],
     STRING ''bool'',
     STRING ''string'',
     STRING ''var'',
     SYMBOL ''_int'',
     SYMBOL ''_uint'',
     SYMBOL ''_bytes'',
     SYMBOL ''_fixed'',
     SYMBOL ''_ufixed'']) v"
    by (auto simp add: conforms_sym [OF rules_u_primitive_type] u_primitive_type_def
        conforms_PREC_LEFT)
  have strings: "\<exists>w ws. yield x = w # ws \<and> w \<noteq> ''(''"
    if "conforms (CHOICE (map STRING ss)) x" and "''('' \<notin> set ss" for x ss
    using choice_strings [OF that(1)] that(2) by auto
  from v have "\<exists>w ws. yield v = w # ws \<and> w \<noteq> ''(''"
    apply (auto simp add: inv choose conforms_sym [OF rules_u_int] conforms_sym [OF rules_u_uint]
        conforms_sym [OF rules_u_bytes] conforms_sym [OF rules_u_fixed]
        conforms_sym [OF rules_u_ufixed] u_fixed_def u_ufixed_def inv not_fixed_paren
        dest!: strings [of "[''int'', ''int8'', ''int16'', ''int24'', ''int32'', ''int40'',
          ''int48'', ''int56'', ''int64'', ''int72'', ''int80'', ''int88'', ''int96'',
          ''int104'', ''int112'', ''int120'', ''int128'', ''int136'', ''int144'', ''int152'',
          ''int160'', ''int168'', ''int176'', ''int184'', ''int192'', ''int200'', ''int208'',
          ''int216'', ''int224'', ''int232'', ''int240'', ''int248'', ''int256'']",
          unfolded u_int_def [symmetric]]
        strings [of "[''uint'', ''uint8'', ''uint16'', ''uint24'', ''uint32'', ''uint40'',
          ''uint48'', ''uint56'', ''uint64'', ''uint72'', ''uint80'', ''uint88'', ''uint96'',
          ''uint104'', ''uint112'', ''uint120'', ''uint128'', ''uint136'', ''uint144'',
          ''uint152'', ''uint160'', ''uint168'', ''uint176'', ''uint184'', ''uint192'',
          ''uint200'', ''uint208'', ''uint216'', ''uint224'', ''uint232'', ''uint240'',
          ''uint248'', ''uint256'']", unfolded u_uint_def [symmetric]]
        strings [of "[''byte'', ''bytes'', ''bytes1'', ''bytes2'', ''bytes3'', ''bytes4'',
          ''bytes5'', ''bytes6'', ''bytes7'', ''bytes8'', ''bytes9'', ''bytes10'', ''bytes11'',
          ''bytes12'', ''bytes13'', ''bytes14'', ''bytes15'', ''bytes16'', ''bytes17'',
          ''bytes18'', ''bytes19'', ''bytes20'', ''bytes21'', ''bytes22'', ''bytes23'',
          ''bytes24'', ''bytes25'', ''bytes26'', ''bytes27'', ''bytes28'', ''bytes29'',
          ''bytes30'', ''bytes31'', ''bytes32'']", unfolded u_bytes_def [symmetric]])
    done
  with u show ?thesis by simp
qed

lemma user_defined_first:
  assumes "conforms (SYMBOL ''_user_defined_type'') u"
  shows "\<exists>w ws. yield u = w # ws \<and> is_identifier w"
  using assms
  by (auto simp add: conforms_sym [OF rules_u_user_defined_type]
      conforms_sym [OF rules_identifier] u_user_defined_type_def inv is_identifier_def
      identifier_rule_def)

lemma type_name_cases:
  assumes "conforms (SYMBOL ''type_name'') t"
  shows "(\<exists>u. t = type_tree 0 u \<and> conforms (SYMBOL ''_primitive_type'') u) \<or>
     (\<exists>u. t = type_tree 1 u \<and> conforms (SYMBOL ''_user_defined_type'') u) \<or>
     (\<exists>u. t = type_tree 2 u \<and> conforms (SYMBOL ''_mapping'') u) \<or>
     (\<exists>e len. t = type_tree 3 (Sym ''_array_type'' (Items [e, Tok ''['', len, Tok '']'']))
        \<and> conforms (SYMBOL ''type_name'') e) \<or>
     (\<exists>u. t = type_tree 4 u \<and> conforms (SYMBOL ''_function_type'') u)"
proof -
  from assms obtain i u where t: "t = type_tree i u" and i: "i < 5"
    and u: "conforms ([SYMBOL ''_primitive_type'', SYMBOL ''_user_defined_type'',
       SYMBOL ''_mapping'', SYMBOL ''_array_type'', SYMBOL ''_function_type''] ! i) u"
    by (auto simp add: conforms_sym [OF rules_type_name] type_name_def conforms_PREC
        conforms_CHOICE type_tree_def)
  from i consider "i = 0" | "i = 1" | "i = 2" | "i = 3" | "i = 4" by linarith
  then show ?thesis
  proof cases
    case 4
    with u have "conforms (SYMBOL ''_array_type'') u" by simp
    then obtain e len where "u = Sym ''_array_type'' (Items [e, Tok ''['', len, Tok '']''])"
      and "conforms (SYMBOL ''type_name'') e"
      by (auto simp add: conforms_sym [OF rules_u_array_type] u_array_type_def conforms_SEQ
          conforms_seq_Cons conforms_seq_Nil conforms_STRING)
    with t 4 show ?thesis by blast
  qed (use t u in auto)
qed

lemma type_name_first:
  "conforms (SYMBOL ''type_name'') t \<Longrightarrow> \<exists>w ws. yield t = w # ws \<and> w \<noteq> ''(''"
proof (induction "size t" arbitrary: t rule: less_induct)
  case less
  from type_name_cases [OF less.prems] show ?case
  proof (elim disjE exE conjE)
    fix u assume "t = type_tree 0 u" "conforms (SYMBOL ''_primitive_type'') u"
    with primitive_first [of u] show ?thesis by (auto simp add: type_tree_def)
  next
    fix u assume "t = type_tree 1 u" "conforms (SYMBOL ''_user_defined_type'') u"
    with user_defined_first [of u] not_identifier_paren show ?thesis
      by (auto simp add: type_tree_def)
  next
    fix u assume "t = type_tree 2 u" "conforms (SYMBOL ''_mapping'') u"
    then show ?thesis
      by (auto simp add: type_tree_def conforms_sym [OF rules_u_mapping] u_mapping_def inv)
  next
    fix e len
    assume t: "t = type_tree 3 (Sym ''_array_type'' (Items [e, Tok ''['', len, Tok '']'']))"
      and e: "conforms (SYMBOL ''type_name'') e"
    from t have "size e < size t" by (simp add: type_tree_def)
    from less.hyps [OF this e] t show ?thesis by (auto simp add: type_tree_def)
  next
    fix u assume "t = type_tree 4 u" "conforms (SYMBOL ''_function_type'') u"
    then show ?thesis
      by (auto simp add: type_tree_def conforms_sym [OF rules_u_function_type]
          u_function_type_def inv)
  qed
qed

lemma declaration_first:
  assumes "conforms (SYMBOL ''variable_declaration'') d"
  shows "\<exists>w ws. yield d = w # ws \<and> w \<noteq> ''(''"
proof -
  from assms obtain ty rest where "d = Sym ''variable_declaration'' (Items (ty # rest))"
    and "conforms (SYMBOL ''type_name'') ty"
    by (auto simp add: conforms_sym [OF rules_variable_declaration] variable_declaration_def
        conforms_SEQ conforms_seq_Cons)
  with type_name_first [of ty] show ?thesis by auto
qed

lemma declaration_statement_shape:
  assumes "conforms (SYMBOL ''variable_declaration_statement'') t"
  shows "(\<exists>d init. t = declaration_statement d init \<and>
            conforms (SYMBOL ''variable_declaration'') d) \<or>
         (\<exists>c e. t = tuple_declaration_statement c e \<and> conforms (SYMBOL ''_expression'') e)"
  using assms
  by (auto simp add: conforms_sym [OF rules_variable_declaration_statement]
      conforms_sym [OF rules_variable_declaration_tuple] conforms_sym [OF rules_u_semicolon]
      variable_declaration_statement_def variable_declaration_tuple_def u_semicolon_def
      inv choose declaration_statement_def tuple_declaration_statement_def semicolon_def)

lemma tuple_declaration_initialised:
  assumes "parses ''variable_declaration_statement'' (''('' # ws) t"
  shows "\<exists>c e. t = tuple_declaration_statement c e \<and> conforms (SYMBOL ''_expression'') e
           \<and> ''='' \<in> set ws"
proof -
  from assms have c: "conforms (SYMBOL ''variable_declaration_statement'') t"
    and y: "yield t = ''('' # ws"
    by (simp_all add: parses_def)
  from declaration_statement_shape [OF c] show ?thesis
  proof (elim disjE exE conjE)
    fix d init
    assume "t = declaration_statement d init" "conforms (SYMBOL ''variable_declaration'') d"
    with declaration_first [of d] y show ?thesis
      by (auto simp add: declaration_statement_def)
  next
    fix c e
    assume t: "t = tuple_declaration_statement c e" and e: "conforms (SYMBOL ''_expression'') e"
    from t y have "''='' \<in> set ws"
      by (auto simp add: tuple_declaration_statement_def)
    with t e show ?thesis by blast
  qed
qed

lemmas declaration_rules = rules_variable_declaration_statement rules_variable_declaration
  rules_variable_declaration_tuple rules_u_semicolon rules_type_name rules_u_primitive_type
  rules_u_uint rules_identifier rules_u_expression rules_primary_expression
  variable_declaration_statement_def variable_declaration_def variable_declaration_tuple_def
  u_semicolon_def type_name_def u_primitive_type_def u_uint_def identifier_rule_def
  u_expression_def primary_expression_def commaSep_def commaSep1_def

lemmas declaration_trees = declaration_statement_def tuple_declaration_statement_def
  variable_declaration_tree_def uint_type_def type_tree_def primitive_def ident_node_def
  ident_expr_def semicolon_def

lemma declaration_without_initializer:
  "parses ''variable_declaration_statement'' [''uint'', ''a'', '';'']
     (declaration_statement (variable_declaration_tree uint_type None ''a'') None)"
  by (simp add: parses_def declaration_rules declaration_trees chars nesting)

lemma tuple_declaration_with_initializer:
  "parses ''variable_declaration_statement''
     [''('', ''uint'', ''a'', '','', ''uint'', ''b'', '')'', ''='', ''f'', '';'']
     (tuple_declaration_statement
        (comma_tree [variable_declaration_tree uint_type None ''a'',
                     variable_declaration_tree uint_type None ''b''])
        (ident_expr ''f''))"
  by (simp add: parses_def declaration_rules declaration_trees chars nesting)

text \<open>
  C7. A declaration statement that begins with a parenthesis is the tuple form, and the
  tuple form carries \<^verbatim>\<open>= expression\<close>: \<^verbatim>\<open>(uint a, uint b);\<close> is rejected and
  \<^verbatim>\<open>(uint a, uint b) = f;\<close> is accepted. A single declaration may stand without an
  initializer: \<^verbatim>\<open>uint a;\<close> is accepted.
\<close>

theorem tuple_declaration_requires_initializer:
  "(\<forall>ws t. parses ''variable_declaration_statement'' (''('' # ws) t \<longrightarrow>
      (\<exists>c e. t = tuple_declaration_statement c e \<and> conforms (SYMBOL ''_expression'') e
         \<and> ''='' \<in> set ws))
   \<and> \<not> derives ''variable_declaration_statement''
        [''('', ''uint'', ''a'', '','', ''uint'', ''b'', '')'', '';'']
   \<and> derives ''variable_declaration_statement''
        [''('', ''uint'', ''a'', '','', ''uint'', ''b'', '')'', ''='', ''f'', '';'']
   \<and> derives ''variable_declaration_statement'' [''uint'', ''a'', '';'']"
proof (intro conjI allI impI)
  fix ws t assume "parses ''variable_declaration_statement'' (''('' # ws) t"
  then show "\<exists>c e. t = tuple_declaration_statement c e \<and> conforms (SYMBOL ''_expression'') e
         \<and> ''='' \<in> set ws"
    by (rule tuple_declaration_initialised)
next
  show "\<not> derives ''variable_declaration_statement''
        [''('', ''uint'', ''a'', '','', ''uint'', ''b'', '')'', '';'']"
  proof
    assume "derives ''variable_declaration_statement''
        [''('', ''uint'', ''a'', '','', ''uint'', ''b'', '')'', '';'']"
    then obtain t where "parses ''variable_declaration_statement''
        (''('' # [''uint'', ''a'', '','', ''uint'', ''b'', '')'', '';'']) t"
      unfolding derives_def by auto
    from tuple_declaration_initialised [OF this] show False by simp
  qed
next
  show "derives ''variable_declaration_statement''
        [''('', ''uint'', ''a'', '','', ''uint'', ''b'', '')'', ''='', ''f'', '';'']"
    unfolding derives_def using tuple_declaration_with_initializer by blast
next
  show "derives ''variable_declaration_statement'' [''uint'', ''a'', '';'']"
    unfolding derives_def using declaration_without_initializer by blast
qed

theorem tuple_declaration_requires_initializer_witness:
  "parses ''variable_declaration_statement''
     (''('' # [''uint'', ''a'', '','', ''uint'', ''b'', '')'', ''='', ''f'', '';''])
     (tuple_declaration_statement
        (comma_tree [variable_declaration_tree uint_type None ''a'',
                     variable_declaration_tree uint_type None ''b''])
        (ident_expr ''f''))
   \<and> ''='' \<in> set [''uint'', ''a'', '','', ''uint'', ''b'', '')'', ''='', ''f'', '';'']"
  using tuple_declaration_requires_initializer tuple_declaration_with_initializer by blast

section \<open>Mapping types\<close>

lemma mapping_shape:
  assumes "conforms (SYMBOL ''_mapping'') t"
  shows "\<exists>k v. t = mapping_tree k v \<and>
           ((\<exists>u. k = Alt 0 u \<and> conforms (SYMBOL ''_primitive_type'') u) \<or>
            (\<exists>u. k = Alt 1 u \<and> conforms (SYMBOL ''_user_defined_type'') u)) \<and>
           conforms (SYMBOL ''type_name'') v"
  using assms
  by (auto simp add: conforms_sym [OF rules_u_mapping] conforms_sym [OF rules_u_mapping_key]
      u_mapping_def u_mapping_key_def inv choose mapping_tree_def)

lemmas mapping_rules = rules_type_name rules_u_mapping rules_u_mapping_key
  rules_u_primitive_type rules_u_uint type_name_def u_mapping_def u_mapping_key_def
  u_primitive_type_def u_uint_def

lemmas mapping_trees = mapping_tree_def type_tree_def primitive_def address_primitive_def
  uint_primitive_def uint256_type_def bool_type_def

lemma mapping_address_uint256:
  "parses ''type_name'' [''mapping'', ''('', ''address'', ''=>'', ''uint256'', '')'']
     (type_tree 2 (mapping_tree (Alt 0 address_primitive) uint256_type))"
  by (simp add: parses_def mapping_rules mapping_trees nesting)

lemma mapping_nested:
  "parses ''type_name''
     [''mapping'', ''('', ''address'', ''=>'',
        ''mapping'', ''('', ''uint'', ''=>'', ''bool'', '')'', '')'']
     (type_tree 2 (mapping_tree (Alt 0 address_primitive)
        (type_tree 2 (mapping_tree (Alt 0 uint_primitive) bool_type))))"
  by (simp add: parses_def mapping_rules mapping_trees nesting)

text \<open>
  C8. In a mapping type the key is a primitive type or a user-defined type and the value
  is any type name. \<^verbatim>\<open>mapping(address => uint256)\<close> parses with the key \<^verbatim>\<open>address\<close> and
  the value \<^verbatim>\<open>uint256\<close>; \<^verbatim>\<open>mapping(address => mapping(uint => bool))\<close> parses with the
  inner mapping as the value.
\<close>

theorem mapping_key_and_value:
  "(\<forall>t. conforms (SYMBOL ''_mapping'') t \<longrightarrow>
      (\<exists>k v. t = mapping_tree k v \<and>
         ((\<exists>u. k = Alt 0 u \<and> conforms (SYMBOL ''_primitive_type'') u) \<or>
          (\<exists>u. k = Alt 1 u \<and> conforms (SYMBOL ''_user_defined_type'') u)) \<and>
         conforms (SYMBOL ''type_name'') v))
   \<and> parses ''type_name'' [''mapping'', ''('', ''address'', ''=>'', ''uint256'', '')'']
        (type_tree 2 (mapping_tree (Alt 0 address_primitive) uint256_type))
   \<and> parses ''type_name''
        [''mapping'', ''('', ''address'', ''=>'',
           ''mapping'', ''('', ''uint'', ''=>'', ''bool'', '')'', '')'']
        (type_tree 2 (mapping_tree (Alt 0 address_primitive)
           (type_tree 2 (mapping_tree (Alt 0 uint_primitive) bool_type))))"
proof (intro conjI allI impI)
  fix t assume "conforms (SYMBOL ''_mapping'') t"
  then show "\<exists>k v. t = mapping_tree k v \<and>
         ((\<exists>u. k = Alt 0 u \<and> conforms (SYMBOL ''_primitive_type'') u) \<or>
          (\<exists>u. k = Alt 1 u \<and> conforms (SYMBOL ''_user_defined_type'') u)) \<and>
         conforms (SYMBOL ''type_name'') v"
    by (rule mapping_shape)
qed (rule mapping_address_uint256, rule mapping_nested)

theorem mapping_key_and_value_witness:
  "conforms (SYMBOL ''_mapping'') (mapping_tree (Alt 0 address_primitive) uint256_type)
   \<and> (\<exists>k v. mapping_tree (Alt 0 address_primitive) uint256_type = mapping_tree k v \<and>
         ((\<exists>u. k = Alt 0 u \<and> conforms (SYMBOL ''_primitive_type'') u) \<or>
          (\<exists>u. k = Alt 1 u \<and> conforms (SYMBOL ''_user_defined_type'') u)) \<and>
         conforms (SYMBOL ''type_name'') v)"
proof -
  have "conforms (SYMBOL ''_mapping'') (mapping_tree (Alt 0 address_primitive) uint256_type)"
    by (simp add: mapping_rules mapping_trees)
  with mapping_key_and_value show ?thesis by blast
qed

section \<open>Pragma directives\<close>

lemma pragma_shape:
  assumes "conforms (SYMBOL ''pragma_directive'') t"
  shows "\<exists>vs. t = pragma_tree vs"
  using assms
  by (auto simp add: inv conforms_SYMBOL rules_pragma_directive rules_u_semicolon pragma_directive_def
      u_semicolon_def pragma_tree_def semicolon_def)

lemma pragma_starts:
  assumes "parses ''pragma_directive'' ws t"
  shows "\<exists>rest. ws = ''pragma'' # ''solidity'' # rest"
proof -
  from assms have c: "conforms (SYMBOL ''pragma_directive'') t" and y: "yield t = ws"
    by (simp_all add: parses_def)
  from pragma_shape [OF c] obtain vs where "t = pragma_tree vs" ..
  with y show ?thesis by (auto simp add: pragma_tree_def)
qed

lemma pragma_empty:
  "parses ''pragma_directive'' [''pragma'', ''solidity'', '';''] (pragma_tree [])"
  by (simp add: parses_def pragma_tree_def semicolon_def rules_pragma_directive
      rules_u_semicolon pragma_directive_def u_semicolon_def nesting)

text \<open>
  C10. Every pragma directive begins with the two tokens \<^verbatim>\<open>pragma\<close> \<^verbatim>\<open>solidity\<close>, so
  \<^verbatim>\<open>pragma experimental ABIEncoderV2;\<close> is not a pragma directive; the list of version
  constraints may be empty, so \<^verbatim>\<open>pragma solidity;\<close> is one.
\<close>

theorem pragma_directive_solidity:
  "(\<forall>ws t. parses ''pragma_directive'' ws t \<longrightarrow> (\<exists>rest. ws = ''pragma'' # ''solidity'' # rest))
   \<and> \<not> derives ''pragma_directive'' [''pragma'', ''experimental'', ''ABIEncoderV2'', '';'']
   \<and> derives ''pragma_directive'' [''pragma'', ''solidity'', '';'']"
proof (intro conjI allI impI)
  fix ws t assume "parses ''pragma_directive'' ws t"
  then show "\<exists>rest. ws = ''pragma'' # ''solidity'' # rest" by (rule pragma_starts)
next
  show "\<not> derives ''pragma_directive'' [''pragma'', ''experimental'', ''ABIEncoderV2'', '';'']"
    unfolding derives_def using pragma_starts by fastforce
next
  show "derives ''pragma_directive'' [''pragma'', ''solidity'', '';'']"
    unfolding derives_def using pragma_empty by blast
qed

theorem pragma_directive_solidity_witness:
  "parses ''pragma_directive'' [''pragma'', ''solidity'', '';''] (pragma_tree [])
   \<and> (\<exists>rest. [''pragma'', ''solidity'', '';''] = ''pragma'' # ''solidity'' # rest)"
  using pragma_directive_solidity pragma_empty by blast

end
